(* ===== verification/Prelude.thy ===== *)
theory Prelude
  imports Main "HOL-Library.Word" "HOL-Library.Char_ord" "HOL-Library.List_Lexorder"
begin

text \<open>
  What every component of the development shares: the types of the Rust integers, fallible
  computations (Rust's \<open>Result\<close> and the \<open>?\<close> operator), the checked and saturating integer
  operations of the standard library, decimal printing and parsing of unsigned integers, and a
  generic invariant rule for loops that stop at the first error.

  Strings are byte strings (\<^typ>\<open>char list\<close>), as Rust's \<open>str::len\<close> and \<open>str::cmp\<close> see them;
  \<open>List_Lexorder\<close> and \<open>Char_ord\<close> give them the order of \<open>str::cmp\<close>.
\<close>

section \<open>Collections of simplification rules\<close>

named_theorems result_simps
  \<open>how a computation that propagates errors can succeed or fail\<close>
named_theorems checked_simps
  \<open>the natural number a checked or saturating word operation returns\<close>

section \<open>Integer types\<close>

type_synonym u8 = "8 word"
type_synonym u32 = "32 word"
type_synonym u64 = "64 word"
type_synonym u128 = "128 word"

section \<open>Results\<close>

abbreviation Ok :: "'a \<Rightarrow> 'e + 'a" where
  "Ok \<equiv> Inr"

abbreviation Err :: "'e \<Rightarrow> 'e + 'a" where
  "Err \<equiv> Inl"

text \<open>\<open>let x = r?; \<dots>\<close>\<close>

definition rbind :: "'e + 'a \<Rightarrow> ('a \<Rightarrow> 'e + 'b) \<Rightarrow> 'e + 'b" where
  "rbind r f = (case r of Inl e \<Rightarrow> Inl e | Inr x \<Rightarrow> f x)"

text \<open>\<open>Option::ok_or\<close>, \<open>Result::map_err\<close>, \<open>Result::ok\<close> and a guard (\<open>ensure!\<close>, or \<open>if \<dots> { bail! }\<close>).\<close>

definition ok_or :: "'a option \<Rightarrow> 'e \<Rightarrow> 'e + 'a" where
  "ok_or x e = (case x of None \<Rightarrow> Inl e | Some y \<Rightarrow> Inr y)"

definition map_err :: "('e \<Rightarrow> 'f) \<Rightarrow> 'e + 'a \<Rightarrow> 'f + 'a" where
  "map_err f r = (case r of Inl e \<Rightarrow> Inl (f e) | Inr x \<Rightarrow> Inr x)"

definition result_ok :: "'e + 'a \<Rightarrow> 'a option" where
  "result_ok r = (case r of Inl _ \<Rightarrow> None | Inr x \<Rightarrow> Some x)"

definition ensure :: "bool \<Rightarrow> 'e \<Rightarrow> 'e + unit" where
  "ensure b e = (if b then Inr () else Inl e)"

definition is_ok :: "'e + 'a \<Rightarrow> bool" where
  "is_ok r = (case r of Inl _ \<Rightarrow> False | Inr _ \<Rightarrow> True)"

text \<open>A loop whose body may fail: it stops at the first error.\<close>

fun try_fold :: "('s \<Rightarrow> 'a \<Rightarrow> 'e + 's) \<Rightarrow> 's \<Rightarrow> 'a list \<Rightarrow> 'e + 's" where
  "try_fold f s [] = Inr s"
| "try_fold f s (x # xs) = (case f s x of Inl e \<Rightarrow> Inl e | Inr s' \<Rightarrow> try_fold f s' xs)"

text \<open>A loop that only checks: \<open>for x in xs { check(x)?; }\<close>\<close>

definition try_for_each :: "('a \<Rightarrow> 'e + unit) \<Rightarrow> 'a list \<Rightarrow> 'e + unit" where
  "try_for_each f xs = try_fold (\<lambda>_ x. f x) () xs"

text \<open>\<open>iter.map(f).collect::<Result<Vec<_>, _>>()\<close>\<close>

fun try_map :: "('a \<Rightarrow> 'e + 'b) \<Rightarrow> 'a list \<Rightarrow> 'e + 'b list" where
  "try_map f [] = Inr []"
| "try_map f (x # xs) = rbind (f x) (\<lambda>y. rbind (try_map f xs) (\<lambda>ys. Inr (y # ys)))"

lemma rbind_Inr [simp]: "rbind (Inr x) f = f x"
  by (simp add: rbind_def)

lemma rbind_Inl [simp]: "rbind (Inl e) f = Inl e"
  by (simp add: rbind_def)

lemma rbind_assoc: "rbind (rbind r f) g = rbind r (\<lambda>x. rbind (f x) g)"
  by (cases r) simp_all

lemma rbind_eq_Inr [result_simps]: "rbind r f = Inr y \<longleftrightarrow> (\<exists>x. r = Inr x \<and> f x = Inr y)"
  by (cases r) (auto simp: rbind_def)

lemma rbind_eq_Inl [result_simps]:
  "rbind r f = Inl e \<longleftrightarrow> r = Inl e \<or> (\<exists>x. r = Inr x \<and> f x = Inl e)"
  by (cases r) (auto simp: rbind_def)

lemma ok_or_eq_Inr [result_simps]: "ok_or x e = Inr y \<longleftrightarrow> x = Some y"
  by (cases x) (auto simp: ok_or_def)

lemma ok_or_eq_Inl [result_simps]: "ok_or x e = Inl e' \<longleftrightarrow> x = None \<and> e' = e"
  by (cases x) (auto simp: ok_or_def)

lemma ok_or_simps [simp]: "ok_or (Some y) e = Inr y" "ok_or None e = Inl e"
  by (simp_all add: ok_or_def)

lemma map_err_eq_Inr [result_simps]: "map_err f r = Inr y \<longleftrightarrow> r = Inr y"
  by (cases r) (auto simp: map_err_def)

lemma map_err_eq_Inl [result_simps]: "map_err f r = Inl e \<longleftrightarrow> (\<exists>e'. r = Inl e' \<and> e = f e')"
  by (cases r) (auto simp: map_err_def)

lemma map_err_simps [simp]: "map_err f (Inr y) = Inr y" "map_err f (Inl e) = Inl (f e)"
  by (simp_all add: map_err_def)

lemma ensure_eq_Inr [result_simps]: "ensure b e = Inr u \<longleftrightarrow> b"
  by (cases u) (simp add: ensure_def)

lemma ensure_eq_Inl [result_simps]: "ensure b e = Inl e' \<longleftrightarrow> \<not> b \<and> e' = e"
  by (auto simp: ensure_def)

lemma ensure_simps [simp]: "ensure True e = Inr ()" "ensure False e = Inl e"
  by (simp_all add: ensure_def)

lemma is_ok_iff: "is_ok r \<longleftrightarrow> (\<exists>y. r = Inr y)"
  by (cases r) (auto simp: is_ok_def)

lemma is_ok_simps [simp]: "is_ok (Inr y)" "\<not> is_ok (Inl e)"
  by (simp_all add: is_ok_def)

lemma try_fold_append:
  "try_fold f s (xs @ ys) = rbind (try_fold f s xs) (\<lambda>s'. try_fold f s' ys)"
  by (induction xs arbitrary: s) (auto split: sum.splits)

lemma try_fold_snoc: "try_fold f s (xs @ [x]) = rbind (try_fold f s xs) (\<lambda>s'. f s' x)"
proof -
  have "try_fold f s' [x] = f s' x" for s' by (simp split: sum.split)
  then show ?thesis by (simp add: try_fold_append del: try_fold.simps)
qed

lemma try_map_eq_Inr [result_simps]: "try_map f xs = Inr ys \<longleftrightarrow> list_all2 (\<lambda>x y. f x = Inr y) xs ys"
  by (induction xs arbitrary: ys) (auto simp: rbind_eq_Inr list_all2_Cons1)

lemma try_for_each_Nil [simp]: "try_for_each f [] = Inr ()"
  by (simp add: try_for_each_def)

lemma try_for_each_Cons: "try_for_each f (x # xs) = rbind (f x) (\<lambda>_. try_for_each f xs)"
  by (cases "f x") (simp_all add: try_for_each_def)

lemma try_for_each_eq_Inr [result_simps]:
  "try_for_each f xs = Inr u \<longleftrightarrow> (\<forall>x \<in> set xs. f x = Inr ())"
  by (induction xs) (auto simp: try_for_each_Cons rbind_eq_Inr)

section \<open>Transition systems\<close>

text \<open>
  The contract several components share: an operation that may fail, a state predicate it keeps
  whenever it succeeds. Everything run by \<^const>\<open>try_fold\<close> over a sequence of inputs then keeps it.
\<close>

locale fallible_system =
  fixes step :: "'s \<Rightarrow> 'a \<Rightarrow> 'e + 's"
    and inv :: "'s \<Rightarrow> bool"
  assumes step_inv: "inv s \<Longrightarrow> step s x = Inr s' \<Longrightarrow> inv s'"
begin

lemma run_inv: "inv s \<Longrightarrow> try_fold step s xs = Inr s' \<Longrightarrow> inv s'"
  by (induction xs arbitrary: s) (auto split: sum.splits dest: step_inv)

lemma run_prefix_inv:
  "inv s \<Longrightarrow> try_fold step s (xs @ ys) = Inr s' \<Longrightarrow> \<exists>t. try_fold step s xs = Inr t \<and> inv t"
  by (auto simp: try_fold_append result_simps dest: run_inv)

lemma run_error: "inv s \<Longrightarrow> try_fold step s xs = Inl e \<Longrightarrow> \<exists>t x. inv t \<and> x \<in> set xs \<and> step t x = Inl e"
  by (induction xs arbitrary: s) (force split: sum.splits dest: step_inv)+

end

text \<open>The same for operations that always return: one function per kind of request.\<close>

locale total_system =
  fixes next_state :: "'s \<Rightarrow> 'a \<Rightarrow> 's"
    and inv :: "'s \<Rightarrow> bool"
  assumes next_inv: "inv s \<Longrightarrow> inv (next_state s x)"
begin

lemma foldl_inv: "inv s \<Longrightarrow> inv (foldl next_state s xs)"
  by (induction xs arbitrary: s) (auto intro: next_inv)

end

section \<open>Checked and saturating arithmetic\<close>

text \<open>\<open>checked_add\<close>, \<open>checked_sub\<close>, \<open>checked_mul\<close>, \<open>saturating_sub\<close>, \<open>saturating_mul\<close> of the unsigned
  integer types. With \<open>overflow-checks\<close> on (the workspace's release profile), plain \<open>+\<close>, \<open>-\<close>, \<open>*\<close>
  behave as the checked versions, with a panic in place of \<^const>\<open>None\<close>.\<close>

definition checked_add :: "'a::len word \<Rightarrow> 'a word \<Rightarrow> 'a word option" where
  "checked_add x y = (if unat x + unat y < 2 ^ LENGTH('a) then Some (x + y) else None)"

definition checked_sub :: "'a::len word \<Rightarrow> 'a word \<Rightarrow> 'a word option" where
  "checked_sub x y = (if y \<le> x then Some (x - y) else None)"

definition checked_mul :: "'a::len word \<Rightarrow> 'a word \<Rightarrow> 'a word option" where
  "checked_mul x y = (if unat x * unat y < 2 ^ LENGTH('a) then Some (x * y) else None)"

definition saturating_sub :: "'a::len word \<Rightarrow> 'a word \<Rightarrow> 'a word" where
  "saturating_sub x y = (if y \<le> x then x - y else 0)"

definition saturating_mul :: "'a::len word \<Rightarrow> 'a word \<Rightarrow> 'a word" where
  "saturating_mul x y = (if unat x * unat y < 2 ^ LENGTH('a) then x * y else - 1)"

lemma unat_u128_less: "unat (x :: u128) < 340282366920938463463374607431768211456"
  using unsigned_less [of x, where 'a = nat] by simp

lemma unat_u64_less: "unat (x :: u64) < 18446744073709551616"
  using unsigned_less [of x, where 'a = nat] by simp

lemma checked_add_eq_Some [checked_simps]:
  "checked_add x y = Some (z :: 'a::len word) \<longleftrightarrow>
     unat x + unat y < 2 ^ LENGTH('a) \<and> unat z = unat x + unat y"
  by (auto simp: checked_add_def unat_word_ariths word_unat_eq_iff)

lemma checked_add_eq_None [checked_simps]:
  "checked_add (x :: 'a::len word) y = None \<longleftrightarrow> 2 ^ LENGTH('a) \<le> unat x + unat y"
  by (auto simp: checked_add_def)

lemma checked_sub_eq_Some [checked_simps]:
  "checked_sub x y = Some (z :: 'a::len word) \<longleftrightarrow> unat y \<le> unat x \<and> unat z = unat x - unat y"
  by (auto simp: checked_sub_def word_le_nat_alt unat_sub word_unat_eq_iff)

lemma checked_sub_eq_None [checked_simps]:
  "checked_sub x y = None \<longleftrightarrow> unat x < unat y"
  by (auto simp: checked_sub_def word_le_nat_alt)

lemma checked_mul_eq_Some [checked_simps]:
  "checked_mul x y = Some (z :: 'a::len word) \<longleftrightarrow>
     unat x * unat y < 2 ^ LENGTH('a) \<and> unat z = unat x * unat y"
  by (auto simp: checked_mul_def unat_word_ariths word_unat_eq_iff)

lemma unat_saturating_sub [checked_simps]: "unat (saturating_sub x y) = unat x - unat y"
  by (auto simp: saturating_sub_def word_le_nat_alt unat_sub)

lemma unat_saturating_mul [checked_simps]:
  "unat (saturating_mul x (y :: 'a::len word)) = min (unat x * unat y) (2 ^ LENGTH('a) - 1)"
  by (auto simp: saturating_mul_def unat_word_ariths unsigned_minus_1_eq_mask mask_eq_exp_minus_1)

section \<open>Decimal numerals\<close>

text \<open>
  \<open>to_string\<close> and \<open>parse\<close> of the unsigned integer types (\<open>core::num\<close>): parsing takes an optional
  \<open>+\<close>, needs at least one digit, refuses every other byte and reports overflow.
\<close>

definition digit_val :: "char \<Rightarrow> nat option" where
  "digit_val ch = (let b = of_char ch in if 48 \<le> b \<and> b \<le> (57::nat) then Some (b - 48) else None)"

definition is_ascii_digit :: "char \<Rightarrow> bool" where
  "is_ascii_digit ch = (48 \<le> (of_char ch :: nat) \<and> (of_char ch :: nat) \<le> 57)"

fun parse_digits :: "nat \<Rightarrow> nat \<Rightarrow> string \<Rightarrow> nat option" where
  "parse_digits B acc [] = Some acc"
| "parse_digits B acc (ch # cs) =
     (case digit_val ch of
        None \<Rightarrow> None
      | Some d \<Rightarrow> if acc * 10 + d < B then parse_digits B (acc * 10 + d) cs else None)"

definition parse_uint :: "nat \<Rightarrow> string \<Rightarrow> nat option" where
  "parse_uint B s =
     (case s of
        [] \<Rightarrow> None
      | ch # cs \<Rightarrow>
          if ch = CHR ''+'' then (if cs = [] then None else parse_digits B 0 cs)
          else parse_digits B 0 s)"

definition parse_word :: "string \<Rightarrow> 'a::len word option" where
  "parse_word s = map_option of_nat (parse_uint (2 ^ LENGTH('a)) s)"

fun nat_to_dec :: "nat \<Rightarrow> string" where
  "nat_to_dec n =
     (if n < 10 then [char_of (48 + n)] else nat_to_dec (n div 10) @ [char_of (48 + n mod 10)])"

declare nat_to_dec.simps [simp del]

definition word_to_string :: "'a::len word \<Rightarrow> string" where
  "word_to_string w = nat_to_dec (unat w)"

lemma digit_val_char_of [simp]: "d < 10 \<Longrightarrow> digit_val (char_of (48 + d)) = Some d"
  by (simp add: digit_val_def Let_def)

lemma parse_digits_append:
  "parse_digits B acc (xs @ ys) = Option.bind (parse_digits B acc xs) (\<lambda>a. parse_digits B a ys)"
  by (induction xs arbitrary: acc) (auto split: option.splits)

lemma parse_digits_nat_to_dec:
  assumes "n < B" shows "parse_digits B 0 (nat_to_dec n) = Some n"
  using assms
proof (induction n rule: nat_to_dec.induct)
  case (1 n)
  show ?case
  proof (cases "n < 10")
    case True
    with "1.prems" show ?thesis by (simp add: nat_to_dec.simps [of n])
  next
    case False
    with "1.prems" have "n div 10 < B" by linarith
    with "1.IH" False have "parse_digits B 0 (nat_to_dec (n div 10)) = Some (n div 10)" by simp
    moreover have "n div 10 * 10 + n mod 10 = n" by simp
    ultimately show ?thesis
      using False "1.prems" by (simp add: nat_to_dec.simps [of n] parse_digits_append)
  qed
qed

lemma nat_to_dec_Cons: "\<exists>d cs. nat_to_dec n = char_of (48 + d :: nat) # cs \<and> d < 10"
proof (induction n rule: nat_to_dec.induct)
  case (1 n)
  show ?case
  proof (cases "n < 10")
    case True
    then have "nat_to_dec n = char_of (48 + n) # []" by (simp add: nat_to_dec.simps [of n])
    with True show ?thesis by blast
  next
    case False
    with "1.IH" obtain d cs where "nat_to_dec (n div 10) = char_of (48 + d :: nat) # cs" "d < 10"
      by blast
    with False have "nat_to_dec n = char_of (48 + d) # (cs @ [char_of (48 + n mod 10)])"
      by (simp add: nat_to_dec.simps [of n])
    with \<open>d < 10\<close> show ?thesis by blast
  qed
qed

lemma plus_not_digit: "d < 10 \<Longrightarrow> char_of (48 + d :: nat) \<noteq> CHR ''+''"
proof
  assume "d < 10" and "char_of (48 + d :: nat) = CHR ''+''"
  then have "of_char (char_of (48 + d :: nat)) = (of_char CHR ''+'' :: nat)" by simp
  with \<open>d < 10\<close> show False by (simp add: of_char_of)
qed

lemma parse_word_to_string [simp]: "parse_word (word_to_string w) = Some w"
proof -
  have lt: "unat w < 2 ^ LENGTH('a)" by simp
  obtain d cs where c: "nat_to_dec (unat w) = char_of (48 + d :: nat) # cs" and d: "d < 10"
    using nat_to_dec_Cons by blast
  show ?thesis
    using parse_digits_nat_to_dec [OF lt] c plus_not_digit [OF d]
    by (simp add: parse_word_def word_to_string_def parse_uint_def)
qed

end
