(* ===== verification/Ordered_Map.thy ===== *)
theory Ordered_Map
  imports Prelude
begin

text \<open>
  \<open>BTreeMap\<close>: a list of key-value pairs in strictly increasing key order. The list is the map's
  iteration order, and because the representation is canonical, equality of lists is equality of
  maps (Rust's derived \<open>PartialEq\<close>). \<open>HashMap\<close>s whose iteration order the code never exposes use
  the same representation.

  The interface the components rely on is the locale \<open>ordered_map\<close>; \<open>bt\<close> interprets it.
\<close>

section \<open>The interface\<close>

locale ordered_map =
  fixes get :: "'m \<Rightarrow> 'k \<Rightarrow> 'v option"
    and ins :: "'k \<Rightarrow> 'v \<Rightarrow> 'm \<Rightarrow> 'm"
    and del :: "'k \<Rightarrow> 'm \<Rightarrow> 'm"
    and wf :: "'m \<Rightarrow> bool"
  assumes get_ins: "wf m \<Longrightarrow> get (ins k v m) = (get m)(k \<mapsto> v)"
    and get_del: "wf m \<Longrightarrow> get (del k m) = (get m)(k := None)"
    and wf_ins: "wf m \<Longrightarrow> wf (ins k v m)"
    and wf_del: "wf m \<Longrightarrow> wf (del k m)"
    and ext: "wf m \<Longrightarrow> wf m' \<Longrightarrow> get m = get m' \<Longrightarrow> m = m'"
begin

lemma ins_ins_same: "wf m \<Longrightarrow> ins k v (ins k w m) = ins k v m"
  by (intro ext wf_ins) (simp_all add: get_ins wf_ins)

lemma ins_ins_commute: "wf m \<Longrightarrow> k \<noteq> l \<Longrightarrow> ins k v (ins l w m) = ins l w (ins k v m)"
  by (intro ext wf_ins) (simp_all add: get_ins wf_ins fun_upd_twist)

lemma ins_get: "wf m \<Longrightarrow> get m k = Some v \<Longrightarrow> ins k v m = m"
  by (intro ext wf_ins) (auto simp: get_ins fun_upd_idem_iff)

lemma del_absent: "wf m \<Longrightarrow> get m k = None \<Longrightarrow> del k m = m"
  by (intro ext wf_del) (auto simp: get_del fun_upd_idem_iff)

lemma del_ins_absent: "wf m \<Longrightarrow> get m k = None \<Longrightarrow> del k (ins k v m) = m"
  by (intro ext wf_del wf_ins) (auto simp: get_del get_ins wf_ins fun_upd_idem_iff)

text \<open>Writing every entry of a list, and restoring recorded old entries.\<close>

lemma wf_ins_all: "wf m \<Longrightarrow> wf (fold (\<lambda>(k, v). ins k v) kvs m)"
  by (induction kvs arbitrary: m) (auto simp: wf_ins)

lemma get_ins_all:
  "wf m \<Longrightarrow> get (fold (\<lambda>(k, v). ins k v) kvs m) = get m ++ map_of (rev kvs)"
  by (induction kvs arbitrary: m) (auto simp: wf_ins get_ins map_add_def fun_eq_iff split: option.splits)

lemma wf_restore_all:
  "wf m \<Longrightarrow> wf (fold (\<lambda>(k, v). case v of None \<Rightarrow> del k | Some w \<Rightarrow> ins k w) old m)"
  by (induction old arbitrary: m) (auto simp: wf_ins wf_del split: option.split)

lemma get_restore_all:
  assumes "wf m" and "distinct (map fst old)"
  shows "get (fold (\<lambda>(k, v). case v of None \<Rightarrow> del k | Some w \<Rightarrow> ins k w) old m) k =
    (case map_of old k of None \<Rightarrow> get m k | Some v \<Rightarrow> v)"
  using assms
proof (induction old arbitrary: m)
  case Nil
  then show ?case by simp
next
  case (Cons p old)
  obtain a w where p: "p = (a, w)" by (cases p)
  let ?m = "(case w of None \<Rightarrow> del a | Some w \<Rightarrow> ins a w) m"
  have wf: "wf ?m" using Cons.prems(1) by (auto intro: wf_ins wf_del split: option.split)
  have get: "get ?m k = (if k = a then w else get m k)"
    using Cons.prems(1) by (auto simp: get_ins get_del split: option.split)
  have "map_of old a = None" using Cons.prems(2) p by (simp add: map_of_eq_None_iff)
  then show ?case using Cons.IH [OF wf] Cons.prems(2) p get by (auto split: option.split)
qed

text \<open>
  The inverse of a run of updates: if the recorded entries hold the old value of every key whose
  value differs, restoring them gives back the old map.
\<close>

lemma restore_all_inverse:
  assumes "wf m" and "wf m0" and "distinct (map fst old)"
    and "\<And>k v. map_of old k = Some v \<Longrightarrow> v = get m0 k"
    and "\<And>k. map_of old k = None \<Longrightarrow> get m k = get m0 k"
  shows "fold (\<lambda>(k, v). case v of None \<Rightarrow> del k | Some w \<Rightarrow> ins k w) old m = m0"
  using assms by (intro ext wf_restore_all) (auto simp: fun_eq_iff get_restore_all split: option.splits)

end

section \<open>Sorted association lists\<close>

type_synonym ('k, 'v) btree = "('k \<times> 'v) list"

definition bt_wf :: "('k::linorder, 'v) btree \<Rightarrow> bool" where
  "bt_wf m = sorted_wrt (<) (map fst m)"

fun bt_insert :: "'k::linorder \<Rightarrow> 'v \<Rightarrow> ('k, 'v) btree \<Rightarrow> ('k, 'v) btree" where
  "bt_insert k v [] = [(k, v)]"
| "bt_insert k v ((a, b) # m) =
     (if k < a then (k, v) # (a, b) # m else if k = a then (k, v) # m else (a, b) # bt_insert k v m)"

definition bt_remove :: "'k \<Rightarrow> ('k, 'v) btree \<Rightarrow> ('k, 'v) btree" where
  "bt_remove k m = filter (\<lambda>p. fst p \<noteq> k) m"

text \<open>\<open>map.get(k).copied().unwrap_or(d)\<close> and \<open>map.entry(k).or_insert(v)\<close>.\<close>

definition bt_get_or :: "'v \<Rightarrow> ('k, 'v) btree \<Rightarrow> 'k \<Rightarrow> 'v" where
  "bt_get_or d m k = (case map_of m k of None \<Rightarrow> d | Some v \<Rightarrow> v)"

definition bt_or_insert :: "'k::linorder \<Rightarrow> 'v \<Rightarrow> ('k, 'v) btree \<Rightarrow> ('k, 'v) btree" where
  "bt_or_insert k v m = (case map_of m k of None \<Rightarrow> bt_insert k v m | Some _ \<Rightarrow> m)"

lemma bt_wf_Nil [simp]: "bt_wf []"
  by (simp add: bt_wf_def)

lemma bt_wf_Cons: "bt_wf ((a, b) # m) \<longleftrightarrow> bt_wf m \<and> (\<forall>k \<in> fst ` set m. a < k)"
  by (auto simp: bt_wf_def)

lemma set_fst_bt_insert: "fst ` set (bt_insert k v m) = insert k (fst ` set m)"
  by (induction k v m rule: bt_insert.induct) auto

lemma set_bt_insert_subset: "set (bt_insert k v m) \<subseteq> insert (k, v) (set m)"
  by (induction k v m rule: bt_insert.induct) auto

lemma bt_wf_insert [simp]: "bt_wf m \<Longrightarrow> bt_wf (bt_insert k v m)"
  by (induction k v m rule: bt_insert.induct) (auto simp: bt_wf_Cons set_fst_bt_insert)

lemma map_of_bt_insert [simp]: "map_of (bt_insert k v m) = (map_of m)(k \<mapsto> v)"
  by (induction k v m rule: bt_insert.induct) (auto simp: fun_eq_iff)

lemma bt_wf_filter: "bt_wf m \<Longrightarrow> bt_wf (filter P m)"
  by (induction m) (auto simp: bt_wf_Cons)

lemma bt_wf_remove [simp]: "bt_wf m \<Longrightarrow> bt_wf (bt_remove k m)"
  by (simp add: bt_remove_def bt_wf_filter)

lemma map_of_bt_remove [simp]: "map_of (bt_remove k m) = (map_of m)(k := None)"
  unfolding bt_remove_def by (induction m) (auto simp: fun_eq_iff)

lemma bt_wf_distinct: "bt_wf m \<Longrightarrow> distinct (map fst m)"
  unfolding bt_wf_def by (simp add: strict_sorted_iff)

lemma bt_ext:
  fixes m m' :: "('k::linorder, 'v) btree"
  assumes "bt_wf m" and "bt_wf m'" and "map_of m = map_of m'"
  shows "m = m'"
proof -
  have "set m = set m'"
    using map_of_inject_set [of m m'] assms by (simp add: bt_wf_distinct)
  moreover have "sorted (map fst m)" "sorted (map fst m')"
    using assms unfolding bt_wf_def by (simp_all add: strict_sorted_iff)
  ultimately show ?thesis
    using assms(1,2) bt_wf_distinct [of m] bt_wf_distinct [of m']
    by (intro map_sorted_distinct_set_unique [of fst]) (simp_all add: distinct_map)
qed

interpretation bt: ordered_map map_of bt_insert bt_remove bt_wf
  by unfold_locales (auto intro: bt_ext)

lemma bt_get_or_insert [simp]:
  "bt_get_or d (bt_insert k v m) l = (if l = k then v else bt_get_or d m l)"
  by (simp add: bt_get_or_def)

lemma bt_get_or_remove [simp]:
  "bt_get_or d (bt_remove k m) l = (if l = k then d else bt_get_or d m l)"
  by (simp add: bt_get_or_def)

lemma bt_get_or_Nil [simp]: "bt_get_or d [] l = d"
  by (simp add: bt_get_or_def)

lemma bt_wf_or_insert [simp]: "bt_wf m \<Longrightarrow> bt_wf (bt_or_insert k v m)"
  by (simp add: bt_or_insert_def split: option.split)

lemma map_of_bt_or_insert:
  "map_of (bt_or_insert k v m) l = (if l = k \<and> map_of m k = None then Some v else map_of m l)"
  by (auto simp: bt_or_insert_def split: option.split)

section \<open>Sums over the values\<close>

definition bt_sum :: "('k, 'a::len word) btree \<Rightarrow> nat" where
  "bt_sum m = sum_list (map (\<lambda>p. unat (snd p)) m)"

lemma bt_sum_Nil [simp]: "bt_sum [] = 0"
  by (simp add: bt_sum_def)

lemma bt_sum_Cons [simp]: "bt_sum (p # m) = unat (snd p) + bt_sum m"
  by (simp add: bt_sum_def)

lemma bt_get_or_not_in: "k \<notin> fst ` set m \<Longrightarrow> bt_get_or d m k = d"
  by (simp add: bt_get_or_def map_of_eq_None_iff [THEN iffD2])

lemma bt_get_or_Cons: "bt_get_or d ((a, b) # m) k = (if k = a then b else bt_get_or d m k)"
  by (simp add: bt_get_or_def)

lemma bt_sum_insert:
  "bt_wf m \<Longrightarrow> bt_sum (bt_insert k v m) + unat (bt_get_or 0 m k) = bt_sum m + unat v"
proof (induction k v m rule: bt_insert.induct)
  case (2 k v a b m)
  have notin: "bt_get_or 0 m k = 0" if "k \<le> a"
    using "2.prems" that by (intro bt_get_or_not_in) (auto simp: bt_wf_Cons)
  show ?case
    using "2" notin by (auto simp: bt_wf_Cons bt_get_or_Cons)
qed auto

lemma bt_get_le_sum: "unat (bt_get_or 0 m k) \<le> bt_sum m"
  by (induction m) (auto simp: bt_get_or_Cons)

lemma bt_get_two_le_sum:
  assumes "bt_wf m" and "k \<noteq> l"
  shows "unat (bt_get_or 0 m k) + unat (bt_get_or 0 m l) \<le> bt_sum m"
proof -
  have "unat (bt_get_or 0 (bt_insert k 0 m) l) \<le> bt_sum (bt_insert k 0 m)"
    by (rule bt_get_le_sum)
  with bt_sum_insert [OF assms(1), of k 0] assms(2) show ?thesis by simp
qed

section \<open>Counting entries\<close>

definition bt_count :: "('k \<times> 'v \<Rightarrow> bool) \<Rightarrow> ('k, 'v) btree \<Rightarrow> nat" where
  "bt_count P m = length (filter P m)"

lemma bt_count_Nil [simp]: "bt_count P [] = 0"
  by (simp add: bt_count_def)

lemma bt_count_le_length: "bt_count P m \<le> length m"
  by (simp add: bt_count_def)

lemma bt_count_insert_new:
  "map_of m k = None \<Longrightarrow> bt_count P (bt_insert k v m) = bt_count P m + (if P (k, v) then 1 else 0)"
  by (induction k v m rule: bt_insert.induct) (auto simp: bt_count_def split: if_splits)

lemma length_bt_insert_new: "map_of m k = None \<Longrightarrow> length (bt_insert k v m) = Suc (length m)"
  by (induction k v m rule: bt_insert.induct) (auto split: if_splits)

lemma bt_count_remove:
  assumes "bt_wf m" and "map_of m k = Some v"
  shows "bt_count P (bt_remove k m) + (if P (k, v) then 1 else 0) = bt_count P m"
  using assms
proof (induction m)
  case (Cons p m)
  obtain a b where p: "p = (a, b)" by (cases p)
  have wf: "bt_wf m" and a: "a \<notin> fst ` set m" using Cons.prems(1) by (auto simp: p bt_wf_Cons)
  show ?case
  proof (cases "a = k")
    case True
    then have "bt_remove k m = m" using wf a by (intro bt.del_absent) (auto simp: map_of_eq_None_iff)
    with True Cons.prems(2) show ?thesis by (simp add: p bt_count_def bt_remove_def)
  next
    case False
    with Cons.IH [OF wf] Cons.prems(2) show ?thesis by (auto simp: p bt_count_def bt_remove_def split: if_splits)
  qed
qed simp

lemma length_bt_remove:
  assumes "bt_wf m" and "map_of m k = Some v"
  shows "Suc (length (bt_remove k m)) = length m"
  using bt_count_remove [OF assms, of "\<lambda>_. True"] by (simp add: bt_count_def)

lemma bt_count_filter: "bt_count P (filter Q m) \<le> bt_count P m"
  by (induction m) (auto simp: bt_count_def)

lemma bt_count_cong: "(\<And>p. p \<in> set m \<Longrightarrow> P p = Q p) \<Longrightarrow> bt_count P m = bt_count Q m"
  by (simp add: bt_count_def cong: filter_cong)

end
