(* ===== verification/External.thy ===== *)
theory External
  imports Ordered_Map
begin

text \<open>
  The boundary of the model. Third-party crates (\<open>blake3\<close>, \<open>sha2\<close>, \<open>ed25519-dalek\<close>, \<open>hex\<close>,
  \<open>num-bigint\<close>'s text conversions, \<open>serde_json\<close>) are the fields of the record \<open>ext\<close>, which every
  definition that calls them takes as an argument. \<open>BigUint\<close> values themselves are natural
  numbers. What proofs use of these crates is stated as the named hypotheses \<open>digest32\<close>,
  \<open>hex_laws\<close>, \<open>biguint_laws\<close>,
  \<open>fmt_laws\<close> and \<open>hex_value_laws\<close>; \<open>ref_ext\<close> is a concrete instance that satisfies all of them.
\<close>

section \<open>JSON values\<close>

text \<open>\<open>serde_json::Value\<close>. An object is the list of its fields in iteration order.\<close>

datatype json_number = PosInt u64 | NegInt int | Float string

datatype json =
    JNull
  | JBool bool
  | JNumber json_number
  | JString string
  | JArray "json list"
  | JObject "(string \<times> json) list"

text \<open>\<open>Value::get\<close>, \<open>as_str\<close>, \<open>as_u64\<close>, \<open>as_object\<close>, \<open>is_object\<close>.\<close>

fun json_get :: "json \<Rightarrow> string \<Rightarrow> json option" where
  "json_get (JObject fs) k = map_of fs k"
| "json_get _ k = None"

fun json_as_str :: "json \<Rightarrow> string option" where
  "json_as_str (JString s) = Some s"
| "json_as_str _ = None"

fun json_as_u64 :: "json \<Rightarrow> u64 option" where
  "json_as_u64 (JNumber (PosInt n)) = Some n"
| "json_as_u64 _ = None"

fun json_as_object :: "json \<Rightarrow> (string \<times> json) list option" where
  "json_as_object (JObject fs) = Some fs"
| "json_as_object _ = None"

fun json_is_object :: "json \<Rightarrow> bool" where
  "json_is_object (JObject fs) = True"
| "json_is_object _ = False"

abbreviation JU64 :: "u64 \<Rightarrow> json" where
  "JU64 n \<equiv> JNumber (PosInt n)"

section \<open>The transfer payload\<close>

text \<open>\<open>NativeTransferPayload\<close> (native_ledger.rs): the typed view of a signed transfer.\<close>

record native_transfer_payload =
  tp_schema :: string
  tp_from :: string
  tp_to :: string
  tp_amount :: string
  tp_fee :: string
  tp_nonce :: string
  tp_valid_before :: string

section \<open>Third-party functions\<close>

record ext =
  ext_blake3 :: "u8 list \<Rightarrow> u8 list"
  ext_sha256 :: "u8 list \<Rightarrow> u8 list"
  ext_hex_encode :: "u8 list \<Rightarrow> string"
  ext_hex_decode :: "string \<Rightarrow> string + u8 list"
  ext_hex_decode_to_slice :: "string \<Rightarrow> nat \<Rightarrow> u8 list option"
  ext_biguint_parse_bytes16 :: "string \<Rightarrow> nat option"
  ext_biguint_parse :: "string \<Rightarrow> nat option"
  ext_biguint_to_string :: "nat \<Rightarrow> string"
  ext_biguint_fmt_064x :: "nat \<Rightarrow> string"
  ext_ed25519_point_ok :: "u8 list \<Rightarrow> bool"
  ext_ed25519_verify :: "u8 list \<Rightarrow> u8 list \<Rightarrow> u8 list \<Rightarrow> bool"
  ext_ed25519_verify_strict :: "u8 list \<Rightarrow> u8 list \<Rightarrow> u8 list \<Rightarrow> bool"
  ext_json_to_vec :: "json \<Rightarrow> u8 list"
  ext_transfer_payload_from_value :: "json \<Rightarrow> native_transfer_payload option"

text \<open>\<open>str::as_bytes\<close>, and the bytes the code accepts as lowercase hex.\<close>

definition as_bytes :: "string \<Rightarrow> u8 list" where
  "as_bytes s = map of_char s"

definition is_lower_hex :: "char \<Rightarrow> bool" where
  "is_lower_hex ch = (let b = (of_char ch :: nat) in (48 \<le> b \<and> b \<le> 57) \<or> (97 \<le> b \<and> b \<le> 102))"

text \<open>Both hash functions return 32 bytes.\<close>

definition digest32 :: "ext \<Rightarrow> bool" where
  "digest32 E \<longleftrightarrow> (\<forall>bs. length (ext_blake3 E bs) = 32 \<and> length (ext_sha256 E bs) = 32)"

text \<open>
  \<open>hex::encode\<close> writes two lowercase digits per byte, \<open>decode_to_slice\<close> fills the slice or fails,
  reads every well-shaped text of the slice's length, and inverts \<open>encode\<close>; so does \<open>hex::decode\<close>.
\<close>

definition hex_laws :: "ext \<Rightarrow> bool" where
  "hex_laws E \<longleftrightarrow>
     (\<forall>bs. length (ext_hex_encode E bs) = 2 * length bs \<and> (\<forall>ch \<in> set (ext_hex_encode E bs). is_lower_hex ch)) \<and>
     (\<forall>s n bs. ext_hex_decode_to_slice E s n = Some bs \<longrightarrow> length bs = n) \<and>
     (\<forall>s n. length s = 2 * n \<and> (\<forall>ch \<in> set s. is_lower_hex ch) \<longrightarrow>
        (\<exists>bs. ext_hex_decode_to_slice E s n = Some bs \<and> ext_hex_encode E bs = s)) \<and>
     (\<forall>bs. ext_hex_decode_to_slice E (ext_hex_encode E bs) (length bs) = Some bs) \<and>
     (\<forall>bs. ext_hex_decode E (ext_hex_encode E bs) = Inr bs)"

text \<open>\<open>BigUint\<close>'s decimal and hexadecimal text conversions are inverse to each other.\<close>

definition biguint_laws :: "ext \<Rightarrow> bool" where
  "biguint_laws E \<longleftrightarrow>
     (\<forall>n. ext_biguint_parse E (ext_biguint_to_string E n) = Some n) \<and>
     (\<forall>n. ext_biguint_parse_bytes16 E (ext_biguint_fmt_064x E n) = Some n)"

text \<open>\<open>{:064x}\<close> of a 256-bit value is 64 lowercase digits, which decode to its big-endian bytes.\<close>

definition fmt_laws :: "ext \<Rightarrow> bool" where
  "fmt_laws E \<longleftrightarrow>
     (\<forall>n < 2 ^ 256. length (ext_biguint_fmt_064x E n) = 64 \<and>
        (\<forall>ch \<in> set (ext_biguint_fmt_064x E n). is_lower_hex ch) \<and>
        (\<exists>bs. ext_hex_decode_to_slice E (ext_biguint_fmt_064x E n) 32 = Some bs \<and>
           foldl (\<lambda>acc b. acc * 256 + unat b) 0 bs = n))"

text \<open>The value of a hex digit string, and that lowercase text decodes to the bytes with its value.\<close>

definition hex_digit :: "char \<Rightarrow> nat option" where
  "hex_digit ch = (let b = of_char ch in
     if 48 \<le> b \<and> b \<le> 57 then Some (b - 48)
     else if 97 \<le> b \<and> b \<le> 102 then Some (b - 87)
     else if 65 \<le> b \<and> b \<le> 70 then Some (b - 55) else None)"

fun hex_value :: "nat \<Rightarrow> string \<Rightarrow> nat option" where
  "hex_value acc [] = Some acc"
| "hex_value acc (ch # s) =
     (case hex_digit ch of None \<Rightarrow> None | Some d \<Rightarrow> hex_value (16 * acc + d) s)"

definition hex_value_laws :: "ext \<Rightarrow> bool" where
  "hex_value_laws E \<longleftrightarrow>
     (\<forall>s n bs. ext_hex_decode_to_slice E s n = Some bs \<longrightarrow> hex_value 0 s = Some (foldl (\<lambda>acc b. acc * 256 + unat b) 0 bs))"

section \<open>A concrete instance\<close>

text \<open>
  Hex and decimal text are the real conversions (\<open>decode\<close> accepts both cases, as the crate does);
  the hash functions are placeholders that return the length and the byte sum of their input, and
  a signature is valid when it is the key followed by the digest.
\<close>

definition ref_nibble :: "nat \<Rightarrow> char" where
  "ref_nibble d = char_of (if d < 10 then 48 + d else 87 + d)"

definition ref_hex_encode :: "u8 list \<Rightarrow> string" where
  "ref_hex_encode bs = concat (map (\<lambda>b. [ref_nibble (unat b div 16), ref_nibble (unat b mod 16)]) bs)"

fun ref_hex_decode :: "string \<Rightarrow> string + u8 list" where
  "ref_hex_decode [] = Inr []"
| "ref_hex_decode [_] = Inl ''Odd number of digits''"
| "ref_hex_decode (a # b # s) =
     (case (hex_digit a, hex_digit b, ref_hex_decode s) of
        (Some x, Some y, Inr bs) \<Rightarrow> Inr (of_nat (16 * x + y) # bs)
      | (_, _, Inl e) \<Rightarrow> Inl e
      | _ \<Rightarrow> Inl ''Invalid character'')"

definition ref_hex_decode_to_slice :: "string \<Rightarrow> nat \<Rightarrow> u8 list option" where
  "ref_hex_decode_to_slice s n =
     (case ref_hex_decode s of Inl _ \<Rightarrow> None | Inr bs \<Rightarrow> if length bs = n then Some bs else None)"

fun nat_to_hex :: "nat \<Rightarrow> string" where
  "nat_to_hex n = (if n < 16 then [ref_nibble n] else nat_to_hex (n div 16) @ [ref_nibble (n mod 16)])"

declare nat_to_hex.simps [simp del]

definition ref_digest :: "u8 list \<Rightarrow> u8 list" where
  "ref_digest bs = replicate 30 0 @ [of_nat (length bs), sum_list bs]"

definition ref_ext :: ext where
  "ref_ext = \<lparr>
     ext_blake3 = ref_digest,
     ext_sha256 = ref_digest,
     ext_hex_encode = ref_hex_encode,
     ext_hex_decode = ref_hex_decode,
     ext_hex_decode_to_slice = ref_hex_decode_to_slice,
     ext_biguint_parse_bytes16 = (\<lambda>s. if s = [] then None else hex_value 0 s),
     ext_biguint_parse = (\<lambda>s. if s = [] then None else
        if (\<forall>ch \<in> set s. is_ascii_digit ch)
        then Some (foldl (\<lambda>a ch. 10 * a + (of_char ch - 48)) 0 s) else None),
     ext_biguint_to_string = nat_to_dec,
     ext_biguint_fmt_064x = (\<lambda>n. replicate (64 - length (nat_to_hex n)) CHR ''0'' @ nat_to_hex n),
     ext_ed25519_point_ok = (\<lambda>_. True),
     ext_ed25519_verify = (\<lambda>pk digest sig. sig = pk @ digest),
     ext_ed25519_verify_strict = (\<lambda>pk digest sig. sig = pk @ digest),
     ext_json_to_vec = (\<lambda>_. []),
     ext_transfer_payload_from_value = (\<lambda>v.
        case (Option.bind (json_get v ''schema'') json_as_str,
              Option.bind (json_get v ''from'') json_as_str,
              Option.bind (json_get v ''to'') json_as_str,
              Option.bind (json_get v ''amount'') json_as_str,
              Option.bind (json_get v ''fee'') json_as_str,
              Option.bind (json_get v ''nonce'') json_as_str,
              Option.bind (json_get v ''validBefore'') json_as_str) of
          (Some a, Some b, Some c, Some d, Some e, Some f, Some g) \<Rightarrow>
            Some \<lparr>tp_schema = a, tp_from = b, tp_to = c, tp_amount = d, tp_fee = e, tp_nonce = f,
                  tp_valid_before = g\<rparr>
        | _ \<Rightarrow> None) \<rparr>"

lemma digest32_ref_ext: "digest32 ref_ext"
  by (simp add: digest32_def ref_ext_def ref_digest_def)

lemma hex_digit_nibble [simp]: "d < 16 \<Longrightarrow> hex_digit (ref_nibble d) = Some d"
  by (simp add: hex_digit_def ref_nibble_def Let_def)

lemma is_lower_hex_nibble: "d < 16 \<Longrightarrow> is_lower_hex (ref_nibble d)"
  by (simp add: is_lower_hex_def ref_nibble_def Let_def)

lemma ref_hex_decode_encode [simp]: "ref_hex_decode (ref_hex_encode bs) = Inr bs"
proof (induction bs)
  case (Cons b bs)
  have "unat b < 256" using unsigned_less [of b] by simp
  then have "unat b div 16 < 16" "unat b mod 16 < 16" by simp_all
  with Cons show ?case by (simp add: ref_hex_encode_def)
qed (simp add: ref_hex_encode_def)

lemma nibble_hex_digit:
  assumes "is_lower_hex ch" shows "\<exists>d. hex_digit ch = Some d \<and> d < 16 \<and> ref_nibble d = ch"
proof -
  let ?b = "of_char ch :: nat"
  have inv: "char_of ?b = ch" by simp
  from assms consider "48 \<le> ?b" "?b \<le> 57" | "97 \<le> ?b" "?b \<le> 102"
    by (auto simp: is_lower_hex_def Let_def)
  then show ?thesis
  proof cases
    case 1
    then have "?b - 48 < 10" by linarith
    with 1 have "hex_digit ch = Some (?b - 48)" "ref_nibble (?b - 48) = ch"
      by (simp_all add: hex_digit_def ref_nibble_def Let_def)
    with 1 show ?thesis by auto
  next
    case 2
    then have "\<not> ?b - 87 < 10" by linarith
    with 2 have "hex_digit ch = Some (?b - 87)" "ref_nibble (?b - 87) = ch"
      by (simp_all add: hex_digit_def ref_nibble_def Let_def)
    with 2 show ?thesis by auto
  qed
qed

lemma ref_hex_decode_shape:
  "length s = 2 * n \<Longrightarrow> (\<forall>ch \<in> set s. is_lower_hex ch) \<Longrightarrow>
     \<exists>bs. ref_hex_decode s = Inr bs \<and> length bs = n \<and> ref_hex_encode bs = s"
proof (induction s arbitrary: n rule: ref_hex_decode.induct)
  case (3 a b s)
  then obtain m where m: "n = Suc m" "length s = 2 * m" by (cases n) auto
  with 3 obtain bs where bs: "ref_hex_decode s = Inr bs" "length bs = m" "ref_hex_encode bs = s"
    by auto
  obtain x y where x: "hex_digit a = Some x" "x < 16" "ref_nibble x = a"
    and y: "hex_digit b = Some y" "y < 16" "ref_nibble y = b"
    using 3 nibble_hex_digit [of a] nibble_hex_digit [of b] by auto
  from x y have "unat (of_nat (16 * x + y) :: u8) = 16 * x + y"
    by (simp add: unat_of_nat del: of_nat_add of_nat_mult)
  moreover have "(16 * x + y) div 16 = x" "(16 * x + y) mod 16 = y" using x y by simp_all
  ultimately have "ref_hex_encode (of_nat (16 * x + y) # bs) = a # b # s"
    using bs(3) x(3) y(3) by (simp add: ref_hex_encode_def del: of_nat_add of_nat_mult)
  then show ?case using bs m x y by simp
qed (auto simp: ref_hex_encode_def)

lemma hex_laws_ref_ext: "hex_laws ref_ext"
proof -
  have "length (ref_hex_encode bs) = 2 * length bs" for bs
    by (induction bs) (auto simp: ref_hex_encode_def)
  moreover have "unat b div 16 < 16" for b :: u8
  proof -
    have "unat b < 256" using unsigned_less [of b] by simp
    then show ?thesis by simp
  qed
  then have "\<forall>ch \<in> set (ref_hex_encode bs). is_lower_hex ch" for bs
    by (auto simp: ref_hex_encode_def is_lower_hex_nibble)
  moreover have "\<exists>bs. ref_hex_decode_to_slice s n = Some bs \<and> ref_hex_encode bs = s"
    if "length s = 2 * n" "\<forall>ch \<in> set s. is_lower_hex ch" for s n
    using ref_hex_decode_shape [OF that] by (auto simp: ref_hex_decode_to_slice_def)
  ultimately show ?thesis
    by (auto simp: hex_laws_def ref_ext_def ref_hex_decode_to_slice_def split: sum.splits if_splits)
qed

lemma hex_value_append: "hex_value a (s @ t) = Option.bind (hex_value a s) (\<lambda>b. hex_value b t)"
  by (induction s arbitrary: a) (auto split: option.splits)

lemma hex_value_nat_to_hex: "hex_value 0 (nat_to_hex n) = Some n"
proof (induction n rule: nat_to_hex.induct)
  case (1 n)
  then show ?case
    by (cases "n < 16") (simp_all add: nat_to_hex.simps [of n] hex_value_append)
qed

lemma hex_value_zeros: "hex_value 0 (replicate k CHR ''0'' @ s) = hex_value 0 s"
  by (induction k) (simp_all add: hex_digit_def)

lemma nat_to_hex_nonempty: "nat_to_hex n \<noteq> []"
  by (simp add: nat_to_hex.simps [of n])

lemma dec_value_nat_to_dec:
  "(\<forall>ch \<in> set (nat_to_dec n). is_ascii_digit ch) \<and>
   foldl (\<lambda>a ch. 10 * a + (of_char ch - 48)) (0::nat) (nat_to_dec n) = n"
proof (induction n rule: nat_to_dec.induct)
  case (1 n)
  have dig: "is_ascii_digit (char_of (48 + d))" if "d < 10" for d :: nat
    using that by (simp add: is_ascii_digit_def)
  from 1 show ?case
    by (cases "n < 10") (auto simp: nat_to_dec.simps [of n] dig)
qed

lemma nat_to_dec_nonempty: "nat_to_dec n \<noteq> []"
  by (simp add: nat_to_dec.simps [of n])

lemma biguint_laws_ref_ext: "biguint_laws ref_ext"
  using dec_value_nat_to_dec
  by (simp add: biguint_laws_def ref_ext_def nat_to_dec_nonempty nat_to_hex_nonempty hex_value_zeros
      hex_value_nat_to_hex)

lemma length_nat_to_hex: "n < 16 ^ Suc k \<Longrightarrow> length (nat_to_hex n) \<le> Suc k"
proof (induction n arbitrary: k rule: nat_to_hex.induct)
  case (1 n)
  show ?case
  proof (cases "n < 16")
    case False
    with 1(2) obtain j where j: "k = Suc j" by (cases k) auto
    with 1(2) have "n div 16 < 16 ^ Suc j" by (simp add: less_mult_imp_div_less mult.commute)
    from 1(1) [OF False this] show ?thesis using False j by (simp add: nat_to_hex.simps [of n])
  qed (simp add: nat_to_hex.simps [of n])
qed

lemma nat_to_hex_lower: "ch \<in> set (nat_to_hex n) \<Longrightarrow> is_lower_hex ch"
proof (induction n rule: nat_to_hex.induct)
  case (1 n)
  then show ?case by (cases "n < 16") (auto simp: nat_to_hex.simps [of n] is_lower_hex_nibble)
qed

lemma hex_value_encode:
  "hex_value a (ref_hex_encode bs) = Some (foldl (\<lambda>acc b. acc * 256 + unat b) a bs)"
proof (induction bs arbitrary: a)
  case (Cons b bs)
  have "unat b < 256" using unsigned_less [of b] by simp
  then have d: "unat b div 16 < 16" "unat b mod 16 < 16" by simp_all
  have "16 * (16 * a + unat b div 16) + unat b mod 16 = a * 256 + unat b" by simp
  with Cons d show ?case by (simp add: ref_hex_encode_def add.commute mult.commute)
qed (simp add: ref_hex_encode_def)

lemma fmt_laws_ref_ext: "fmt_laws ref_ext"
  unfolding fmt_laws_def
proof (intro allI impI)
  fix n :: nat assume n: "n < 2 ^ 256"
  let ?s = "ext_biguint_fmt_064x ref_ext n"
  have s: "?s = replicate (64 - length (nat_to_hex n)) CHR ''0'' @ nat_to_hex n" by (simp add: ref_ext_def)
  have "length (nat_to_hex n) \<le> 64" using length_nat_to_hex [of n 63] n by simp
  then have len: "length ?s = 2 * 32" by (simp add: s)
  have lower: "\<forall>ch \<in> set ?s. is_lower_hex ch"
    using nat_to_hex_lower by (auto simp: s is_lower_hex_def Let_def set_replicate_conv_if split: if_split_asm)
  from ref_hex_decode_shape [OF len lower] obtain bs where
    bs: "ref_hex_decode ?s = Inr bs" "length bs = 32" "ref_hex_encode bs = ?s" by blast
  have "hex_value 0 ?s = Some n" by (simp add: s hex_value_zeros hex_value_nat_to_hex)
  with bs hex_value_encode [of 0 bs] have "foldl (\<lambda>acc b. acc * 256 + unat b) 0 bs = n" by simp
  moreover have "ext_hex_decode_to_slice ref_ext ?s 32 = Some bs"
    using bs by (simp add: ref_ext_def ref_hex_decode_to_slice_def)
  ultimately show "length ?s = 64 \<and> (\<forall>ch \<in> set ?s. is_lower_hex ch) \<and>
      (\<exists>bs. ext_hex_decode_to_slice ref_ext ?s 32 = Some bs \<and> foldl (\<lambda>acc b. acc * 256 + unat b) 0 bs = n)"
    using len lower by auto
qed

lemma hex_value_decode:
  "ref_hex_decode s = Inr bs \<Longrightarrow> hex_value a s = Some (foldl (\<lambda>acc b. acc * 256 + unat b) a bs)"
proof (induction s arbitrary: a bs rule: ref_hex_decode.induct)
  case (3 x y s)
  then obtain d e cs where d: "hex_digit x = Some d" "hex_digit y = Some e" "ref_hex_decode s = Inr cs"
    "bs = of_nat (16 * d + e) # cs" by (auto split: option.splits sum.splits)
  then have "d < 16" "e < 16" by (auto simp: hex_digit_def Let_def split: if_split_asm)
  then have "unat (of_nat (16 * d + e) :: u8) = 16 * d + e"
    by (simp add: unsigned_of_nat take_bit_nat_eq_self del: of_nat_add of_nat_mult)
  with 3(1) [OF d(3)] d show ?case by (simp add: algebra_simps del: of_nat_add of_nat_mult)
qed auto

lemma hex_value_laws_ref_ext: "hex_value_laws ref_ext"
  by (auto simp: hex_value_laws_def ref_ext_def ref_hex_decode_to_slice_def hex_value_decode
      split: sum.splits if_split_asm)

end
