(* ===== verification/Hashing.thy ===== *)
theory Hashing
  imports External
begin

text \<open>
  hash.rs: the 32- and 64-byte hex values, the domain-separated protocol hashes, tickets, target
  seeds, share scores and difficulty weights. A \<open>Hex32\<close> is its byte list; \<open>BigUint\<close> is \<^typ>\<open>nat\<close>.
\<close>

section \<open>Hex values\<close>

datatype hex_error = InvalidShape | DecodeFailed

definition hex32_from_hex :: "ext \<Rightarrow> string \<Rightarrow> hex_error + u8 list" where
  "hex32_from_hex E value =
     (if length value \<noteq> 64 \<or> \<not> list_all is_lower_hex value then Err InvalidShape
      else ok_or (ext_hex_decode_to_slice E value 32) DecodeFailed)"

definition hex32_to_hex :: "ext \<Rightarrow> u8 list \<Rightarrow> string" where
  "hex32_to_hex E bs = ext_hex_encode E bs"

definition hex64_from_hex :: "ext \<Rightarrow> string \<Rightarrow> hex_error + u8 list" where
  "hex64_from_hex E value =
     (if length value \<noteq> 128 \<or> \<not> list_all is_lower_hex value then Err InvalidShape
      else ok_or (ext_hex_decode_to_slice E value 64) DecodeFailed)"

section \<open>Protocol hashes\<close>

definition DOMAIN_TICKET :: "u8 list" where "DOMAIN_TICKET = as_bytes ''ticket''"
definition DOMAIN_SHARE :: "u8 list" where "DOMAIN_SHARE = as_bytes ''share''"
definition DOMAIN_SUBMIT :: "u8 list" where "DOMAIN_SUBMIT = as_bytes ''submit''"
definition DOMAIN_TARGET :: "u8 list" where "DOMAIN_TARGET = as_bytes ''target''"

definition TARGET_SEED_J_INDEX_BOUND :: nat where "TARGET_SEED_J_INDEX_BOUND = 256"

definition h_protocol :: "ext \<Rightarrow> u8 list \<Rightarrow> u8 list list \<Rightarrow> u8 list" where
  "h_protocol E domain parts = ext_blake3 E (domain @ concat parts)"

text \<open>\<open>BigUint::from_bytes_be\<close>\<close>

definition digest_to_biguint :: "u8 list \<Rightarrow> nat" where
  "digest_to_biguint d = foldl (\<lambda>acc b. acc * 256 + unat b) 0 d"

record ticket_result =
  tr_valid :: bool
  tr_hash_bytes :: "u8 list"
  tr_hash_int :: nat

definition ticket :: "ext \<Rightarrow> u8 list \<Rightarrow> u8 list \<Rightarrow> u8 list \<Rightarrow> nat \<Rightarrow> ticket_result" where
  "ticket E c pk n t_ticket =
     (let hash_bytes = h_protocol E DOMAIN_TICKET [c, pk, n];
          hash_int = digest_to_biguint hash_bytes
      in \<lparr>tr_valid = hash_int < t_ticket, tr_hash_bytes = hash_bytes, tr_hash_int = hash_int\<rparr>)"

text \<open>\<open>u32::to_be_bytes\<close>\<close>

definition u32_to_be_bytes :: "u32 \<Rightarrow> u8 list" where
  "u32_to_be_bytes w = [ucast (drop_bit 24 w), ucast (drop_bit 16 w), ucast (drop_bit 8 w), ucast w]"

definition target_seed :: "ext \<Rightarrow> u8 list \<Rightarrow> u8 list \<Rightarrow> u8 list \<Rightarrow> u32 \<Rightarrow> u8 list" where
  "target_seed E c pk n j_index = h_protocol E DOMAIN_TARGET [c, pk, n, u32_to_be_bytes j_index]"

definition find_target_seed_j_index ::
    "ext \<Rightarrow> u8 list \<Rightarrow> u8 list \<Rightarrow> u8 list \<Rightarrow> string \<Rightarrow> nat option" where
  "find_target_seed_j_index E c pk n seed_hex =
     (case hex32_from_hex E seed_hex of
        Inl _ \<Rightarrow> None
      | Inr claimed \<Rightarrow>
          List.find (\<lambda>j_index. target_seed E c pk n (of_nat j_index) = claimed)
            [0..<TARGET_SEED_J_INDEX_BOUND])"

definition share_hash ::
    "ext \<Rightarrow> u8 list \<Rightarrow> u8 list \<Rightarrow> u8 list \<Rightarrow> u8 list \<Rightarrow> u8 list \<Rightarrow> u8 list" where
  "share_hash E c pk n j canon_hash = h_protocol E DOMAIN_SHARE [c, pk, n, j, canon_hash]"

definition submission_pow_hash :: "ext \<Rightarrow> u8 list \<Rightarrow> u8 list \<Rightarrow> u8 list \<Rightarrow> u8 list \<Rightarrow> u8 list" where
  "submission_pow_hash E c pk nonce_s canon_hash =
     h_protocol E DOMAIN_SUBMIT [c, pk, nonce_s, canon_hash]"

definition submission_pow_ok ::
    "ext \<Rightarrow> u8 list \<Rightarrow> u8 list \<Rightarrow> u8 list \<Rightarrow> u8 list \<Rightarrow> nat \<Rightarrow> bool \<times> nat" where
  "submission_pow_ok E c pk nonce_s canon_hash t_submit =
     (let hash_int = digest_to_biguint (submission_pow_hash E c pk nonce_s canon_hash)
      in (hash_int < t_submit, hash_int))"

section \<open>Scores and weights\<close>

datatype weight_error = TMustBePositive

definition share_score :: "u8 list \<Rightarrow> nat" where
  "share_score share_hash_bytes = 2 ^ 256 div (digest_to_biguint share_hash_bytes + 1)"

definition difficulty_weight :: "nat \<Rightarrow> weight_error + nat" where
  "difficulty_weight t = (if t = 0 then Err TMustBePositive else Ok (2 ^ 256 div t))"

definition min_share_score :: "nat \<Rightarrow> u64 \<Rightarrow> weight_error + nat" where
  "min_share_score t_share multiplier_nanos =
     rbind (difficulty_weight t_share) (\<lambda>w. Ok (w * unat multiplier_nanos div 1000000000))"

text \<open>The \<open>0x\<close> prefix is optional in every textual target.\<close>

definition strip_0x :: "string \<Rightarrow> string" where
  "strip_0x value = (if take 2 value = ''0x'' \<or> take 2 value = ''0X'' then drop 2 value else value)"

definition parse_biguint_hex :: "ext \<Rightarrow> string \<Rightarrow> nat option" where
  "parse_biguint_hex E value = ext_biguint_parse_bytes16 E (strip_0x value)"

section \<open>Hex values: lemmas\<close>

lemma hex32_from_hex_length:
  assumes "hex_laws E" and "hex32_from_hex E s = Inr bs" shows "length bs = 32"
  using assms by (auto simp: hex32_from_hex_def hex_laws_def result_simps split: if_splits)

lemma hex32_to_from:
  assumes "hex_laws E" and "hex32_from_hex E s = Inr bs" shows "hex32_to_hex E bs = s"
proof -
  from assms(2) have shape: "length s = 2 * 32" "\<forall>ch \<in> set s. is_lower_hex ch"
    and dec: "ext_hex_decode_to_slice E s 32 = Some bs"
    by (auto simp: hex32_from_hex_def result_simps list_all_iff split: if_splits)
  from assms(1) shape obtain bs' where "ext_hex_decode_to_slice E s 32 = Some bs'"
    and "ext_hex_encode E bs' = s"
    unfolding hex_laws_def by blast
  with dec show ?thesis by (simp add: hex32_to_hex_def)
qed

lemma hex32_from_to:
  assumes "hex_laws E" and "length bs = 32" shows "hex32_from_hex E (hex32_to_hex E bs) = Inr bs"
proof -
  have "length (ext_hex_encode E bs) = 64" "\<forall>ch \<in> set (ext_hex_encode E bs). is_lower_hex ch"
    "ext_hex_decode_to_slice E (ext_hex_encode E bs) 32 = Some bs"
    using assms unfolding hex_laws_def by (simp_all add: assms(2) [symmetric] del: assms(2))
  then show ?thesis by (simp add: hex32_from_hex_def hex32_to_hex_def list_all_iff)
qed

lemma hex64_from_encode:
  assumes "hex_laws E" and "length bs = 64" shows "hex64_from_hex E (ext_hex_encode E bs) = Inr bs"
proof -
  have "length (ext_hex_encode E bs) = 128" "\<forall>ch \<in> set (ext_hex_encode E bs). is_lower_hex ch"
    "ext_hex_decode_to_slice E (ext_hex_encode E bs) 64 = Some bs"
    using assms unfolding hex_laws_def by (simp_all add: assms(2) [symmetric] del: assms(2))
  then show ?thesis by (simp add: hex64_from_hex_def list_all_iff)
qed

section \<open>Big-endian values\<close>

lemma foldl_be: "foldl (\<lambda>acc b. acc * 256 + unat (b::u8)) a bs =
    a * 256 ^ length bs + foldl (\<lambda>acc b. acc * 256 + unat b) 0 bs"
proof (induction bs arbitrary: a)
  case (Cons b bs)
  show ?case
    using Cons [of "a * 256 + unat b"] Cons [of "unat b"] by (simp add: algebra_simps)
qed simp

lemma digest_to_biguint_Nil [simp]: "digest_to_biguint [] = 0"
  by (simp add: digest_to_biguint_def)

lemma digest_to_biguint_Cons:
  "digest_to_biguint (b # bs) = unat b * 256 ^ length bs + digest_to_biguint bs"
  using foldl_be [of "unat b" bs] by (simp add: digest_to_biguint_def)

lemma digest_to_biguint_bound: "digest_to_biguint bs < 256 ^ length bs"
proof (induction bs)
  case (Cons b bs)
  have "unat b < 256" using unsigned_less [of b] by simp
  then have "unat b * 256 ^ length bs \<le> 255 * 256 ^ length bs" by (intro mult_right_mono) simp_all
  with Cons show ?case unfolding digest_to_biguint_Cons length_Cons power_Suc by linarith
qed simp

text \<open>The derived order on \<open>[u8; 32]\<close> is the order of the big-endian values.\<close>

lemma less_iff_digest_less:
  assumes "length xs = length ys"
  shows "xs < ys \<longleftrightarrow> digest_to_biguint xs < digest_to_biguint ys"
  using assms
proof (induction xs ys rule: list_induct2)
  case (Cons x xs y ys)
  let ?B = "256 ^ length ys :: nat"
  have bx: "digest_to_biguint xs < ?B" and by': "digest_to_biguint ys < ?B"
    using digest_to_biguint_bound [of xs] digest_to_biguint_bound [of ys] Cons.hyps by simp_all
  consider "x < y" | "x = y" | "y < x" by (rule linorder_cases)
  then show ?case
  proof cases
    case 1
    then have "(unat x + 1) * ?B \<le> unat y * ?B" by (intro mult_right_mono) (simp_all add: word_less_nat_alt)
    with bx 1 Cons.hyps show ?thesis by (simp add: digest_to_biguint_Cons)
  next
    case 2
    with Cons show ?thesis by (simp add: digest_to_biguint_Cons)
  next
    case 3
    then have "(unat y + 1) * ?B \<le> unat x * ?B" by (intro mult_right_mono) (simp_all add: word_less_nat_alt)
    with by' 3 Cons.hyps show ?thesis by (auto simp: digest_to_biguint_Cons)
  qed
qed simp

lemma fmt_064x_hex32:
  assumes "fmt_laws E" and "n < 2 ^ 256"
  obtains bs where "hex32_from_hex E (ext_biguint_fmt_064x E n) = Inr bs" "digest_to_biguint bs = n"
  using assms unfolding fmt_laws_def
  by (auto simp: hex32_from_hex_def digest_to_biguint_def list_all_iff intro: that)

lemma digest_to_biguint_inj:
  assumes "length xs = length ys" and "digest_to_biguint xs = digest_to_biguint ys"
  shows "xs = ys"
  using assms less_iff_digest_less [of xs ys] less_iff_digest_less [of ys xs] by force

section \<open>Scores\<close>

lemma difficulty_weight_eq_Inr [result_simps]:
  "difficulty_weight t = Inr w \<longleftrightarrow> 0 < t \<and> w = 2 ^ 256 div t"
  by (auto simp: difficulty_weight_def)

lemma difficulty_weight_antimono:
  "difficulty_weight s = Inr v \<Longrightarrow> difficulty_weight t = Inr w \<Longrightarrow> s \<le> t \<Longrightarrow> w \<le> v"
  by (auto simp: result_simps intro: div_le_mono2)

lemma share_score_ge_weight:
  assumes "digest_to_biguint h < t" and "difficulty_weight t = Inr w" shows "w \<le> share_score h"
  using assms by (auto simp: result_simps share_score_def intro!: div_le_mono2)

end
