(* ===== verification/Signed_Envelope.thy ===== *)
theory Signed_Envelope
  imports Hashing
begin

text \<open>
  canonical_json.rs and signed_envelope.rs: canonical JSON bytes, the signing digest with its
  network binding, and Ed25519 verification of \<open>boole.signed.v1\<close> envelopes. The signature scheme
  itself is a field of \<^typ>\<open>ext\<close>.
\<close>

section \<open>Canonical JSON\<close>

text \<open>Object fields are collected into a \<open>BTreeMap\<close>, so they come out sorted by key.\<close>

definition bt_of_list :: "('k::linorder \<times> 'v) list \<Rightarrow> ('k, 'v) btree" where
  "bt_of_list kvs = fold (\<lambda>(k, v). bt_insert k v) kvs []"

fun sort_keys :: "json \<Rightarrow> json" where
  "sort_keys (JObject fs) = JObject (bt_of_list (map (\<lambda>(k, v). (k, sort_keys v)) fs))"
| "sort_keys (JArray items) = JArray (map sort_keys items)"
| "sort_keys v = v"

definition canonicalize :: "ext \<Rightarrow> json \<Rightarrow> u8 list" where
  "canonicalize E value = ext_json_to_vec E (sort_keys value)"

section \<open>Envelopes\<close>

definition SIGNED_ENVELOPE_SCHEMA :: string where
  "SIGNED_ENVELOPE_SCHEMA = ''boole.signed.v1''"

definition DIGEST_NETWORK_TAG :: "u8 list" where
  "DIGEST_NETWORK_TAG = as_bytes ''boole.signed.v1.network::''"

record signed_envelope =
  se_schema :: string
  se_payload :: json
  se_pk :: string
  se_signature :: string
  se_network_id :: "string option"

definition sha256_canonical :: "ext \<Rightarrow> json \<Rightarrow> u8 list" where
  "sha256_canonical E payload = ext_sha256 E (canonicalize E payload)"

definition canonical_payload_hash_hex :: "ext \<Rightarrow> json \<Rightarrow> string" where
  "canonical_payload_hash_hex E payload = ext_hex_encode E (sha256_canonical E payload)"

definition digest_for :: "ext \<Rightarrow> json \<Rightarrow> string option \<Rightarrow> u8 list" where
  "digest_for E payload network_id =
     (case network_id of
        None \<Rightarrow> sha256_canonical E payload
      | Some network \<Rightarrow>
          ext_sha256 E (DIGEST_NETWORK_TAG @ as_bytes network @ [10] @ canonicalize E payload))"

definition signing_digest_hex :: "ext \<Rightarrow> json \<Rightarrow> string option \<Rightarrow> string" where
  "signing_digest_hex E payload network_id = ext_hex_encode E (digest_for E payload network_id)"

text \<open>The verifier's error strings, by cause.\<close>

datatype envelope_error = BadLength string | BadHexField string | BadPoint

definition decode_hex32 :: "ext \<Rightarrow> string \<Rightarrow> string \<Rightarrow> envelope_error + u8 list" where
  "decode_hex32 E input field =
     (if length input \<noteq> 64 then Err (BadLength field)
      else map_err (\<lambda>_. BadHexField field) (hex32_from_hex E input))"

definition decode_hex64 :: "ext \<Rightarrow> string \<Rightarrow> string \<Rightarrow> envelope_error + u8 list" where
  "decode_hex64 E input field =
     (if length input \<noteq> 128 then Err (BadLength field)
      else map_err (\<lambda>_. BadHexField field) (hex64_from_hex E input))"

definition verify_signature_with_network ::
    "ext \<Rightarrow> string \<Rightarrow> string \<Rightarrow> json \<Rightarrow> string option \<Rightarrow> envelope_error + bool" where
  "verify_signature_with_network E pk_hex sig_hex payload network_id =
     rbind (decode_hex32 E pk_hex ''pk'') (\<lambda>pk_bytes.
     rbind (decode_hex64 E sig_hex ''signature'') (\<lambda>sig_bytes.
     rbind (ensure (ext_ed25519_point_ok E pk_bytes) BadPoint) (\<lambda>_.
     Ok (ext_ed25519_verify E pk_bytes (digest_for E payload network_id) sig_bytes))))"

definition envelope_verify :: "ext \<Rightarrow> signed_envelope \<Rightarrow> envelope_error + bool" where
  "envelope_verify E e =
     verify_signature_with_network E (se_pk e) (se_signature e) (se_payload e) (se_network_id e)"

definition verify_signature :: "ext \<Rightarrow> string \<Rightarrow> string \<Rightarrow> json \<Rightarrow> envelope_error + bool" where
  "verify_signature E pk_hex sig_hex payload =
     verify_signature_with_network E pk_hex sig_hex payload None"

definition verify_strict :: "ext \<Rightarrow> signed_envelope \<Rightarrow> envelope_error + bool" where
  "verify_strict E e =
     rbind (decode_hex32 E (se_pk e) ''pk'') (\<lambda>pk_bytes.
     rbind (decode_hex64 E (se_signature e) ''signature'') (\<lambda>sig_bytes.
     rbind (ensure (ext_ed25519_point_ok E pk_bytes) BadPoint) (\<lambda>_.
     Ok (ext_ed25519_verify_strict E pk_bytes (digest_for E (se_payload e) (se_network_id e)) sig_bytes))))"

section \<open>Canonical JSON: lemmas\<close>

lemma bt_wf_bt_of_list [simp]: "bt_wf (bt_of_list kvs)"
  unfolding bt_of_list_def by (rule bt.wf_ins_all) simp

lemma map_of_bt_of_list: "map_of (bt_of_list kvs) = map_of (rev kvs)"
  unfolding bt_of_list_def by (simp add: bt.get_ins_all)

lemma bt_of_list_id:
  assumes "bt_wf m" shows "bt_of_list m = m"
proof -
  have "map_of (rev m) = map_of m"
    using assms map_of_inject_set [of "rev m" m] by (simp add: bt_wf_distinct rev_map [symmetric])
  with assms show ?thesis by (intro bt_ext) (simp_all add: map_of_bt_of_list)
qed

end
