(* ===== verification/Native_Ledger.thy ===== *)
theory Native_Ledger
  imports Signed_Envelope
begin

text \<open>
  native_ledger.rs: accounting of the native coin. One function per method, in the order of the
  file; \<open>Panic\<close> stands for a Rust panic (unsigned underflow or division by zero under
  \<open>overflow-checks\<close>). Monetary values, heights and nonces keep their widths. The invariant
  \<open>ledger_inv\<close> says what \<open>audit\<close> checks: balances add up to the issued amount, which is within the
  supply, and the locked balances are exactly the pending rewards, each within its owner's balance.
\<close>

section \<open>Errors and transfers\<close>

datatype native_ledger_error =
    InvalidSchedule
  | InvalidNetwork
  | InvalidPublicKey
  | UnexpectedHeight u64 u64
  | Overflow
  | InvalidTransfer
  | InvalidSignature
  | WrongNetwork
  | SenderMismatch
  | ZeroAmount
  | FeeBelowMinimum
  | Expired
  | UnexpectedNonce u64 u64
  | InsufficientBalance
  | InconsistentAccounting
  | Panic

definition NATIVE_TRANSFER_SCHEMA :: string where
  "NATIVE_TRANSFER_SCHEMA = ''boole.transfer.v1''"

record native_transfer_fields =
  tf_from :: string
  tf_to :: string
  tf_amount :: u128
  tf_fee :: u128
  tf_nonce :: u64
  tf_valid_before :: u64

definition decimal :: "string \<Rightarrow> native_ledger_error + 'a::len word" where
  "decimal value =
     (if value = [] \<or> (length value > 1 \<and> take 1 value = ''0'') \<or> \<not> list_all is_ascii_digit value
      then Err InvalidTransfer
      else ok_or (parse_word value) InvalidTransfer)"

definition validate_native_transfer ::
    "ext \<Rightarrow> signed_envelope \<Rightarrow> string \<Rightarrow> u128 \<Rightarrow> native_ledger_error + native_transfer_fields" where
  "validate_native_transfer E envelope network_id minimum_fee =
     rbind (ensure (se_schema envelope = SIGNED_ENVELOPE_SCHEMA) InvalidTransfer) (\<lambda>_.
     rbind (ensure (se_network_id envelope = Some network_id) WrongNetwork) (\<lambda>_.
     rbind (ok_or (ext_transfer_payload_from_value E (se_payload envelope)) InvalidTransfer) (\<lambda>payload.
     rbind (ensure (tp_schema payload = NATIVE_TRANSFER_SCHEMA) InvalidTransfer) (\<lambda>_.
     rbind (ensure (tp_from payload = se_pk envelope) SenderMismatch) (\<lambda>_.
     rbind (map_err (\<lambda>_. InvalidPublicKey) (hex32_from_hex E (tp_from payload))) (\<lambda>_.
     rbind (map_err (\<lambda>_. InvalidPublicKey) (hex32_from_hex E (tp_to payload))) (\<lambda>_.
     rbind (map_err (\<lambda>_. InvalidSignature) (verify_strict E envelope)) (\<lambda>verified.
     rbind (ensure verified InvalidSignature) (\<lambda>_.
     rbind (decimal (tp_amount payload)) (\<lambda>amount.
     rbind (decimal (tp_fee payload)) (\<lambda>fee.
     rbind (decimal (tp_nonce payload)) (\<lambda>nonce.
     rbind (decimal (tp_valid_before payload)) (\<lambda>valid_before.
     rbind (ensure (amount \<noteq> 0) ZeroAmount) (\<lambda>_.
     rbind (ensure (\<not> fee < minimum_fee) FeeBelowMinimum) (\<lambda>_.
     Ok \<lparr>tf_from = tp_from payload, tf_to = tp_to payload, tf_amount = amount, tf_fee = fee,
         tf_nonce = nonce, tf_valid_before = valid_before\<rparr>)))))))))))))))"

section \<open>Emission schedule\<close>

record emission_schedule =
  es_total_supply :: u128
  es_initial_reward :: u128
  es_halving_epoch :: u64

definition emission_schedule_new :: "u128 \<Rightarrow> u128 \<Rightarrow> u64 \<Rightarrow> native_ledger_error + emission_schedule" where
  "emission_schedule_new total_supply initial_reward halving_epoch =
     (if total_supply = 0 \<or> initial_reward = 0 \<or> halving_epoch = 0 then Err InvalidSchedule
      else Ok \<lparr>es_total_supply = total_supply, es_initial_reward = initial_reward,
               es_halving_epoch = halving_epoch\<rparr>)"

definition emission :: "emission_schedule \<Rightarrow> u64 \<Rightarrow> u128 \<Rightarrow> native_ledger_error + u128" where
  "emission s height issued =
     rbind (ensure (es_halving_epoch s \<noteq> 0) Panic) (\<lambda>_.
     let epoch = height div es_halving_epoch s;
         reward = (if unat epoch < 128 then drop_bit (unat epoch) (es_initial_reward s) else 0)
     in rbind (ok_or (checked_sub (es_total_supply s) issued) Overflow) (\<lambda>remaining.
        Ok (min reward remaining)))"

section \<open>Ledger state\<close>

record native_ledger =
  nl_network_id :: string
  nl_schedule :: emission_schedule
  nl_height :: u64
  nl_issued :: u128
  nl_balances :: "(string, u128) btree"
  nl_next_nonces :: "(string, u64) btree"
  nl_minimum_fee :: u128
  nl_reward_maturity :: u64
  nl_locked_balances :: "(string, u128) btree"
  nl_pending_rewards :: "(u64, string \<times> u128) btree"

record native_ledger_audit =
  na_issued :: u128
  na_supply_cap :: u128
  na_total_balance :: u128
  na_total_locked :: u128
  na_total_spendable :: u128
  na_balance_entries :: nat
  na_nonce_entries :: nat
  na_pending_reward_entries :: nat

record native_ledger_undo =
  nu_height :: u64
  nu_issued :: u128
  nu_balances :: "(string, u128 option) btree"
  nu_next_nonces :: "(string, u64 option) btree"
  nu_locked_balances :: "(string, u128 option) btree"
  nu_pending_rewards :: "(u64, (string \<times> u128) option) btree"

definition undo_new :: "native_ledger \<Rightarrow> native_ledger_undo" where
  "undo_new l = \<lparr>nu_height = nl_height l, nu_issued = nl_issued l, nu_balances = [],
     nu_next_nonces = [], nu_locked_balances = [], nu_pending_rewards = []\<rparr>"

definition undo_balance :: "native_ledger \<Rightarrow> string \<Rightarrow> native_ledger_undo \<Rightarrow> native_ledger_undo" where
  "undo_balance l pk u = u\<lparr>nu_balances := bt_or_insert pk (map_of (nl_balances l) pk) (nu_balances u)\<rparr>"

definition undo_locked_balance :: "native_ledger \<Rightarrow> string \<Rightarrow> native_ledger_undo \<Rightarrow> native_ledger_undo" where
  "undo_locked_balance l pk u =
     u\<lparr>nu_locked_balances := bt_or_insert pk (map_of (nl_locked_balances l) pk) (nu_locked_balances u)\<rparr>"

definition restore_entries :: "('k::linorder, 'v) btree \<Rightarrow> ('k, 'v option) btree \<Rightarrow> ('k, 'v) btree" where
  "restore_entries m old =
     fold (\<lambda>(key, value). case value of None \<Rightarrow> bt_remove key | Some v \<Rightarrow> bt_insert key v) old m"

definition new_with_rules ::
    "string \<Rightarrow> emission_schedule \<Rightarrow> u128 \<Rightarrow> u64 \<Rightarrow> native_ledger_error + native_ledger" where
  "new_with_rules network_id schedule minimum_fee reward_maturity =
     (if network_id = [] \<or> length network_id > 128 \<or>
         \<not> list_all (\<lambda>ch. let b = (of_char ch :: nat) in
             (48 \<le> b \<and> b \<le> 57) \<or> (65 \<le> b \<and> b \<le> 90) \<or> (97 \<le> b \<and> b \<le> 122) \<or>
             ch = CHR ''-'' \<or> ch = CHR ''_'' \<or> ch = CHR ''.'') network_id
      then Err InvalidNetwork
      else Ok \<lparr>nl_network_id = network_id, nl_schedule = schedule, nl_height = 0, nl_issued = 0,
               nl_balances = [], nl_next_nonces = [], nl_minimum_fee = minimum_fee,
               nl_reward_maturity = reward_maturity, nl_locked_balances = [], nl_pending_rewards = []\<rparr>)"

definition ledger_new :: "string \<Rightarrow> emission_schedule \<Rightarrow> native_ledger_error + native_ledger" where
  "ledger_new network_id schedule = new_with_rules network_id schedule 0 0"

definition balance :: "native_ledger \<Rightarrow> string \<Rightarrow> u128" where
  "balance l pk = bt_get_or 0 (nl_balances l) pk"

definition locked_balance :: "native_ledger \<Rightarrow> string \<Rightarrow> u128" where
  "locked_balance l pk = bt_get_or 0 (nl_locked_balances l) pk"

definition spendable_balance :: "native_ledger \<Rightarrow> string \<Rightarrow> native_ledger_error + u128" where
  "spendable_balance l pk = ok_or (checked_sub (balance l pk) (locked_balance l pk)) Panic"

definition next_nonce :: "native_ledger \<Rightarrow> string \<Rightarrow> u64" where
  "next_nonce l pk = bt_get_or 0 (nl_next_nonces l) pk"

section \<open>Transfers\<close>

record prepared_transfer =
  pt_balances :: "(string, u128) btree"
  pt_sender :: string
  pt_next_nonce :: u64

definition stage_credit ::
    "native_ledger \<Rightarrow> (string, u128) btree \<Rightarrow> string \<Rightarrow> u128 \<Rightarrow> native_ledger_error + (string, u128) btree" where
  "stage_credit l balances pk amount =
     (if amount \<noteq> 0
      then rbind (ok_or (checked_add (bt_get_or (balance l pk) balances pk) amount) Overflow)
             (\<lambda>b. Ok (bt_insert pk b balances))
      else Ok balances)"

definition prepare_fields ::
    "native_ledger \<Rightarrow> u64 \<Rightarrow> string option \<Rightarrow> native_transfer_fields \<Rightarrow> native_ledger_error + prepared_transfer" where
  "prepare_fields l height reward_pk payload =
     rbind (ensure (\<not> height > tf_valid_before payload) Expired) (\<lambda>_.
     let expected = next_nonce l (tf_from payload) in
     rbind (ensure (tf_nonce payload = expected) (UnexpectedNonce expected (tf_nonce payload))) (\<lambda>_.
     rbind (ok_or (checked_add (tf_amount payload) (tf_fee payload)) Overflow) (\<lambda>debit.
     rbind (spendable_balance l (tf_from payload)) (\<lambda>spendable.
     rbind (ensure (\<not> debit > spendable) InsufficientBalance) (\<lambda>_.
     rbind (ok_or (checked_sub (balance l (tf_from payload)) debit) InsufficientBalance) (\<lambda>remaining.
     rbind (ok_or (checked_add (tf_nonce payload) 1) Overflow) (\<lambda>next.
     rbind (stage_credit l (bt_insert (tf_from payload) remaining []) (tf_to payload) (tf_amount payload)) (\<lambda>b1.
     rbind (case reward_pk of None \<Rightarrow> Ok b1 | Some pk \<Rightarrow> stage_credit l b1 pk (tf_fee payload)) (\<lambda>b2.
     Ok \<lparr>pt_balances = b2, pt_sender = tf_from payload, pt_next_nonce = next\<rparr>)))))))))"

definition prepare_transfer ::
    "ext \<Rightarrow> native_ledger \<Rightarrow> u64 \<Rightarrow> string option \<Rightarrow> signed_envelope \<Rightarrow> native_ledger_error + prepared_transfer" where
  "prepare_transfer E l height reward_pk envelope =
     rbind (validate_native_transfer E envelope (nl_network_id l) (nl_minimum_fee l)) (\<lambda>payload.
     prepare_fields l height reward_pk payload)"

definition commit_transfer :: "native_ledger \<Rightarrow> prepared_transfer \<Rightarrow> native_ledger" where
  "commit_transfer l p =
     l\<lparr>nl_balances := fold (\<lambda>(pk, b). bt_insert pk b) (pt_balances p) (nl_balances l),
       nl_next_nonces := bt_insert (pt_sender p) (pt_next_nonce p) (nl_next_nonces l)\<rparr>"

definition credit :: "native_ledger \<Rightarrow> string \<Rightarrow> u128 \<Rightarrow> native_ledger_error + native_ledger" where
  "credit l pk amount =
     (if amount \<noteq> 0
      then rbind (ok_or (checked_add (balance l pk) amount) Overflow)
             (\<lambda>b. Ok (l\<lparr>nl_balances := bt_insert pk b (nl_balances l)\<rparr>))
      else Ok l)"

section \<open>Blocks\<close>

fun unlock_loop ::
    "u64 \<Rightarrow> (u64, string \<times> u128) btree \<Rightarrow> (string, u128) btree \<Rightarrow>
     native_ledger_error + (u64, string \<times> u128) btree \<times> (string, u128) btree" where
  "unlock_loop height [] locked = Ok ([], locked)"
| "unlock_loop height ((unlock_height, (pk, amount)) # pending) locked =
     (if unlock_height \<le> height
      then rbind (ok_or (checked_sub (bt_get_or 0 locked pk) amount) Overflow) (\<lambda>remaining.
           unlock_loop height pending
             (if remaining = 0 then bt_remove pk locked else bt_insert pk remaining locked))
      else Ok ((unlock_height, (pk, amount)) # pending, locked))"

definition unlock_rewards :: "native_ledger \<Rightarrow> u64 \<Rightarrow> native_ledger_error + native_ledger" where
  "unlock_rewards l height =
     rbind (unlock_loop height (nl_pending_rewards l) (nl_locked_balances l)) (\<lambda>(pending, locked).
     Ok (l\<lparr>nl_pending_rewards := pending, nl_locked_balances := locked\<rparr>))"

text \<open>The entries a block is about to unlock are recorded before they change.\<close>

definition record_unlocks :: "native_ledger \<Rightarrow> u64 \<Rightarrow> native_ledger_undo \<Rightarrow> native_ledger_undo" where
  "record_unlocks l height u =
     fold (\<lambda>(unlock_height, pk, amount) u.
        (undo_locked_balance l pk u)\<lparr>nu_pending_rewards :=
           bt_insert unlock_height (Some (pk, amount)) (nu_pending_rewards (undo_locked_balance l pk u))\<rparr>)
      (filter (\<lambda>(unlock_height, _). unlock_height \<le> height) (nl_pending_rewards l)) u"

definition block_transfer_step ::
    "ext \<Rightarrow> u64 \<Rightarrow> string \<Rightarrow> native_ledger \<times> native_ledger_undo \<Rightarrow> signed_envelope \<Rightarrow>
     native_ledger_error + native_ledger \<times> native_ledger_undo" where
  "block_transfer_step E height reward_pk = (\<lambda>(l, u) transfer.
     rbind (prepare_transfer E l height (Some reward_pk) transfer) (\<lambda>prepared.
     let u1 = fold (\<lambda>pk u. undo_balance l pk u) (map fst (pt_balances prepared)) u;
         u2 = u1\<lparr>nu_next_nonces :=
            bt_or_insert (pt_sender prepared) (map_of (nl_next_nonces l) (pt_sender prepared)) (nu_next_nonces u1)\<rparr>
     in Ok (commit_transfer l prepared, u2)))"

definition lock_emission ::
    "u64 \<Rightarrow> string \<Rightarrow> u128 \<Rightarrow> native_ledger \<times> native_ledger_undo \<Rightarrow>
     native_ledger_error + native_ledger \<times> native_ledger_undo" where
  "lock_emission height reward_pk amount = (\<lambda>(l, u).
     if amount \<noteq> 0 \<and> nl_reward_maturity l \<noteq> 0
     then rbind (ok_or (checked_add height (nl_reward_maturity l)) Overflow) (\<lambda>unlock_height.
          rbind (ok_or (checked_add (locked_balance l reward_pk) amount) Overflow) (\<lambda>locked.
          let u1 = undo_locked_balance l reward_pk u;
              u2 = u1\<lparr>nu_pending_rewards := bt_or_insert unlock_height
                      (map_of (nl_pending_rewards l) unlock_height) (nu_pending_rewards u1)\<rparr>
          in Ok (l\<lparr>nl_locked_balances := bt_insert reward_pk locked (nl_locked_balances l),
                   nl_pending_rewards := bt_insert unlock_height (reward_pk, amount) (nl_pending_rewards l)\<rparr>,
                 u2)))
     else Ok (l, u))"

definition settle_emission ::
    "u64 \<Rightarrow> string \<Rightarrow> native_ledger \<times> native_ledger_undo \<Rightarrow>
     native_ledger_error + native_ledger \<times> native_ledger_undo" where
  "settle_emission height reward_pk = (\<lambda>(l, u).
     rbind (emission (nl_schedule l) height (nl_issued l)) (\<lambda>amount.
     let u1 = (if amount \<noteq> 0 then undo_balance l reward_pk u else u) in
     rbind (credit l reward_pk amount) (\<lambda>l1.
     rbind (lock_emission height reward_pk amount (l1, u1)) (\<lambda>(l2, u2).
     rbind (ok_or (checked_add (nl_issued l2) amount) Overflow) (\<lambda>issued.
     Ok (l2\<lparr>nl_issued := issued, nl_height := height\<rparr>, u2))))))"

definition apply_block_inner ::
    "ext \<Rightarrow> native_ledger \<Rightarrow> u64 \<Rightarrow> string \<Rightarrow> signed_envelope list \<Rightarrow> native_ledger_undo \<Rightarrow>
     native_ledger_error + native_ledger \<times> native_ledger_undo" where
  "apply_block_inner E l height reward_pk transfers undo =
     rbind (ok_or (checked_add (nl_height l) 1) Overflow) (\<lambda>expected.
     rbind (ensure (height = expected) (UnexpectedHeight expected height)) (\<lambda>_.
     rbind (map_err (\<lambda>_. InvalidPublicKey) (hex32_from_hex E reward_pk)) (\<lambda>_.
     let u0 = record_unlocks l height undo in
     rbind (unlock_rewards l height) (\<lambda>l0.
     rbind (try_fold (block_transfer_step E height reward_pk) (l0, u0) transfers)
       (settle_emission height reward_pk)))))"

definition prepare_block ::
    "ext \<Rightarrow> native_ledger \<Rightarrow> u64 \<Rightarrow> string \<Rightarrow> signed_envelope list \<Rightarrow>
     native_ledger_error + native_ledger \<times> native_ledger_undo" where
  "prepare_block E l height reward_pk transfers =
     apply_block_inner E l height reward_pk transfers (undo_new l)"

text \<open>\<open>apply_block\<close> replaces the ledger only when the whole block was accepted.\<close>

definition apply_block ::
    "ext \<Rightarrow> native_ledger \<Rightarrow> u64 \<Rightarrow> string \<Rightarrow> signed_envelope list \<Rightarrow>
     (native_ledger_error + unit) \<times> native_ledger" where
  "apply_block E l height reward_pk transfers =
     (case prepare_block E l height reward_pk transfers of
        Inl e \<Rightarrow> (Err e, l)
      | Inr (staged, _) \<Rightarrow> (Ok (), staged))"

definition undo_block :: "native_ledger \<Rightarrow> native_ledger_undo \<Rightarrow> native_ledger_error + native_ledger" where
  "undo_block l undo =
     rbind (ok_or (checked_add (nu_height undo) 1) Overflow) (\<lambda>expected.
     rbind (ensure (nl_height l = expected) (UnexpectedHeight expected (nl_height l))) (\<lambda>_.
     Ok (l\<lparr>nl_balances := restore_entries (nl_balances l) (nu_balances undo),
           nl_next_nonces := restore_entries (nl_next_nonces l) (nu_next_nonces undo),
           nl_locked_balances := restore_entries (nl_locked_balances l) (nu_locked_balances undo),
           nl_pending_rewards := restore_entries (nl_pending_rewards l) (nu_pending_rewards undo),
           nl_height := nu_height undo,
           nl_issued := nu_issued undo\<rparr>)))"

section \<open>Audit\<close>

definition expected_locks :: "native_ledger \<Rightarrow> native_ledger_error + (string, u128) btree" where
  "expected_locks l = try_fold (\<lambda>locks (unlock_height, pk, amount).
     rbind (ensure (\<not> (unlock_height \<le> nl_height l \<or> amount = 0 \<or>
              \<not> (case checked_sub unlock_height (nl_reward_maturity l) of
                   None \<Rightarrow> False
                 | Some created \<Rightarrow> created > 0 \<and> created \<le> nl_height l))) InconsistentAccounting) (\<lambda>_.
     rbind (ok_or (checked_add (bt_get_or 0 locks pk) amount) Overflow) (\<lambda>expected.
     Ok (bt_insert pk expected locks)))) [] (nl_pending_rewards l)"

definition audit :: "native_ledger \<Rightarrow> native_ledger_error + native_ledger_audit" where
  "audit l =
     rbind (try_fold (\<lambda>sum (_, b). ok_or (checked_add sum b) Overflow) 0 (nl_balances l)) (\<lambda>total_balance.
     rbind (ensure (\<not> (total_balance \<noteq> nl_issued l \<or> nl_issued l > es_total_supply (nl_schedule l)))
             InconsistentAccounting) (\<lambda>_.
     rbind (expected_locks l) (\<lambda>locks.
     rbind (ensure (nl_locked_balances l = locks) InconsistentAccounting) (\<lambda>_.
     rbind (try_fold (\<lambda>sum (pk, locked).
              if locked = 0 \<or> locked > balance l pk then Err InconsistentAccounting
              else ok_or (checked_add sum locked) Overflow) 0 (nl_locked_balances l)) (\<lambda>total_locked.
     rbind (ok_or (checked_sub total_balance total_locked) InconsistentAccounting) (\<lambda>total_spendable.
     Ok \<lparr>na_issued = nl_issued l, na_supply_cap = es_total_supply (nl_schedule l),
         na_total_balance = total_balance, na_total_locked = total_locked,
         na_total_spendable = total_spendable, na_balance_entries = length (nl_balances l),
         na_nonce_entries = length (nl_next_nonces l),
         na_pending_reward_entries = length (nl_pending_rewards l)\<rparr>))))))"

section \<open>Pending view\<close>

record native_pending_view =
  pv_ledger :: native_ledger
  pv_height :: u64

definition pending_view :: "native_ledger \<Rightarrow> native_ledger_error + native_pending_view" where
  "pending_view l =
     rbind (ok_or (checked_add (nl_height l) 1) Overflow) (\<lambda>height.
     rbind (unlock_rewards l height) (\<lambda>ledger.
     Ok \<lparr>pv_ledger = ledger, pv_height = height\<rparr>))"

definition pending_prepare ::
    "ext \<Rightarrow> native_pending_view \<Rightarrow> signed_envelope \<Rightarrow> native_ledger_error + prepared_transfer" where
  "pending_prepare E view envelope = prepare_transfer E (pv_ledger view) (pv_height view) None envelope"

definition pending_commit :: "native_pending_view \<Rightarrow> prepared_transfer \<Rightarrow> native_pending_view" where
  "pending_commit view prepared = view\<lparr>pv_ledger := commit_transfer (pv_ledger view) prepared\<rparr>"

definition pending_push ::
    "ext \<Rightarrow> native_pending_view \<Rightarrow> signed_envelope \<Rightarrow> native_ledger_error + native_pending_view" where
  "pending_push E view envelope =
     rbind (pending_prepare E view envelope) (\<lambda>prepared. Ok (pending_commit view prepared))"

definition available_balance :: "native_pending_view \<Rightarrow> string \<Rightarrow> native_ledger_error + u128" where
  "available_balance view pk = spendable_balance (pv_ledger view) pk"

end
