(* ===== verification/Ledger_Invariant.thy ===== *)
theory Ledger_Invariant
  imports Native_Ledger
begin

text \<open>
  The accounting invariant of the native ledger and that every step of a block keeps it:
  unlocking matured rewards, each transfer, and the emission that closes the block.
\<close>

section \<open>The invariant\<close>

definition pending_total :: "(u64, string \<times> u128) btree \<Rightarrow> string \<Rightarrow> nat" where
  "pending_total pending pk = sum_list (map (\<lambda>(_, owner, amount). if owner = pk then unat amount else 0) pending)"

definition ledger_wf :: "native_ledger \<Rightarrow> bool" where
  "ledger_wf l \<longleftrightarrow> bt_wf (nl_balances l) \<and> bt_wf (nl_next_nonces l) \<and>
     bt_wf (nl_locked_balances l) \<and> bt_wf (nl_pending_rewards l)"

definition locks_match :: "(u64, string \<times> u128) btree \<Rightarrow> (string, u128) btree \<Rightarrow> bool" where
  "locks_match pending locked \<longleftrightarrow>
     (\<forall>pk. unat (bt_get_or 0 locked pk) = pending_total pending pk) \<and> (\<forall>pk. map_of locked pk \<noteq> Some 0)"

text \<open>The part that holds at every point inside a block.\<close>

definition accounts_ok :: "native_ledger \<Rightarrow> bool" where
  "accounts_ok l \<longleftrightarrow>
     ledger_wf l \<and>
     bt_sum (nl_balances l) = unat (nl_issued l) \<and>
     nl_issued l \<le> es_total_supply (nl_schedule l) \<and>
     locks_match (nl_pending_rewards l) (nl_locked_balances l) \<and>
     (\<forall>pk. locked_balance l pk \<le> balance l pk)"

text \<open>Every pending reward unlocks after \<open>now\<close> and was created at a height from 1 to \<open>created_by\<close>.\<close>

definition pending_window :: "u64 \<Rightarrow> u64 \<Rightarrow> native_ledger \<Rightarrow> bool" where
  "pending_window now created_by l \<longleftrightarrow>
     (\<forall>(unlock_height, _, amount) \<in> set (nl_pending_rewards l).
        now < unlock_height \<and> amount \<noteq> 0 \<and>
        unat (nl_reward_maturity l) < unat unlock_height \<and>
        unat unlock_height \<le> unat (nl_reward_maturity l) + unat created_by)"

definition ledger_inv :: "native_ledger \<Rightarrow> bool" where
  "ledger_inv l \<longleftrightarrow> accounts_ok l \<and> pending_window (nl_height l) (nl_height l) l"

section \<open>Sums of pending rewards\<close>

lemma pending_total_Nil [simp]: "pending_total [] pk = 0"
  by (simp add: pending_total_def)

lemma pending_total_Cons [simp]:
  "pending_total ((u, owner, amount) # pending) pk = (if owner = pk then unat amount else 0) + pending_total pending pk"
  by (simp add: pending_total_def)

lemma pending_total_insert_new:
  assumes "map_of pending u = None"
  shows "pending_total (bt_insert u (owner, amount) pending) pk =
    (if owner = pk then unat amount else 0) + pending_total pending pk"
  using assms by (induction u "(owner, amount)" pending rule: bt_insert.induct) (auto split: if_splits)

section \<open>Unlocking\<close>

lemma locks_match_unlock:
  assumes "bt_wf locked" and "locks_match ((u, pk, amount) # pending) locked"
    and "checked_sub (bt_get_or 0 locked pk) amount = Some remaining"
  shows "locks_match pending (if remaining = 0 then bt_remove pk locked else bt_insert pk remaining locked)"
proof -
  have r: "unat remaining = pending_total pending pk"
    using assms by (auto simp: locks_match_def checked_simps)
  show ?thesis
    using assms(2) r by (auto simp: locks_match_def bt_get_or_def split: if_splits option.splits)
qed

lemma unlock_loop_ok:
  assumes "bt_wf pending" and "bt_wf locked" and "locks_match pending locked"
  shows "\<exists>locked'. unlock_loop height pending locked =
      Inr (filter (\<lambda>(u, _). height < u) pending, locked') \<and> bt_wf locked' \<and>
      locks_match (filter (\<lambda>(u, _). height < u) pending) locked' \<and>
      (\<forall>pk. bt_get_or 0 locked' pk \<le> bt_get_or 0 locked pk)"
  using assms
proof (induction height pending locked rule: unlock_loop.induct)
  case (1 height locked)
  then show ?case by simp
next
  case (2 height u pk amount pending locked)
  show ?case
  proof (cases "u \<le> height")
    case True
    from "2.prems"(3) have le: "unat amount \<le> unat (bt_get_or 0 locked pk)"
      by (auto simp: locks_match_def)
    then obtain remaining where rem: "checked_sub (bt_get_or 0 locked pk) amount = Some remaining"
      by (cases "checked_sub (bt_get_or 0 locked pk) amount") (auto simp: checked_simps)
    let ?locked = "if remaining = 0 then bt_remove pk locked else bt_insert pk remaining locked"
    have "bt_wf pending" using "2.prems"(1) by (simp add: bt_wf_Cons)
    moreover have "bt_wf ?locked" using "2.prems"(2) by simp
    moreover have "locks_match pending ?locked"
      using locks_match_unlock [OF "2.prems"(2,3) rem] .
    ultimately obtain locked' where *: "unlock_loop height pending ?locked =
        Inr (filter (\<lambda>(u, _). height < u) pending, locked')" "bt_wf locked'"
        "locks_match (filter (\<lambda>(u, _). height < u) pending) locked'"
        "\<forall>pk. bt_get_or 0 locked' pk \<le> bt_get_or 0 ?locked pk"
      using "2.IH" [OF True, of remaining] by blast
    have "bt_get_or 0 ?locked q \<le> bt_get_or 0 locked q" for q
      using rem by (auto simp: checked_simps word_le_nat_alt)
    with * have "\<forall>q. bt_get_or 0 locked' q \<le> bt_get_or 0 locked q" by (meson order_trans)
    with * True rem show ?thesis by (simp add: not_less)
  next
    case False
    have "filter (\<lambda>(u, _). height < u) ((u, pk, amount) # pending) = (u, pk, amount) # pending"
      using "2.prems"(1) False by (force simp: bt_wf_Cons intro!: filter_True)
    with False "2.prems" show ?thesis by simp
  qed
qed

lemma unlock_rewards_ok:
  assumes "accounts_ok l" and "pending_window now created_by l"
  shows "\<exists>l'. unlock_rewards l height = Inr l' \<and> accounts_ok l' \<and> pending_window height created_by l' \<and>
    nl_pending_rewards l' = filter (\<lambda>(u, _). height < u) (nl_pending_rewards l) \<and>
    l' = l\<lparr>nl_pending_rewards := nl_pending_rewards l', nl_locked_balances := nl_locked_balances l'\<rparr>"
proof -
  from assms(1) have wf: "bt_wf (nl_pending_rewards l)" "bt_wf (nl_locked_balances l)"
    and lm: "locks_match (nl_pending_rewards l) (nl_locked_balances l)"
    by (auto simp: accounts_ok_def ledger_wf_def)
  from unlock_loop_ok [OF wf lm] obtain locked' where
    u: "unlock_loop height (nl_pending_rewards l) (nl_locked_balances l) =
        Inr (filter (\<lambda>(u, _). height < u) (nl_pending_rewards l), locked')" "bt_wf locked'"
       "locks_match (filter (\<lambda>(u, _). height < u) (nl_pending_rewards l)) locked'"
       "\<forall>pk. bt_get_or 0 locked' pk \<le> bt_get_or 0 (nl_locked_balances l) pk"
    by blast
  let ?l = "l\<lparr>nl_pending_rewards := filter (\<lambda>(u, _). height < u) (nl_pending_rewards l),
              nl_locked_balances := locked'\<rparr>"
  have "unlock_rewards l height = Inr ?l" by (simp add: unlock_rewards_def u(1))
  moreover have "accounts_ok ?l"
    using assms(1) u by (auto simp: accounts_ok_def ledger_wf_def bt_wf_filter balance_def locked_balance_def
        intro: order_trans)
  moreover have "pending_window height created_by ?l"
    using assms(2) by (auto simp: pending_window_def)
  ultimately show ?thesis by auto
qed

section \<open>Transfers\<close>

text \<open>Writing staged balances into the ledger's map, one credit at a time.\<close>

abbreviation merged :: "(string, u128) btree \<Rightarrow> (string, u128) btree \<Rightarrow> (string, u128) btree" where
  "merged m staged \<equiv> fold (\<lambda>(pk, b). bt_insert pk b) staged m"

lemma merged_get:
  assumes "bt_wf m" and "bt_wf staged"
  shows "map_of (merged m staged) = map_of m ++ map_of staged"
proof -
  have "map_of (rev staged) = map_of staged"
    using assms(2) map_of_inject_set [of "rev staged" staged]
    by (simp add: bt_wf_distinct rev_map [symmetric])
  with assms(1) show ?thesis by (simp add: bt.get_ins_all)
qed

lemma merged_insert:
  assumes "bt_wf m" and "bt_wf staged"
  shows "merged m (bt_insert pk v staged) = bt_insert pk v (merged m staged)"
  using assms by (intro bt_ext) (simp_all add: bt.wf_ins_all merged_get)

lemma merged_get_or:
  assumes "bt_wf m" and "bt_wf staged"
  shows "bt_get_or 0 (merged m staged) pk = bt_get_or (bt_get_or 0 m pk) staged pk"
  using assms by (auto simp: bt_get_or_def merged_get map_add_def split: option.split)

lemma stage_credit_effect:
  assumes "stage_credit l staged pk amount = Inr staged'"
    and "bt_wf staged" and "bt_wf (nl_balances l)"
  shows "bt_wf staged'"
    and "bt_sum (merged (nl_balances l) staged') = bt_sum (merged (nl_balances l) staged) + unat amount"
    and "\<And>k. unat (bt_get_or 0 (merged (nl_balances l) staged') k) =
          unat (bt_get_or 0 (merged (nl_balances l) staged) k) + (if k = pk then unat amount else 0)"
proof -
  let ?M = "merged (nl_balances l) staged"
  have "bt_wf staged' \<and> bt_sum (merged (nl_balances l) staged') = bt_sum ?M + unat amount \<and>
      (\<forall>k. unat (bt_get_or 0 (merged (nl_balances l) staged') k) =
          unat (bt_get_or 0 ?M k) + (if k = pk then unat amount else 0))"
  proof (cases "amount = 0")
    case True
    with assms(1) have "staged' = staged" by (simp add: stage_credit_def)
    with True assms(2) show ?thesis by simp
  next
    case False
    with assms obtain b where b: "staged' = bt_insert pk b staged"
      and bv: "unat b = unat (bt_get_or 0 ?M pk) + unat amount"
      by (auto simp: stage_credit_def result_simps checked_simps merged_get_or balance_def)
    have "bt_wf ?M" using assms(3) by (rule bt.wf_ins_all)
    from bt_sum_insert [OF this, of pk b] b bv assms(2,3) show ?thesis
      by (simp add: merged_insert)
  qed
  then show "bt_wf staged'"
    and "bt_sum (merged (nl_balances l) staged') = bt_sum ?M + unat amount"
    and "\<And>k. unat (bt_get_or 0 (merged (nl_balances l) staged') k) =
          unat (bt_get_or 0 ?M k) + (if k = pk then unat amount else 0)"
    by blast+
qed

text \<open>What an accepted transfer did to the balances and nonces.\<close>

definition fee_to :: "string option \<Rightarrow> native_transfer_fields \<Rightarrow> string \<Rightarrow> nat" where
  "fee_to reward_pk p k = (if reward_pk = Some k then unat (tf_fee p) else 0)"

lemma prepare_fields_eq_Inr:
  "prepare_fields l height reward_pk p = Inr q \<longleftrightarrow>
     height \<le> tf_valid_before p \<and> tf_nonce p = next_nonce l (tf_from p) \<and>
     (\<exists>debit spendable remaining nonce' b1 b2.
        checked_add (tf_amount p) (tf_fee p) = Some debit \<and>
        checked_sub (balance l (tf_from p)) (locked_balance l (tf_from p)) = Some spendable \<and>
        debit \<le> spendable \<and>
        checked_sub (balance l (tf_from p)) debit = Some remaining \<and>
        checked_add (tf_nonce p) 1 = Some nonce' \<and>
        stage_credit l (bt_insert (tf_from p) remaining []) (tf_to p) (tf_amount p) = Inr b1 \<and>
        (case reward_pk of None \<Rightarrow> Ok b1 | Some pk \<Rightarrow> stage_credit l b1 pk (tf_fee p)) = Inr b2 \<and>
        q = \<lparr>pt_balances = b2, pt_sender = tf_from p, pt_next_nonce = nonce'\<rparr>)"
  unfolding prepare_fields_def Let_def spendable_balance_def by (auto simp: result_simps not_less)

lemma prepare_fields_effect:
  assumes ok: "prepare_fields l height reward_pk p = Inr q" and wf: "ledger_wf l"
  defines "l' \<equiv> commit_transfer l q"
  shows "unat (balance l' k) + (if k = tf_from p then unat (tf_amount p) + unat (tf_fee p) else 0) =
         unat (balance l k) + (if k = tf_to p then unat (tf_amount p) else 0) + fee_to reward_pk p k"
    and "bt_sum (nl_balances l') + unat (tf_fee p) =
         bt_sum (nl_balances l) + (if reward_pk = None then 0 else unat (tf_fee p))"
    and "ledger_wf l'"
    and "unat (tf_amount p) + unat (tf_fee p) + unat (locked_balance l (tf_from p)) \<le> unat (balance l (tf_from p))"
    and "tf_nonce p = next_nonce l (tf_from p)"
    and "unat (next_nonce l' (tf_from p)) = unat (next_nonce l (tf_from p)) + 1"
    and "k \<noteq> tf_from p \<Longrightarrow> next_nonce l' k = next_nonce l k"
    and "height \<le> tf_valid_before p"
proof -
  let ?m = "nl_balances l" and ?from = "tf_from p"
  from ok obtain debit spendable remaining nonce' b1 b2 where
    valid: "height \<le> tf_valid_before p" and nonce: "tf_nonce p = next_nonce l ?from" and
    c: "checked_add (tf_amount p) (tf_fee p) = Some debit"
      "checked_sub (balance l ?from) (locked_balance l ?from) = Some spendable" "debit \<le> spendable"
      "checked_sub (balance l ?from) debit = Some remaining" "checked_add (tf_nonce p) 1 = Some nonce'" and
    b1: "stage_credit l (bt_insert ?from remaining []) (tf_to p) (tf_amount p) = Inr b1" and
    b2: "(case reward_pk of None \<Rightarrow> Ok b1 | Some pk \<Rightarrow> stage_credit l b1 pk (tf_fee p)) = Inr b2" and
    q: "q = \<lparr>pt_balances = b2, pt_sender = ?from, pt_next_nonce = nonce'\<rparr>"
    unfolding prepare_fields_eq_Inr by blast
  from c have debit: "unat debit = unat (tf_amount p) + unat (tf_fee p)"
    and spend: "unat (locked_balance l ?from) \<le> unat (balance l ?from)"
       "unat spendable = unat (balance l ?from) - unat (locked_balance l ?from)" "debit \<le> spendable"
    and rem: "unat remaining = unat (balance l ?from) - unat debit" "unat debit \<le> unat (balance l ?from)"
    and nonce': "unat nonce' = unat (tf_nonce p) + 1"
    by (simp_all add: checked_simps)
  have wfm: "bt_wf ?m" using wf by (simp add: ledger_wf_def)
  have M0: "merged ?m (bt_insert ?from remaining []) = bt_insert ?from remaining ?m" by simp
  note c1 = stage_credit_effect [OF b1 _ wfm, unfolded M0]
  have wf1: "bt_wf b1" using c1(1) by (simp add: bt_wf_def)
  have c2: "bt_wf b2 \<and> bt_sum (merged ?m b2) = bt_sum (merged ?m b1) + (if reward_pk = None then 0 else unat (tf_fee p)) \<and>
      unat (bt_get_or 0 (merged ?m b2) k) = unat (bt_get_or 0 (merged ?m b1) k) + fee_to reward_pk p k" for k
    using b2 wf1 stage_credit_effect [OF _ wf1 wfm, of "the reward_pk" "tf_fee p" b2]
    by (cases reward_pk) (auto simp: fee_to_def)
  have bal: "nl_balances l' = merged ?m b2" by (simp add: l'_def commit_transfer_def q)
  have get1: "unat (bt_get_or 0 (merged ?m b1) k) =
      unat (if k = ?from then remaining else bt_get_or 0 ?m k) + (if k = tf_to p then unat (tf_amount p) else 0)" for k
    using c1(3) by (simp add: bt_wf_def)
  show "unat (balance l' k) + (if k = ?from then unat (tf_amount p) + unat (tf_fee p) else 0) =
         unat (balance l k) + (if k = tf_to p then unat (tf_amount p) else 0) + fee_to reward_pk p k"
    using c2 [of k] get1 [of k] rem debit by (auto simp: balance_def bal)
  have "bt_sum (bt_insert ?from remaining ?m) + unat debit = bt_sum ?m"
    using bt_sum_insert [OF wfm, of ?from remaining] rem by (simp add: balance_def)
  then show "bt_sum (nl_balances l') + unat (tf_fee p) =
         bt_sum ?m + (if reward_pk = None then 0 else unat (tf_fee p))"
    using c2 c1(2) debit by (simp add: bal bt_wf_def)
  show "ledger_wf l'"
    using wf by (simp add: ledger_wf_def l'_def commit_transfer_def bt.wf_ins_all)
  show "unat (tf_amount p) + unat (tf_fee p) + unat (locked_balance l ?from) \<le> unat (balance l ?from)"
    using spend debit by (simp add: word_le_nat_alt)
  show "tf_nonce p = next_nonce l ?from" "height \<le> tf_valid_before p" by fact+
  show "unat (next_nonce l' ?from) = unat (next_nonce l ?from) + 1"
    using nonce nonce' by (simp add: l'_def commit_transfer_def q next_nonce_def)
  show "k \<noteq> ?from \<Longrightarrow> next_nonce l' k = next_nonce l k"
    by (simp add: l'_def commit_transfer_def q next_nonce_def)
qed

lemma commit_transfer_frame [simp]:
  "nl_network_id (commit_transfer l q) = nl_network_id l"
  "nl_schedule (commit_transfer l q) = nl_schedule l"
  "nl_height (commit_transfer l q) = nl_height l"
  "nl_issued (commit_transfer l q) = nl_issued l"
  "nl_minimum_fee (commit_transfer l q) = nl_minimum_fee l"
  "nl_reward_maturity (commit_transfer l q) = nl_reward_maturity l"
  "nl_locked_balances (commit_transfer l q) = nl_locked_balances l"
  "nl_pending_rewards (commit_transfer l q) = nl_pending_rewards l"
  "locked_balance (commit_transfer l q) = locked_balance l"
  by (simp_all add: commit_transfer_def locked_balance_def fun_eq_iff)

lemma prepare_fields_accounts_ok:
  assumes "prepare_fields l height (Some reward_pk) p = Inr q" and "accounts_ok l"
  shows "accounts_ok (commit_transfer l q)"
proof -
  from assms(2) have wf: "ledger_wf l" by (simp add: accounts_ok_def)
  note e = prepare_fields_effect [OF assms(1) wf]
  have "locked_balance l k \<le> balance (commit_transfer l q) k" for k
  proof -
    have "unat (locked_balance l k) \<le> unat (balance l k)"
      using assms(2) by (simp add: accounts_ok_def word_le_nat_alt)
    with e(1) [of k] e(4) show ?thesis
      unfolding word_le_nat_alt by (cases "k = tf_from p") auto
  qed
  with assms(2) e(2,3) show ?thesis by (simp add: accounts_ok_def)
qed

section \<open>Emission\<close>

lemma halved_reward:
  "unat (if e < 128 then drop_bit e (r :: u128) else 0) = unat r div 2 ^ e"
proof (cases "e < 128")
  case True
  then show ?thesis by (simp add: unat_drop_bit_eq drop_bit_eq_div [where 'a = nat])
next
  case False
  have "unat r < 2 ^ 128" using unsigned_less [of r] by simp
  also have "(2::nat) ^ 128 \<le> 2 ^ e" using False by (intro power_increasing) simp_all
  finally show ?thesis using False by simp
qed

lemma emission_eq_Inr:
  "emission s height issued = Inr e \<longleftrightarrow>
     es_halving_epoch s \<noteq> 0 \<and> issued \<le> es_total_supply s \<and>
     unat e = min (unat (es_initial_reward s) div 2 ^ (unat height div unat (es_halving_epoch s)))
                (unat (es_total_supply s) - unat issued)"
proof -
  define r where "r = (if unat (height div es_halving_epoch s) < 128
    then drop_bit (unat (height div es_halving_epoch s)) (es_initial_reward s) else 0)"
  have r: "unat r = unat (es_initial_reward s) div 2 ^ (unat height div unat (es_halving_epoch s))"
    using halved_reward [of "unat (height div es_halving_epoch s)" "es_initial_reward s"]
    by (simp add: r_def unat_div)
  have m: "min r d = e \<longleftrightarrow> unat e = min (unat r) (unat d)" for d
    by (auto simp: min_def word_le_nat_alt word_unat_eq_iff)
  have "emission s height issued = Inr e \<longleftrightarrow>
      es_halving_epoch s \<noteq> 0 \<and> issued \<le> es_total_supply s \<and> min r (es_total_supply s - issued) = e"
    unfolding emission_def Let_def r_def [symmetric]
    by (auto simp: result_simps checked_sub_def simp del: unat_div)
  also have "\<dots> \<longleftrightarrow> es_halving_epoch s \<noteq> 0 \<and> issued \<le> es_total_supply s \<and>
      unat e = min (unat r) (unat (es_total_supply s) - unat issued)"
    by (auto simp: m unat_sub)
  finally show ?thesis unfolding r .
qed

lemma credit_eq_Inr:
  assumes "credit l pk amount = Inr l'"
  shows "l' = l\<lparr>nl_balances := nl_balances l'\<rparr>"
    and "bt_wf (nl_balances l) \<Longrightarrow> bt_wf (nl_balances l')"
    and "bt_wf (nl_balances l) \<Longrightarrow> bt_sum (nl_balances l') = bt_sum (nl_balances l) + unat amount"
    and "unat (balance l' k) = unat (balance l k) + (if k = pk then unat amount else 0)"
proof -
  consider "amount = 0" "l' = l" | b where "amount \<noteq> 0" "checked_add (balance l pk) amount = Some b"
      "l' = l\<lparr>nl_balances := bt_insert pk b (nl_balances l)\<rparr>"
    using assms by (auto simp: credit_def result_simps split: if_splits)
  then have "l' = l\<lparr>nl_balances := nl_balances l'\<rparr> \<and>
    (bt_wf (nl_balances l) \<longrightarrow> bt_wf (nl_balances l') \<and>
       bt_sum (nl_balances l') = bt_sum (nl_balances l) + unat amount) \<and>
    unat (balance l' k) = unat (balance l k) + (if k = pk then unat amount else 0)"
  proof cases
    case 1
    then show ?thesis by simp
  next
    case (2 b)
    have "bt_wf (nl_balances l) \<longrightarrow> bt_sum (bt_insert pk b (nl_balances l)) = bt_sum (nl_balances l) + unat amount"
      using bt_sum_insert [of "nl_balances l" pk b] 2(2) by (auto simp: checked_simps balance_def)
    with 2 show ?thesis by (auto simp: checked_simps balance_def)
  qed
  then show "l' = l\<lparr>nl_balances := nl_balances l'\<rparr>"
    and "bt_wf (nl_balances l) \<Longrightarrow> bt_wf (nl_balances l')"
    and "bt_wf (nl_balances l) \<Longrightarrow> bt_sum (nl_balances l') = bt_sum (nl_balances l) + unat amount"
    and "unat (balance l' k) = unat (balance l k) + (if k = pk then unat amount else 0)"
    by blast+
qed

text \<open>The reward that closes a block is locked, when the network has a maturity distance.\<close>

definition lock_reward :: "u64 \<Rightarrow> string \<Rightarrow> u128 \<Rightarrow> native_ledger \<Rightarrow> native_ledger \<Rightarrow> bool" where
  "lock_reward height pk amount l1 l2 \<longleftrightarrow>
     (if amount \<noteq> 0 \<and> nl_reward_maturity l1 \<noteq> 0
      then \<exists>unlock_height locked.
        unat unlock_height = unat height + unat (nl_reward_maturity l1) \<and>
        unat locked = unat (locked_balance l1 pk) + unat amount \<and>
        l2 = l1\<lparr>nl_locked_balances := bt_insert pk locked (nl_locked_balances l1),
                nl_pending_rewards := bt_insert unlock_height (pk, amount) (nl_pending_rewards l1)\<rparr>
      else l2 = l1)"

lemma lock_emission_reward:
  assumes "lock_emission height pk amount (l1, u1) = Inr (l2, u2)"
  shows "lock_reward height pk amount l1 l2"
proof (cases "amount \<noteq> 0 \<and> nl_reward_maturity l1 \<noteq> 0")
  case True
  with assms obtain unlock_height locked where
    "checked_add height (nl_reward_maturity l1) = Some unlock_height" and
    "checked_add (locked_balance l1 pk) amount = Some locked" and
    "l2 = l1\<lparr>nl_locked_balances := bt_insert pk locked (nl_locked_balances l1),
              nl_pending_rewards := bt_insert unlock_height (pk, amount) (nl_pending_rewards l1)\<rparr>"
    by (auto simp: lock_emission_def Let_def rbind_eq_Inr ok_or_eq_Inr)
  with True show ?thesis
    unfolding lock_reward_def checked_add_eq_Some by auto
next
  case False
  with assms show ?thesis by (auto simp: lock_emission_def lock_reward_def)
qed

lemma settle_emission_steps:
  assumes "settle_emission height pk (l, u) = Inr (l', u')"
  obtains amount l1 l2 issued where
    "emission (nl_schedule l) height (nl_issued l) = Inr amount" and
    "credit l pk amount = Inr l1" and "lock_reward height pk amount l1 l2" and
    "unat issued = unat (nl_issued l2) + unat amount" and
    "l' = l2\<lparr>nl_issued := issued, nl_height := height\<rparr>"
proof -
  from assms obtain amount l1 l2 u1 u2 issued where
    "emission (nl_schedule l) height (nl_issued l) = Inr amount" and
    "credit l pk amount = Inr l1" and "lock_emission height pk amount (l1, u1) = Inr (l2, u2)" and
    "checked_add (nl_issued l2) amount = Some issued" and
    "l' = l2\<lparr>nl_issued := issued, nl_height := height\<rparr>"
    by (auto simp: settle_emission_def Let_def rbind_eq_Inr ok_or_eq_Inr)
  then show thesis
    by (intro that) (auto simp: lock_emission_reward checked_simps)
qed

lemma lock_reward_accounts:
  assumes "lock_reward height pk amount l1 l2" and "ledger_wf l1"
    and "locks_match (nl_pending_rewards l1) (nl_locked_balances l1)"
    and "pending_window height created_by l1" and "unat created_by < unat height"
  shows "ledger_wf l2" and "locks_match (nl_pending_rewards l2) (nl_locked_balances l2)"
    and "pending_window height height l2"
    and "unat (locked_balance l2 k) \<le> unat (locked_balance l1 k) + (if k = pk then unat amount else 0)"
    and "l2 = l1\<lparr>nl_locked_balances := nl_locked_balances l2, nl_pending_rewards := nl_pending_rewards l2\<rparr>"
proof -
  have old: "pending_window height height l1"
    using assms(4,5) by (force simp: pending_window_def)
  show "l2 = l1\<lparr>nl_locked_balances := nl_locked_balances l2, nl_pending_rewards := nl_pending_rewards l2\<rparr>"
    using assms(1) by (auto simp: lock_reward_def split: if_splits)
  show "ledger_wf l2"
    using assms(1,2) by (auto simp: lock_reward_def ledger_wf_def split: if_splits)
  show "unat (locked_balance l2 k) \<le> unat (locked_balance l1 k) + (if k = pk then unat amount else 0)"
    using assms(1) by (auto simp: lock_reward_def locked_balance_def split: if_splits)
  have "locks_match (nl_pending_rewards l2) (nl_locked_balances l2) \<and> pending_window height height l2"
  proof (cases "amount \<noteq> 0 \<and> nl_reward_maturity l1 \<noteq> 0")
    case True
    with assms(1) obtain v locked where v: "unat v = unat height + unat (nl_reward_maturity l1)"
      and locked: "unat locked = unat (locked_balance l1 pk) + unat amount"
      and l2: "l2 = l1\<lparr>nl_locked_balances := bt_insert pk locked (nl_locked_balances l1),
                nl_pending_rewards := bt_insert v (pk, amount) (nl_pending_rewards l1)\<rparr>"
      by (auto simp: lock_reward_def)
    have "u \<noteq> v" if "(u, r) \<in> set (nl_pending_rewards l1)" for u r
      using that assms(4,5) v by (cases r) (force simp: pending_window_def)
    then have new: "map_of (nl_pending_rewards l1) v = None"
      by (fastforce simp: map_of_eq_None_iff)
    have "unat amount \<noteq> 0" using True by (simp add: unat_eq_zero)
    then have "locked \<noteq> 0" using locked by auto
    then have "locks_match (nl_pending_rewards l2) (nl_locked_balances l2)"
      using assms(3) locked by (simp add: l2 locks_match_def pending_total_insert_new [OF new] locked_balance_def)
    moreover have "height < v" using v True by (simp add: word_less_nat_alt unat_gt_0)
    ultimately show ?thesis
      using old v True assms(5) set_bt_insert_subset [of v "(pk, amount)" "nl_pending_rewards l1"]
      by (auto simp: l2 pending_window_def)
  next
    case False
    with assms(1,3) old show ?thesis by (auto simp: lock_reward_def split: if_splits)
  qed
  then show "locks_match (nl_pending_rewards l2) (nl_locked_balances l2)" "pending_window height height l2"
    by blast+
qed

lemma settle_emission_inv:
  assumes "settle_emission height pk (l, u) = Inr (l', u')"
    and "accounts_ok l" and "pending_window height created_by l" and "unat created_by < unat height"
  shows "ledger_inv l'" and "nl_height l' = height"
proof -
  from assms(1) obtain amount l1 l2 issued where
    e: "emission (nl_schedule l) height (nl_issued l) = Inr amount" and
    c: "credit l pk amount = Inr l1" and k: "lock_reward height pk amount l1 l2" and
    i: "unat issued = unat (nl_issued l2) + unat amount" and
    l': "l' = l2\<lparr>nl_issued := issued, nl_height := height\<rparr>"
    by (rule settle_emission_steps)
  note c' = credit_eq_Inr [OF c]
  have l1: "ledger_wf l1" "locks_match (nl_pending_rewards l1) (nl_locked_balances l1)"
    "pending_window height created_by l1"
    using assms(2,3) c'(2) by (subst c'(1), simp add: accounts_ok_def ledger_wf_def pending_window_def)+
  note k' = lock_reward_accounts [OF k l1 assms(4)]
  have frame: "nl_issued l2 = nl_issued l" "nl_schedule l2 = nl_schedule l" "nl_balances l2 = nl_balances l1"
    "locked_balance l1 = locked_balance l" "nl_reward_maturity l2 = nl_reward_maturity l1"
    by (subst k'(5), simp, subst c'(1), simp)+
      (subst k'(5), simp, subst c'(1), simp add: locked_balance_def fun_eq_iff, subst k'(5), simp)
  have bal: "balance l2 = balance l1" by (simp add: balance_def fun_eq_iff frame)
  have "locked_balance l2 q \<le> balance l2 q" for q
    using k'(4) [of q] c'(4) [of q] assms(2)
    by (auto simp: bal frame word_le_nat_alt accounts_ok_def intro: order_trans add_mono)
  moreover have "issued \<le> es_total_supply (nl_schedule l)"
    using e i by (auto simp: emission_eq_Inr word_le_nat_alt frame)
  ultimately show "ledger_inv l'"
    using assms(2) k'(1,2,3) i c'(3)
    by (simp add: l' ledger_inv_def accounts_ok_def ledger_wf_def pending_window_def frame
        balance_def locked_balance_def)
  show "nl_height l' = height" by (simp add: l')
qed

section \<open>Blocks\<close>

lemma block_transfer_step_cases:
  assumes "block_transfer_step E height reward_pk (l, u) t = Inr (l', u')"
  obtains p q where "validate_native_transfer E t (nl_network_id l) (nl_minimum_fee l) = Inr p"
    and "prepare_fields l height (Some reward_pk) p = Inr q" and "l' = commit_transfer l q"
  using assms by (auto simp: block_transfer_step_def prepare_transfer_def Let_def rbind_eq_Inr)

text \<open>The configuration of a ledger never changes, and a transfer changes balances and nonces only.\<close>

definition same_config :: "native_ledger \<Rightarrow> native_ledger \<Rightarrow> bool" where
  "same_config l l' \<longleftrightarrow> nl_network_id l' = nl_network_id l \<and> nl_schedule l' = nl_schedule l \<and>
     nl_minimum_fee l' = nl_minimum_fee l \<and> nl_reward_maturity l' = nl_reward_maturity l"

definition same_outside_accounts :: "native_ledger \<Rightarrow> native_ledger \<Rightarrow> bool" where
  "same_outside_accounts l l' \<longleftrightarrow> same_config l l' \<and> nl_height l' = nl_height l \<and> nl_issued l' = nl_issued l \<and>
     nl_locked_balances l' = nl_locked_balances l \<and> nl_pending_rewards l' = nl_pending_rewards l"

interpretation block_transfers: fallible_system "block_transfer_step E height reward_pk"
    "\<lambda>(l, u). accounts_ok l \<and> same_outside_accounts l0 l" for E height reward_pk l0
proof unfold_locales
  fix s t s'
  assume inv: "(\<lambda>(l, u). accounts_ok l \<and> same_outside_accounts l0 l) s"
    and step: "block_transfer_step E height reward_pk s t = Inr s'"
  obtain l u l' u' where s: "s = (l, u)" "s' = (l', u')" by (cases s, cases s')
  from step [unfolded s] obtain p q where "prepare_fields l height (Some reward_pk) p = Inr q"
    and l': "l' = commit_transfer l q" by (rule block_transfer_step_cases)
  with inv show "(\<lambda>(l, u). accounts_ok l \<and> same_outside_accounts l0 l) s'"
    by (auto simp: s prepare_fields_accounts_ok same_outside_accounts_def same_config_def)
qed

lemma apply_block_inner_cases:
  assumes "apply_block_inner E l height reward_pk transfers u = Inr (l', u')"
  obtains l0 l1 u1 where "unat height = unat (nl_height l) + 1"
    and "is_ok (hex32_from_hex E reward_pk)"
    and "unlock_rewards l height = Inr l0"
    and "try_fold (block_transfer_step E height reward_pk) (l0, record_unlocks l height u) transfers = Inr (l1, u1)"
    and "settle_emission height reward_pk (l1, u1) = Inr (l', u')"
  using assms
  by (auto simp: apply_block_inner_def Let_def rbind_eq_Inr ok_or_eq_Inr ensure_eq_Inr map_err_eq_Inr
      checked_add_eq_Some is_ok_def)

text \<open>What a block does, as three ledgers: after the unlocks, after the transfers, after the emission.\<close>

lemma apply_block_inner_stages:
  assumes "apply_block_inner E l height reward_pk transfers u = Inr (l', u')" and "ledger_inv l"
  obtains l0 l1 u1 where "unat height = unat (nl_height l) + 1"
    and "unlock_rewards l height = Inr l0" and "accounts_ok l0" and "pending_window height (nl_height l) l0"
    and "l0 = l\<lparr>nl_pending_rewards := filter (\<lambda>(u, _). height < u) (nl_pending_rewards l),
              nl_locked_balances := nl_locked_balances l0\<rparr>"
    and "try_fold (block_transfer_step E height reward_pk) (l0, record_unlocks l height u) transfers = Inr (l1, u1)"
    and "accounts_ok l1" and "same_outside_accounts l0 l1"
    and "settle_emission height reward_pk (l1, u1) = Inr (l', u')"
proof -
  from assms(1) obtain l0 l1 u1 where h: "unat height = unat (nl_height l) + 1"
    and unlock: "unlock_rewards l height = Inr l0"
    and fold: "try_fold (block_transfer_step E height reward_pk) (l0, record_unlocks l height u) transfers = Inr (l1, u1)"
    and settle: "settle_emission height reward_pk (l1, u1) = Inr (l', u')"
    by (rule apply_block_inner_cases)
  from assms(2) have "accounts_ok l" "pending_window (nl_height l) (nl_height l) l"
    by (simp_all add: ledger_inv_def)
  from unlock_rewards_ok [OF this, of height] unlock
  have l0: "accounts_ok l0" "pending_window height (nl_height l) l0"
    "l0 = l\<lparr>nl_pending_rewards := filter (\<lambda>(u, _). height < u) (nl_pending_rewards l),
              nl_locked_balances := nl_locked_balances l0\<rparr>" by auto
  have "accounts_ok l1 \<and> same_outside_accounts l0 l1"
    using block_transfers.run_inv [OF _ fold, of l0] l0(1) by (simp add: same_outside_accounts_def same_config_def)
  with h unlock l0 fold settle show thesis by (intro that) auto
qed

lemma prepare_block_inv:
  assumes "prepare_block E l height reward_pk transfers = Inr (l', u')" and "ledger_inv l"
  shows "ledger_inv l'" and "nl_height l' = height" and "unat height = unat (nl_height l) + 1"
proof -
  from assms obtain l0 l1 u1 where h: "unat height = unat (nl_height l) + 1"
    and "accounts_ok l1" "pending_window height (nl_height l) l0" "same_outside_accounts l0 l1"
    and "settle_emission height reward_pk (l1, u1) = Inr (l', u')"
    unfolding prepare_block_def by (rule apply_block_inner_stages)
  then show "ledger_inv l'" "nl_height l' = height" "unat height = unat (nl_height l) + 1"
    using settle_emission_inv [of height reward_pk l1 u1 l' u' "nl_height l"]
    by (auto simp: pending_window_def same_outside_accounts_def same_config_def)
qed

lemma new_with_rules_inv:
  "new_with_rules network_id schedule minimum_fee maturity = Inr l \<Longrightarrow> ledger_inv l"
  by (auto simp: new_with_rules_def ledger_inv_def accounts_ok_def ledger_wf_def pending_window_def
      locks_match_def balance_def locked_balance_def bt_get_or_def split: if_splits)

text \<open>A sequence of blocks, each a height, a reward key and its transfers.\<close>

type_synonym ledger_block = "u64 \<times> string \<times> signed_envelope list"

definition ledger_step :: "ext \<Rightarrow> native_ledger \<Rightarrow> ledger_block \<Rightarrow> native_ledger_error + native_ledger" where
  "ledger_step E l = (\<lambda>(height, reward_pk, transfers).
     case apply_block E l height reward_pk transfers of
       (Inl e, _) \<Rightarrow> Err e
     | (Inr _, l') \<Rightarrow> Ok l')"

abbreviation run_blocks :: "ext \<Rightarrow> native_ledger \<Rightarrow> ledger_block list \<Rightarrow> native_ledger_error + native_ledger" where
  "run_blocks E \<equiv> try_fold (ledger_step E)"

lemma ledger_step_eq_Inr:
  "ledger_step E l (height, reward_pk, transfers) = Inr l' \<longleftrightarrow>
     (\<exists>u. prepare_block E l height reward_pk transfers = Inr (l', u))"
  by (auto simp: ledger_step_def apply_block_def split: sum.splits prod.splits)

interpretation ledger: fallible_system "ledger_step E" ledger_inv for E
  by unfold_locales (metis ledger_step_eq_Inr prepare_block_inv(1) prod_cases3)

end
