(* ===== verification/Ledger_Audit.thy ===== *)
theory Ledger_Audit
  imports Ledger_Invariant
begin

text \<open>
  The node's own accounting check, \<open>NativeLedger::audit\<close>, against the invariant the block
  operations keep: the check passes exactly on the ledgers that satisfy \<^const>\<open>ledger_inv\<close>, so a
  ledger reached through \<open>apply_block\<close> never fails it, and a ledger that passes it can be continued.
\<close>

section \<open>The sums of the audit\<close>

lemma sum_balances_eq_Inr:
  "try_fold (\<lambda>sum (_, b). ok_or (checked_add sum b) Overflow) a m = Inr s \<longleftrightarrow>
     unat s = unat (a :: u128) + bt_sum m"
proof (induction m arbitrary: a)
  case Nil
  then show ?case by (auto simp: word_unat_eq_iff)
next
  case (Cons kb m)
  show ?case
  proof (cases "checked_add a (snd kb)")
    case None
    then have "unat s < unat a + bt_sum (kb # m)"
      using unat_u128_less [of s] by (simp add: checked_simps)
    with None show ?thesis by (cases kb) simp
  next
    case (Some c)
    then have "unat c = unat a + unat (snd kb)" by (simp add: checked_simps)
    with Some Cons.IH [of c] show ?thesis by (cases kb) auto
  qed
qed

lemma sum_locked_eq_Inr:
  "try_fold (\<lambda>sum (pk, locked).
      if locked = 0 \<or> locked > balance l pk then Err InconsistentAccounting
      else ok_or (checked_add sum locked) Overflow) a m = Inr s \<longleftrightarrow>
   (\<forall>(pk, locked) \<in> set m. locked \<noteq> 0 \<and> locked \<le> balance l pk) \<and> unat s = unat (a :: u128) + bt_sum m"
proof (induction m arbitrary: a)
  case Nil
  then show ?case by (auto simp: word_unat_eq_iff)
next
  case (Cons kb m)
  show ?case
  proof (cases "checked_add a (snd kb)")
    case None
    then have "unat s < unat a + bt_sum (kb # m)"
      using unat_u128_less [of s] by (simp add: checked_simps)
    with None show ?thesis by (cases kb) auto
  next
    case (Some c)
    then have "unat c = unat a + unat (snd kb)" by (simp add: checked_simps)
    with Some Cons.IH [of c] show ?thesis by (cases kb) auto
  qed
qed

lemma bt_sum_mono:
  assumes "bt_wf m" and "bt_wf n" and "\<And>k. unat (bt_get_or 0 m k) \<le> unat (bt_get_or 0 n k)"
  shows "bt_sum m \<le> bt_sum n"
  using assms
proof (induction m arbitrary: n)
  case Nil
  then show ?case by simp
next
  case (Cons kv m)
  obtain k v where kv: "kv = (k, v)" by (cases kv)
  let ?n = "bt_insert k 0 n"
  have k: "k \<notin> fst ` set m" and wf: "bt_wf m" using Cons.prems(1) by (auto simp: kv bt_wf_Cons)
  have "bt_sum m \<le> bt_sum ?n"
  proof (rule Cons.IH [OF wf])
    show "bt_wf ?n" using Cons.prems(2) by simp
    show "unat (bt_get_or 0 m q) \<le> unat (bt_get_or 0 ?n q)" for q
      using Cons.prems(3) [of q] k by (auto simp: kv bt_get_or_Cons bt_get_or_not_in)
  qed
  moreover have "bt_sum ?n + unat (bt_get_or 0 n k) = bt_sum n"
    using bt_sum_insert [OF Cons.prems(2), of k 0] by simp
  moreover have "unat v \<le> unat (bt_get_or 0 n k)"
    using Cons.prems(3) [of k] by (simp add: kv bt_get_or_Cons)
  ultimately show ?case by (simp add: kv)
qed

section \<open>The locks the audit expects\<close>

definition entry_ok :: "native_ledger \<Rightarrow> u64 \<times> string \<times> u128 \<Rightarrow> bool" where
  "entry_ok l = (\<lambda>(unlock_height, pk, amount). nl_height l < unlock_height \<and> amount \<noteq> 0 \<and>
     unat (nl_reward_maturity l) < unat unlock_height \<and>
     unat unlock_height \<le> unat (nl_reward_maturity l) + unat (nl_height l))"

lemma pending_window_entry_ok:
  "pending_window (nl_height l) (nl_height l) l \<longleftrightarrow> (\<forall>e \<in> set (nl_pending_rewards l). entry_ok l e)"
  by (auto simp: pending_window_def entry_ok_def)

lemma created_height_ok:
  "(case checked_sub u m of None \<Rightarrow> False | Some created \<Rightarrow> created > 0 \<and> created \<le> (h :: u64)) \<longleftrightarrow>
     unat m < unat u \<and> unat u \<le> unat m + unat h"
  by (auto simp: checked_sub_def word_less_nat_alt word_le_nat_alt unat_sub split: option.splits)

definition expect_lock :: "native_ledger \<Rightarrow> (string, u128) btree \<Rightarrow> u64 \<times> string \<times> u128 \<Rightarrow>
    native_ledger_error + (string, u128) btree" where
  "expect_lock l locks = (\<lambda>(unlock_height, pk, amount).
     rbind (ensure (entry_ok l (unlock_height, pk, amount)) InconsistentAccounting) (\<lambda>_.
     rbind (ok_or (checked_add (bt_get_or 0 locks pk) amount) Overflow) (\<lambda>expected.
     Ok (bt_insert pk expected locks))))"

lemma expected_locks_alt: "expected_locks l = try_fold (expect_lock l) [] (nl_pending_rewards l)"
proof -
  have "\<not> (u \<le> nl_height l \<or> a = 0 \<or>
        \<not> (case checked_sub u (nl_reward_maturity l) of None \<Rightarrow> False
           | Some created \<Rightarrow> created > 0 \<and> created \<le> nl_height l)) \<longleftrightarrow> entry_ok l (u, pk, a)" for u pk and a :: u128
    unfolding created_height_ok entry_ok_def by auto
  then show ?thesis unfolding expected_locks_def expect_lock_def [abs_def] by simp
qed

lemma expect_lock_eq_Inr:
  "expect_lock l locks (u, pk, a) = Inr locks' \<longleftrightarrow> entry_ok l (u, pk, a) \<and>
     (\<exists>e. unat e = unat (bt_get_or 0 locks pk) + unat a \<and> locks' = bt_insert pk e locks)"
proof -
  have "checked_add x y = Some (e :: u128) \<longleftrightarrow> unat e = unat x + unat y" for x y e
    using unat_u128_less [of e] by (auto simp: checked_add_eq_Some)
  then show ?thesis by (auto simp: expect_lock_def result_simps)
qed

lemma expected_locks_sound:
  assumes "try_fold (expect_lock l) locks pending = Inr locks'" and "bt_wf locks"
    and "\<forall>pk. map_of locks pk \<noteq> Some 0"
  shows "bt_wf locks' \<and> (\<forall>pk. map_of locks' pk \<noteq> Some 0) \<and> (\<forall>e \<in> set pending. entry_ok l e) \<and>
    (\<forall>pk. unat (bt_get_or 0 locks' pk) = unat (bt_get_or 0 locks pk) + pending_total pending pk)"
  using assms
proof (induction pending arbitrary: locks)
  case Nil
  then show ?case by simp
next
  case (Cons entry pending)
  obtain u pk a where entry: "entry = (u, pk, a)" by (cases entry)
  from Cons.prems(1) obtain locks1 where step: "expect_lock l locks entry = Inr locks1"
    and rest: "try_fold (expect_lock l) locks1 pending = Inr locks'"
    by (auto split: sum.splits)
  from step obtain e where ok: "entry_ok l (u, pk, a)" and e: "unat e = unat (bt_get_or 0 locks pk) + unat a"
    and locks1: "locks1 = bt_insert pk e locks" by (auto simp: entry expect_lock_eq_Inr)
  have "unat a \<noteq> 0" using ok by (simp add: entry_ok_def unat_eq_zero)
  then have "e \<noteq> 0" using e by auto
  with Cons.IH [OF rest] Cons.prems(2,3) ok e show ?case by (auto simp: locks1 entry)
qed

lemma expected_locks_complete:
  assumes "\<forall>e \<in> set pending. entry_ok l e"
    and "\<forall>pk. unat (bt_get_or 0 locks pk) + pending_total pending pk < 2 ^ 128"
  shows "\<exists>locks'. try_fold (expect_lock l) locks pending = Inr locks'"
  using assms
proof (induction pending arbitrary: locks)
  case Nil
  then show ?case by simp
next
  case (Cons entry pending)
  obtain u pk a where entry: "entry = (u, pk, a)" by (cases entry)
  let ?e = "bt_get_or 0 locks pk + a"
  have "unat (bt_get_or 0 locks pk) + unat a < 2 ^ 128"
    using Cons.prems(2) [rule_format, of pk] by (simp add: entry)
  then have e: "unat ?e = unat (bt_get_or 0 locks pk) + unat a" by (intro unat_add_lem [THEN iffD1]) simp
  have "expect_lock l locks entry = Inr (bt_insert pk ?e locks)"
    using Cons.prems(1) e by (auto simp: entry expect_lock_eq_Inr)
  moreover have "\<exists>locks'. try_fold (expect_lock l) (bt_insert pk ?e locks) pending = Inr locks'"
    using Cons.prems(1) Cons.prems(2) by (intro Cons.IH) (auto simp: entry e split: if_splits)
  ultimately show ?case by simp
qed

lemma locks_match_unique:
  assumes "bt_wf m" "bt_wf n" "locks_match pending m" "locks_match pending n"
  shows "m = n"
proof (rule bt_ext [OF assms(1,2)])
  have "map_of m k = map_of n k" for k
    using assms(3,4) unfolding locks_match_def bt_get_or_def
    by (cases "map_of m k"; cases "map_of n k")
      (metis (no_types, lifting) option.case option.inject unat_eq_zero unsigned_0 word_unat_eq_iff)+
  then show "map_of m = map_of n" by blast
qed

lemma expected_locks_iff:
  assumes "bt_wf (nl_locked_balances l)"
  shows "expected_locks l = Inr (nl_locked_balances l) \<longleftrightarrow>
    pending_window (nl_height l) (nl_height l) l \<and> locks_match (nl_pending_rewards l) (nl_locked_balances l)"
proof
  assume "expected_locks l = Inr (nl_locked_balances l)"
  from expected_locks_sound [OF this [unfolded expected_locks_alt]]
  show "pending_window (nl_height l) (nl_height l) l \<and> locks_match (nl_pending_rewards l) (nl_locked_balances l)"
    by (simp add: pending_window_entry_ok locks_match_def)
next
  assume r: "pending_window (nl_height l) (nl_height l) l \<and> locks_match (nl_pending_rewards l) (nl_locked_balances l)"
  have "pending_total (nl_pending_rewards l) pk < 2 ^ 128" for pk
    using r unat_u128_less [of "bt_get_or 0 (nl_locked_balances l) pk"] by (simp add: locks_match_def)
  then obtain locks where locks: "expected_locks l = Inr locks"
    using r expected_locks_complete [of "nl_pending_rewards l" l "[]"]
    by (auto simp: pending_window_entry_ok expected_locks_alt)
  from expected_locks_sound [OF this [unfolded expected_locks_alt]]
  have "bt_wf locks" "locks_match (nl_pending_rewards l) locks" by (simp_all add: locks_match_def)
  with r assms locks show "expected_locks l = Inr (nl_locked_balances l)"
    using locks_match_unique by blast
qed

section \<open>The audit\<close>

lemma audit_eq_Inr:
  "audit l = Inr a \<longleftrightarrow>
     (\<exists>total locked spendable.
        unat total = bt_sum (nl_balances l) \<and> total = nl_issued l \<and> nl_issued l \<le> es_total_supply (nl_schedule l) \<and>
        expected_locks l = Inr (nl_locked_balances l) \<and>
        (\<forall>(pk, locked) \<in> set (nl_locked_balances l). locked \<noteq> 0 \<and> locked \<le> balance l pk) \<and>
        unat locked = bt_sum (nl_locked_balances l) \<and>
        checked_sub total locked = Some spendable \<and>
        a = \<lparr>na_issued = nl_issued l, na_supply_cap = es_total_supply (nl_schedule l),
             na_total_balance = total, na_total_locked = locked, na_total_spendable = spendable,
             na_balance_entries = length (nl_balances l), na_nonce_entries = length (nl_next_nonces l),
             na_pending_reward_entries = length (nl_pending_rewards l)\<rparr>)"
  unfolding audit_def by (auto simp: result_simps sum_balances_eq_Inr sum_locked_eq_Inr not_less)

lemma locked_entries_ok:
  assumes "bt_wf (nl_locked_balances l)"
  shows "(\<forall>(pk, locked) \<in> set (nl_locked_balances l). locked \<noteq> 0 \<and> locked \<le> balance l pk) \<longleftrightarrow>
    (\<forall>pk. map_of (nl_locked_balances l) pk \<noteq> Some 0) \<and> (\<forall>pk. locked_balance l pk \<le> balance l pk)"
proof -
  have "(pk, v) \<in> set (nl_locked_balances l) \<longleftrightarrow> map_of (nl_locked_balances l) pk = Some v" for pk v
    using assms by (simp add: bt_wf_distinct)
  then have "(\<forall>(pk, locked) \<in> set (nl_locked_balances l). locked \<noteq> 0 \<and> locked \<le> balance l pk) \<longleftrightarrow>
      (\<forall>pk v. map_of (nl_locked_balances l) pk = Some v \<longrightarrow> v \<noteq> 0 \<and> v \<le> balance l pk)"
    by (simp add: Ball_def)
  also have "\<dots> \<longleftrightarrow> (\<forall>pk. map_of (nl_locked_balances l) pk \<noteq> Some 0) \<and> (\<forall>pk. locked_balance l pk \<le> balance l pk)"
    unfolding locked_balance_def bt_get_or_def by (auto split: option.splits)
  finally show ?thesis .
qed

lemma audit_passes:
  assumes "ledger_inv l"
  obtains a where "audit l = Inr a"
    and "na_issued a = nl_issued l" and "na_supply_cap a = es_total_supply (nl_schedule l)"
    and "na_total_balance a = nl_issued l"
    and "unat (na_total_locked a) = bt_sum (nl_locked_balances l)"
    and "unat (na_total_locked a) + unat (na_total_spendable a) = unat (nl_issued l)"
proof -
  note inv = assms [unfolded ledger_inv_def accounts_ok_def ledger_wf_def]
  have "bt_sum (nl_locked_balances l) \<le> bt_sum (nl_balances l)"
    using inv by (intro bt_sum_mono) (auto simp: locked_balance_def balance_def word_le_nat_alt)
  then have le: "bt_sum (nl_locked_balances l) \<le> unat (nl_issued l)" using inv by simp
  define locked :: u128 where "locked = of_nat (bt_sum (nl_locked_balances l))"
  have locked: "unat locked = bt_sum (nl_locked_balances l)"
    using le unat_u128_less [of "nl_issued l"] by (simp add: locked_def unat_of_nat)
  then have sub: "checked_sub (nl_issued l) locked = Some (nl_issued l - locked)"
    using le by (simp add: checked_sub_def word_le_nat_alt)
  have sp: "unat locked + unat (nl_issued l - locked) = unat (nl_issued l)"
    using le locked by (simp add: unat_sub word_le_nat_alt)
  have "expected_locks l = Inr (nl_locked_balances l)"
    using inv by (simp add: expected_locks_iff)
  moreover have "\<forall>(pk, locked) \<in> set (nl_locked_balances l). locked \<noteq> 0 \<and> locked \<le> balance l pk"
    using inv by (simp add: locked_entries_ok locks_match_def)
  ultimately have "audit l = Inr \<lparr>na_issued = nl_issued l, na_supply_cap = es_total_supply (nl_schedule l),
       na_total_balance = nl_issued l, na_total_locked = locked, na_total_spendable = nl_issued l - locked,
       na_balance_entries = length (nl_balances l), na_nonce_entries = length (nl_next_nonces l),
       na_pending_reward_entries = length (nl_pending_rewards l)\<rparr>"
    unfolding audit_eq_Inr using inv locked sub by fastforce
  then show thesis using locked sp by (intro that) auto
qed

lemma audit_iff_inv:
  assumes "ledger_wf l"
  shows "is_ok (audit l) \<longleftrightarrow> ledger_inv l"
proof
  assume "is_ok (audit l)"
  then obtain a where "audit l = Inr a" by (auto simp: is_ok_iff)
  with assms show "ledger_inv l"
    unfolding audit_eq_Inr
    by (auto simp: ledger_inv_def accounts_ok_def ledger_wf_def expected_locks_iff locked_entries_ok)
next
  assume "ledger_inv l"
  then show "is_ok (audit l)" by (rule audit_passes) (simp add: is_ok_iff)
qed

end
