(* ===== verification/Ledger_Undo.thy ===== *)
theory Ledger_Undo
  imports Ledger_Invariant
begin

text \<open>
  The undo journal a block records (\<open>NativeLedgerUndo\<close>) is exact: \<open>undo_block\<close> on the ledger a block
  produced gives back the ledger before the block, entry by entry, whatever the block did. The
  argument is a journal invariant, \<open>tracks\<close>, that every step of the block keeps.
\<close>

section \<open>Journals of one map\<close>

text \<open>Every key whose value may differ from the first map has its first value in the journal.\<close>

definition tracks :: "('k::linorder, 'v) btree \<Rightarrow> ('k, 'v option) btree \<Rightarrow> ('k, 'v) btree \<Rightarrow> bool" where
  "tracks m0 old m \<longleftrightarrow> bt_wf m0 \<and> bt_wf old \<and> bt_wf m \<and>
     (\<forall>k v. map_of old k = Some v \<longrightarrow> v = map_of m0 k) \<and>
     (\<forall>k. map_of old k = None \<longrightarrow> map_of m k = map_of m0 k)"

lemma tracks_start: "bt_wf m \<Longrightarrow> tracks m [] m"
  by (simp add: tracks_def)

lemma tracks_restore: "tracks m0 old m \<Longrightarrow> restore_entries m old = m0"
  unfolding restore_entries_def
  by (rule bt.restore_all_inverse) (auto simp: tracks_def bt_wf_distinct)

lemma tracks_record:
  assumes "tracks m0 old m" and "bt_wf m'" and "\<And>q. q \<noteq> k \<Longrightarrow> map_of m' q = map_of m q"
  shows "tracks m0 (bt_or_insert k (map_of m k) old) m'"
  using assms unfolding tracks_def
  by (auto simp: map_of_bt_or_insert split: if_splits) (metis option.distinct(1))

lemma tracks_insert:
  assumes "tracks m0 old m"
  shows "tracks m0 (bt_or_insert k (map_of m k) old) (bt_insert k v m)"
  using assms by (intro tracks_record) (auto simp: tracks_def)

lemma tracks_record_all:
  assumes "tracks m0 old m" and "bt_wf m'" and "\<And>q. q \<notin> set ks \<Longrightarrow> map_of m' q = map_of m q"
  shows "tracks m0 (fold (\<lambda>k. bt_or_insert k (map_of m k)) ks old) m'"
proof -
  have "tracks m0 (fold (\<lambda>k. bt_or_insert k (map_of m k)) ks old) m \<and>
      (\<forall>k \<in> set ks. map_of (fold (\<lambda>k. bt_or_insert k (map_of m k)) ks old) k \<noteq> None)" for ks
  proof (induction ks rule: rev_induct)
    case Nil
    then show ?case using assms(1) by simp
  next
    case (snoc k ks)
    have "bt_wf m" using assms(1) by (simp add: tracks_def)
    with snoc show ?case
      by (auto intro!: tracks_record [where m' = m] simp: map_of_bt_or_insert)
  qed
  from this [of ks] show ?thesis
    using assms(2,3) unfolding tracks_def by (metis option.distinct(1))
qed

section \<open>Journals of a ledger\<close>

definition journal :: "native_ledger \<Rightarrow> native_ledger \<times> native_ledger_undo \<Rightarrow> bool" where
  "journal l0 = (\<lambda>(l, u).
     tracks (nl_balances l0) (nu_balances u) (nl_balances l) \<and>
     tracks (nl_next_nonces l0) (nu_next_nonces u) (nl_next_nonces l) \<and>
     tracks (nl_locked_balances l0) (nu_locked_balances u) (nl_locked_balances l) \<and>
     tracks (nl_pending_rewards l0) (nu_pending_rewards u) (nl_pending_rewards l) \<and>
     nu_height u = nl_height l0 \<and> nu_issued u = nl_issued l0 \<and> same_config l0 l)"

lemma journal_start: "ledger_wf l \<Longrightarrow> journal l (l, undo_new l)"
  by (simp add: journal_def undo_new_def tracks_start ledger_wf_def same_config_def)

lemma journal_undo:
  assumes "journal l0 (l, u)" and "unat (nl_height l) = unat (nl_height l0) + 1"
  shows "undo_block l u = Inr l0"
proof -
  have "checked_add (nl_height l0) 1 = Some (nl_height l)"
    using assms(2) unat_u64_less [of "nl_height l"] by (simp add: checked_add_eq_Some)
  moreover have "l\<lparr>nl_balances := nl_balances l0, nl_next_nonces := nl_next_nonces l0,
      nl_locked_balances := nl_locked_balances l0, nl_pending_rewards := nl_pending_rewards l0,
      nl_height := nl_height l0, nl_issued := nl_issued l0\<rparr> = l0"
    using assms(1) by (cases l, cases l0) (simp add: journal_def same_config_def)
  ultimately show ?thesis
    using assms(1) tracks_restore [of "nl_balances l0"] tracks_restore [of "nl_next_nonces l0"]
      tracks_restore [of "nl_locked_balances l0"] tracks_restore [of "nl_pending_rewards l0"]
    by (simp add: undo_block_def journal_def ensure_def)
qed

section \<open>The steps of a block keep the journal\<close>

lemma unlock_loop_frame:
  assumes "unlock_loop height pending locked = Inr (pending', locked')" and "bt_wf pending" and "bt_wf locked"
  shows "pending' = filter (\<lambda>(u, _). height < u) pending \<and> bt_wf locked' \<and>
    (\<forall>q. q \<notin> (fst \<circ> snd) ` set (filter (\<lambda>(u, _). u \<le> height) pending) \<longrightarrow> map_of locked' q = map_of locked q)"
  using assms
proof (induction height pending locked rule: unlock_loop.induct)
  case (1 height locked)
  then show ?case by simp
next
  case (2 height u pk amount pending locked)
  have wf: "bt_wf pending" using "2.prems"(2) by (simp add: bt_wf_Cons)
  show ?case
  proof (cases "u \<le> height")
    case True
    with "2.prems"(1) obtain remaining where
      rest: "unlock_loop height pending
         (if remaining = 0 then bt_remove pk locked else bt_insert pk remaining locked) = Inr (pending', locked')"
      by (auto simp: rbind_eq_Inr)
    from "2.IH" [OF True rest wf] "2.prems"(3) True show ?thesis by (auto split: if_splits)
  next
    case False
    have later: "\<forall>k \<in> fst ` set pending. \<not> k \<le> height"
      using "2.prems"(2) False by (force simp: bt_wf_Cons)
    then have "filter (\<lambda>(u, _). height < u) pending = pending"
      by (intro filter_True) force
    with False "2.prems" later show ?thesis by auto
  qed
qed

lemma record_unlocks_journal:
  assumes "journal l0 (l, u)" and "set entries \<subseteq> set (nl_pending_rewards l)"
    and "nl_pending_rewards l = nl_pending_rewards l0"
  defines "record_entry \<equiv> \<lambda>(unlock_height, pk, amount) u.
    (undo_locked_balance l pk u)\<lparr>nu_pending_rewards :=
       bt_insert unlock_height (Some (pk, amount)) (nu_pending_rewards (undo_locked_balance l pk u))\<rparr>"
  shows "journal l0 (l, fold record_entry entries u) \<and>
    (\<forall>(v, pk, _) \<in> set entries. map_of (nu_pending_rewards (fold record_entry entries u)) v \<noteq> None \<and>
       map_of (nu_locked_balances (fold record_entry entries u)) pk \<noteq> None)"
  using assms(2)
proof (induction entries rule: rev_induct)
  case Nil
  then show ?case using assms(1) by simp
next
  case (snoc entry entries)
  obtain v pk amount where entry: "entry = (v, pk, amount)" by (cases entry)
  let ?u = "fold record_entry entries u"
  have IH: "journal l0 (l, ?u)" "\<forall>(v, pk, _) \<in> set entries. map_of (nu_pending_rewards ?u) v \<noteq> None \<and>
       map_of (nu_locked_balances ?u) pk \<noteq> None" using snoc by auto
  have "bt_wf (nl_pending_rewards l)" using assms(1) by (simp add: journal_def tracks_def)
  then have v: "map_of (nl_pending_rewards l0) v = Some (pk, amount)"
    using snoc.prems assms(3) by (auto simp: entry bt_wf_distinct)
  have "tracks (nl_locked_balances l0) (bt_or_insert pk (map_of (nl_locked_balances l) pk) (nu_locked_balances ?u))
     (nl_locked_balances l)"
    using IH(1) by (intro tracks_record) (auto simp: journal_def tracks_def)
  moreover have "tracks (nl_pending_rewards l0) (bt_insert v (Some (pk, amount)) (nu_pending_rewards ?u))
     (nl_pending_rewards l)"
    using IH(1) v by (auto simp: journal_def tracks_def split: if_splits)
  ultimately show ?case
    using IH by (auto simp: entry record_entry_def undo_locked_balance_def journal_def map_of_bt_or_insert)
qed

lemma unlock_rewards_journal:
  assumes "unlock_rewards l height = Inr l'" and "ledger_wf l"
  shows "journal l (l', record_unlocks l height (undo_new l))"
proof -
  let ?due = "filter (\<lambda>(u, _). u \<le> height) (nl_pending_rewards l)" and ?u = "record_unlocks l height (undo_new l)"
  from assms(1) obtain pending locked where
    loop: "unlock_loop height (nl_pending_rewards l) (nl_locked_balances l) = Inr (pending, locked)"
    and l': "l' = l\<lparr>nl_pending_rewards := pending, nl_locked_balances := locked\<rparr>"
    by (auto simp: unlock_rewards_def rbind_eq_Inr)
  note wf = assms(2) [unfolded ledger_wf_def]
  have frame: "pending = filter (\<lambda>(u, _). height < u) (nl_pending_rewards l)" "bt_wf locked"
    "q \<notin> (fst \<circ> snd) ` set ?due \<Longrightarrow> map_of locked q = map_of (nl_locked_balances l) q" for q
    using unlock_loop_frame [OF loop] wf by auto
  have rec: "journal l (l, ?u)"
    "\<forall>(v, pk, _) \<in> set ?due. map_of (nu_pending_rewards ?u) v \<noteq> None \<and> map_of (nu_locked_balances ?u) pk \<noteq> None"
    using record_unlocks_journal [OF journal_start [OF assms(2)], of ?due]
    unfolding record_unlocks_def by auto
  have due: "map_of (nu_pending_rewards ?u) v \<noteq> None" "map_of (nu_locked_balances ?u) pk \<noteq> None"
    if "(v, pk, a) \<in> set ?due" for v pk a
    using rec(2) that by blast+
  have "map_of locked q = map_of (nl_locked_balances l) q" if none: "map_of (nu_locked_balances ?u) q = None" for q
  proof (rule frame(3), rule notI)
    assume "q \<in> (fst \<circ> snd) ` set ?due"
    then obtain e where e: "e \<in> set ?due" "q = fst (snd e)" by (elim imageE) simp
    then have "(fst e, q, snd (snd e)) \<in> set ?due" by simp
    from due(2) [OF this] none show False by simp
  qed
  then have "tracks (nl_locked_balances l) (nu_locked_balances ?u) locked"
    using rec(1) frame(2) by (auto simp: journal_def tracks_def)
  moreover have "map_of pending v = map_of (nl_pending_rewards l) v" if "map_of (nu_pending_rewards ?u) v = None" for v
  proof -
    have "\<not> v \<le> height" if "(v, e) \<in> set (nl_pending_rewards l)" for e
    proof
      assume "v \<le> height"
      with that have "(v, fst e, snd e) \<in> set ?due" by simp
      from due(1) [OF this] \<open>map_of (nu_pending_rewards ?u) v = None\<close> show False by simp
    qed
    then have "(v, e) \<in> set pending \<longleftrightarrow> (v, e) \<in> set (nl_pending_rewards l)" for e
      unfolding frame(1) by (cases e) (auto simp: not_le)
    then have "map_of pending v = Some e \<longleftrightarrow> map_of (nl_pending_rewards l) v = Some e" for e
      using wf by (simp add: frame(1) bt_wf_distinct bt_wf_filter)
    then show ?thesis by (metis not_None_eq)
  qed
  then have "tracks (nl_pending_rewards l) (nu_pending_rewards ?u) pending"
    using rec(1) wf by (auto simp: journal_def tracks_def frame(1) bt_wf_filter)
  ultimately show ?thesis using rec(1) by (simp add: journal_def l' same_config_def)
qed

lemma fold_undo_balance:
  "fold (\<lambda>pk u. undo_balance l pk u) pks u =
     u\<lparr>nu_balances := fold (\<lambda>k. bt_or_insert k (map_of (nl_balances l) k)) pks (nu_balances u)\<rparr>"
  by (induction pks arbitrary: u) (simp_all add: undo_balance_def)

lemma prepared_balances_wf: "prepare_fields l height reward_pk p = Inr q \<Longrightarrow> bt_wf (pt_balances q)"
  unfolding prepare_fields_eq_Inr
  by (auto simp: stage_credit_def rbind_eq_Inr bt_wf_def sorted_wrt_append split: option.splits if_splits
      intro: bt_wf_insert [unfolded bt_wf_def])

interpretation block_journal: fallible_system "block_transfer_step E height reward_pk" "journal l0" for E height reward_pk l0
proof unfold_locales
  fix s t s'
  assume inv: "journal l0 s" and step: "block_transfer_step E height reward_pk s t = Inr s'"
  obtain l u l' u' where s: "s = (l, u)" "s' = (l', u')" by (cases s, cases s')
  from step obtain p q where q: "prepare_fields l height (Some reward_pk) p = Inr q"
    and l': "l' = commit_transfer l q"
    and u': "u' = u\<lparr>nu_balances := fold (\<lambda>k. bt_or_insert k (map_of (nl_balances l) k))
                 (map fst (pt_balances q)) (nu_balances u),
               nu_next_nonces := bt_or_insert (pt_sender q) (map_of (nl_next_nonces l) (pt_sender q)) (nu_next_nonces u)\<rparr>"
    by (auto simp: s block_transfer_step_def prepare_transfer_def Let_def rbind_eq_Inr fold_undo_balance)
  have wf: "bt_wf (nl_balances l)" "bt_wf (nl_next_nonces l)" "bt_wf (pt_balances q)"
    using inv prepared_balances_wf [OF q] by (auto simp: s journal_def tracks_def)
  have outside: "map_of (merged (nl_balances l) (pt_balances q)) k = map_of (nl_balances l) k"
    if "k \<notin> set (map fst (pt_balances q))" for k
    using that wf by (simp add: merged_get map_add_def map_of_eq_None_iff [THEN iffD2])
  have "tracks (nl_balances l0) (nu_balances u') (nl_balances l')"
    unfolding u' l' commit_transfer_def
    using inv wf outside by (auto intro!: tracks_record_all bt.wf_ins_all simp: s journal_def)
  moreover have "tracks (nl_next_nonces l0) (nu_next_nonces u') (nl_next_nonces l')"
    unfolding u' l' commit_transfer_def
    using inv by (simp add: s journal_def tracks_insert)
  ultimately show "journal l0 s'"
    using inv by (simp add: s journal_def u' l' same_config_def)
qed

lemma credit_journal:
  assumes "journal l0 (l, u)" and "credit l pk amount = Inr l'"
  shows "journal l0 (l', if amount \<noteq> 0 then undo_balance l pk u else u)"
proof (cases "amount = 0")
  case True
  with assms show ?thesis by (simp add: credit_def)
next
  case False
  with assms(2) obtain b where l': "l' = l\<lparr>nl_balances := bt_insert pk b (nl_balances l)\<rparr>"
    by (auto simp: credit_def rbind_eq_Inr)
  have "tracks (nl_balances l0) (bt_or_insert pk (map_of (nl_balances l) pk) (nu_balances u)) (nl_balances l')"
    using assms(1) by (simp add: l' journal_def tracks_insert)
  with assms(1) False show ?thesis by (simp add: journal_def undo_balance_def l' same_config_def)
qed

lemma lock_emission_journal:
  assumes "journal l0 (l, u)" and "lock_emission height pk amount (l, u) = Inr (l', u')"
  shows "journal l0 (l', u')"
proof (cases "amount \<noteq> 0 \<and> nl_reward_maturity l \<noteq> 0")
  case True
  with assms(2) obtain v locked where
    l': "l' = l\<lparr>nl_locked_balances := bt_insert pk locked (nl_locked_balances l),
                nl_pending_rewards := bt_insert v (pk, amount) (nl_pending_rewards l)\<rparr>" and
    u': "u' = u\<lparr>nu_locked_balances := bt_or_insert pk (map_of (nl_locked_balances l) pk) (nu_locked_balances u),
                nu_pending_rewards := bt_or_insert v (map_of (nl_pending_rewards l) v) (nu_pending_rewards u)\<rparr>"
    by (auto simp: lock_emission_def Let_def rbind_eq_Inr undo_locked_balance_def)
  have "tracks (nl_locked_balances l0) (nu_locked_balances u') (nl_locked_balances l')"
    unfolding u' l' using assms(1) by (simp add: journal_def tracks_insert)
  moreover have "tracks (nl_pending_rewards l0) (nu_pending_rewards u') (nl_pending_rewards l')"
    unfolding u' l' using assms(1) by (simp add: journal_def tracks_insert)
  ultimately show ?thesis using assms(1) by (simp add: journal_def u' l' same_config_def)
next
  case False
  with assms show ?thesis by (auto simp: lock_emission_def)
qed

lemma settle_emission_journal:
  assumes "journal l0 (l, u)" and "settle_emission height pk (l, u) = Inr (l', u')"
  shows "journal l0 (l', u')" and "nl_height l' = height"
proof -
  from assms(2) obtain amount l1 l2 issued where
    c: "credit l pk amount = Inr l1" and
    k: "lock_emission height pk amount (l1, if amount \<noteq> 0 then undo_balance l pk u else u) = Inr (l2, u')" and
    l': "l' = l2\<lparr>nl_issued := issued, nl_height := height\<rparr>"
    by (auto simp: settle_emission_def Let_def rbind_eq_Inr)
  from lock_emission_journal [OF credit_journal [OF assms(1) c] k]
  show "journal l0 (l', u')" by (simp add: journal_def l' same_config_def)
  show "nl_height l' = height" by (simp add: l')
qed

lemma prepare_block_journal:
  assumes "prepare_block E l height reward_pk transfers = Inr (l', u)" and "ledger_wf l"
  shows "journal l (l', u)" and "unat (nl_height l') = unat (nl_height l) + 1"
proof -
  from assms(1) obtain l0 l1 u1 where h: "unat height = unat (nl_height l) + 1"
    and unlock: "unlock_rewards l height = Inr l0"
    and fold: "try_fold (block_transfer_step E height reward_pk)
        (l0, record_unlocks l height (undo_new l)) transfers = Inr (l1, u1)"
    and settle: "settle_emission height reward_pk (l1, u1) = Inr (l', u)"
    unfolding prepare_block_def by (rule apply_block_inner_cases)
  have "journal l (l1, u1)"
    using block_journal.run_inv [OF unlock_rewards_journal [OF unlock assms(2)] fold] .
  with settle h show "journal l (l', u)" "unat (nl_height l') = unat (nl_height l) + 1"
    by (auto simp: settle_emission_journal)
qed

lemma undo_prepare_block:
  assumes "prepare_block E l height reward_pk transfers = Inr (l', u)" and "ledger_wf l"
  shows "undo_block l' u = Inr l"
  using prepare_block_journal [OF assms] by (rule journal_undo)

end
