(* ===== verification/Ledger_Behaviour.thy ===== *)
theory Ledger_Behaviour
  imports Ledger_Invariant
begin

text \<open>
  What the native ledger promises over whole runs of blocks: no transfer is applied twice, the coins
  issued follow the halving schedule up to the cap, a block reward stays locked until it matures, and
  a list of transfers that the pending view accepted one by one is accepted as a block.
\<close>

section \<open>Nonces\<close>

text \<open>A transfer is consumed when its sender's next nonce has passed it.\<close>

definition consumed :: "ext \<Rightarrow> native_ledger \<Rightarrow> signed_envelope \<Rightarrow> bool" where
  "consumed E l t \<longleftrightarrow> (case validate_native_transfer E t (nl_network_id l) (nl_minimum_fee l) of
     Inl _ \<Rightarrow> False
   | Inr p \<Rightarrow> unat (tf_nonce p) < unat (next_nonce l (tf_from p)))"

definition nonces_grow :: "native_ledger \<Rightarrow> native_ledger \<Rightarrow> bool" where
  "nonces_grow l l' \<longleftrightarrow> same_config l l' \<and> (\<forall>pk. unat (next_nonce l pk) \<le> unat (next_nonce l' pk))"

lemma nonces_grow_refl: "nonces_grow l l"
  by (simp add: nonces_grow_def same_config_def)

lemma nonces_grow_trans: "nonces_grow l l' \<Longrightarrow> nonces_grow l' l'' \<Longrightarrow> nonces_grow l l''"
  unfolding nonces_grow_def same_config_def by (metis order_trans)

lemma consumed_mono: "consumed E l t \<Longrightarrow> nonces_grow l l' \<Longrightarrow> consumed E l' t"
  by (auto simp: consumed_def nonces_grow_def same_config_def intro: less_le_trans split: sum.splits)

lemma prepare_fields_nonces:
  assumes "prepare_fields l height reward_pk p = Inr q"
  shows "tf_nonce p = next_nonce l (tf_from p)"
    and "unat (next_nonce (commit_transfer l q) pk) = unat (next_nonce l pk) + (if pk = tf_from p then 1 else 0)"
  using assms unfolding prepare_fields_eq_Inr
  by (auto simp: next_nonce_def commit_transfer_def checked_simps)

lemma consumed_rejected:
  assumes "consumed E l t"
  shows "\<exists>expected actual. prepare_transfer E l height reward_pk t = Err (UnexpectedNonce expected actual) \<or>
    prepare_transfer E l height reward_pk t = Err Expired"
  using assms
  by (auto simp: consumed_def prepare_transfer_def prepare_fields_def Let_def rbind_def ensure_def split: sum.splits)

lemma step_consumes:
  assumes "block_transfer_step E height reward_pk (l, u) t = Inr (l', u')"
  shows "\<not> consumed E l t" and "consumed E l' t" and "nonces_grow l l'"
proof -
  from assms obtain p q where p: "validate_native_transfer E t (nl_network_id l) (nl_minimum_fee l) = Inr p"
    and q: "prepare_fields l height (Some reward_pk) p = Inr q" and l': "l' = commit_transfer l q"
    by (rule block_transfer_step_cases)
  note n = prepare_fields_nonces [OF q]
  show "\<not> consumed E l t" using p n(1) by (simp add: consumed_def)
  show "consumed E l' t" using p n by (simp add: consumed_def l')
  show "nonces_grow l l'" using n(2) by (simp add: nonces_grow_def l' same_config_def)
qed

lemma transfers_consume:
  assumes "try_fold (block_transfer_step E height reward_pk) (l, u) ts = Inr (l', u')"
  shows "nonces_grow l l' \<and> distinct ts \<and> (\<forall>t \<in> set ts. \<not> consumed E l t \<and> consumed E l' t)"
  using assms
proof (induction ts arbitrary: l u)
  case Nil
  then show ?case by (simp add: nonces_grow_refl)
next
  case (Cons t ts)
  from Cons.prems obtain l1 u1 where step: "block_transfer_step E height reward_pk (l, u) t = Inr (l1, u1)"
    and rest: "try_fold (block_transfer_step E height reward_pk) (l1, u1) ts = Inr (l', u')"
    by (auto split: sum.splits)
  note c = step_consumes [OF step] and r = Cons.IH [OF rest]
  have "t \<notin> set ts" using c(2) r by blast
  moreover have "\<not> consumed E l x" if "x \<in> set ts" for x
    using r that consumed_mono [OF _ c(3)] by blast
  moreover have "nonces_grow l l'" using c(3) r nonces_grow_trans by blast
  moreover have "consumed E l' t" using c(2) r consumed_mono by blast
  ultimately show ?case using c(1) r by auto
qed

lemma unlock_nonces: "unlock_rewards l height = Inr l' \<Longrightarrow> nl_next_nonces l' = nl_next_nonces l \<and> same_config l l'"
  by (auto simp: unlock_rewards_def rbind_eq_Inr same_config_def)

lemma settle_nonces:
  assumes "settle_emission height pk (l, u) = Inr (l', u')"
  shows "nl_next_nonces l' = nl_next_nonces l \<and> same_config l l'"
proof -
  from assms obtain amount l1 l2 issued where
    "credit l pk amount = Inr l1" and "lock_reward height pk amount l1 l2" and
    l': "l' = l2\<lparr>nl_issued := issued, nl_height := height\<rparr>"
    by (rule settle_emission_steps)
  then show ?thesis
    by (auto simp: credit_def rbind_eq_Inr lock_reward_def same_config_def split: if_splits)
qed

lemma block_consumes:
  assumes "prepare_block E l height reward_pk ts = Inr (l', u)"
  shows "nonces_grow l l' \<and> distinct ts \<and> (\<forall>t \<in> set ts. \<not> consumed E l t \<and> consumed E l' t)"
proof -
  from assms obtain l0 l1 u1 where
    unlock: "unlock_rewards l height = Inr l0" and
    fold: "try_fold (block_transfer_step E height reward_pk) (l0, record_unlocks l height (undo_new l)) ts = Inr (l1, u1)" and
    settle: "settle_emission height reward_pk (l1, u1) = Inr (l', u)"
    unfolding prepare_block_def by (rule apply_block_inner_cases)
  have nn: "next_nonce l0 = next_nonce l" "next_nonce l' = next_nonce l1"
    using unlock_nonces [OF unlock] settle_nonces [OF settle] by (auto simp: next_nonce_def fun_eq_iff)
  then have "nonces_grow l l0" "nonces_grow l1 l'"
    using unlock_nonces [OF unlock] settle_nonces [OF settle] by (auto simp: nonces_grow_def)
  moreover have "consumed E l t = consumed E l0 t" for t
    using unlock_nonces [OF unlock] nn(1) by (simp add: consumed_def same_config_def split: sum.splits)
  ultimately show ?thesis using transfers_consume [OF fold]
    by (metis consumed_mono nonces_grow_trans)
qed

abbreviation transfers_of :: "ledger_block list \<Rightarrow> signed_envelope list" where
  "transfers_of blocks \<equiv> concat (map (\<lambda>(_, _, ts). ts) blocks)"

lemma run_consumes:
  assumes "run_blocks E l blocks = Inr l'"
  shows "nonces_grow l l' \<and> distinct (transfers_of blocks) \<and>
    (\<forall>t \<in> set (transfers_of blocks). \<not> consumed E l t \<and> consumed E l' t)"
  using assms
proof (induction blocks arbitrary: l)
  case Nil
  then show ?case by (simp add: nonces_grow_refl)
next
  case (Cons b blocks)
  obtain h pk ts where b: "b = (h, pk, ts)" by (cases b)
  from Cons.prems obtain l1 u where "prepare_block E l h pk ts = Inr (l1, u)" and rest: "run_blocks E l1 blocks = Inr l'"
    by (auto simp: b ledger_step_eq_Inr split: sum.splits)
  then have c: "nonces_grow l l1" "distinct ts" "\<forall>t \<in> set ts. \<not> consumed E l t \<and> consumed E l1 t"
    using block_consumes by blast+
  note r = Cons.IH [OF rest]
  have "set ts \<inter> set (transfers_of blocks) = {}" using c(3) r by blast
  moreover have "\<forall>t \<in> set (transfers_of blocks). \<not> consumed E l t" using r consumed_mono [OF _ c(1)] by blast
  moreover have "\<forall>t \<in> set ts. consumed E l' t" using c(3) r consumed_mono by blast
  moreover have "nonces_grow l l'" using c(1) r nonces_grow_trans by blast
  ultimately show ?case using c(2,3) r by (auto simp: b)
qed

section \<open>Issuance\<close>

definition reward_at :: "emission_schedule \<Rightarrow> nat \<Rightarrow> nat" where
  "reward_at s height = unat (es_initial_reward s) div 2 ^ (height div unat (es_halving_epoch s))"

lemma block_issues:
  assumes "prepare_block E l height reward_pk ts = Inr (l', u)" and "ledger_inv l"
  shows "unat (nl_issued l') = min (unat (es_total_supply (nl_schedule l)))
      (unat (nl_issued l) + reward_at (nl_schedule l) (unat height))"
    and "same_config l l'"
proof -
  from assms obtain l0 l1 u1 where
    l0: "l0 = l\<lparr>nl_pending_rewards := filter (\<lambda>(u, _). height < u) (nl_pending_rewards l),
              nl_locked_balances := nl_locked_balances l0\<rparr>" and
    l1: "same_outside_accounts l0 l1" and
    settle: "settle_emission height reward_pk (l1, u1) = Inr (l', u)"
    unfolding prepare_block_def by (rule apply_block_inner_stages)
  from settle obtain amount l2 l3 issued where
    e: "emission (nl_schedule l1) height (nl_issued l1) = Inr amount" and
    c: "credit l1 reward_pk amount = Inr l2" and k: "lock_reward height reward_pk amount l2 l3" and
    i: "unat issued = unat (nl_issued l3) + unat amount" and
    l': "l' = l3\<lparr>nl_issued := issued, nl_height := height\<rparr>"
    by (rule settle_emission_steps)
  have "nl_issued l0 = nl_issued l" "same_config l l0"
    by (subst l0, simp add: same_config_def)+
  then have frame: "nl_issued l1 = nl_issued l" "same_config l l1"
    using l1 by (simp_all add: same_outside_accounts_def same_config_def)
  have "same_config l1 l3" "nl_issued l3 = nl_issued l1"
    using c k by (auto simp: credit_def rbind_eq_Inr lock_reward_def same_config_def split: if_splits)
  with frame show "same_config l l'" by (simp add: same_config_def l')
  show "unat (nl_issued l') = min (unat (es_total_supply (nl_schedule l)))
      (unat (nl_issued l) + reward_at (nl_schedule l) (unat height))"
    using e i frame \<open>nl_issued l3 = nl_issued l1\<close>
    by (auto simp: emission_eq_Inr l' reward_at_def same_config_def word_le_nat_alt)
qed

lemma run_issues:
  assumes "run_blocks E l blocks = Inr l'" and "ledger_inv l"
  shows "unat (nl_height l') = unat (nl_height l) + length blocks \<and> same_config l l' \<and>
    unat (nl_issued l') = min (unat (es_total_supply (nl_schedule l)))
      (unat (nl_issued l) + (\<Sum>i < length blocks. reward_at (nl_schedule l) (unat (nl_height l) + Suc i)))"
  using assms
proof (induction blocks arbitrary: l)
  case Nil
  then show ?case
    by (simp add: same_config_def ledger_inv_def accounts_ok_def word_le_nat_alt)
next
  case (Cons b blocks)
  obtain h pk ts where b: "b = (h, pk, ts)" by (cases b)
  from Cons.prems(1) obtain l1 u where p: "prepare_block E l h pk ts = Inr (l1, u)" and rest: "run_blocks E l1 blocks = Inr l'"
    by (auto simp: b ledger_step_eq_Inr split: sum.splits)
  note i = prepare_block_inv [OF p Cons.prems(2)] and j = block_issues [OF p Cons.prems(2)]
  have sched: "nl_schedule l1 = nl_schedule l" using j(2) by (simp add: same_config_def)
  let ?r = "reward_at (nl_schedule l)" and ?S = "unat (es_total_supply (nl_schedule l))"
  have "(\<Sum>i < Suc (length blocks). ?r (unat (nl_height l) + Suc i)) =
      ?r (unat h) + (\<Sum>i < length blocks. ?r (unat h + Suc i))"
    by (simp add: sum.lessThan_Suc_shift i(3) del: sum.lessThan_Suc)
  with Cons.IH [OF rest i(1)] i(2,3) j show ?case
    by (auto simp: sched same_config_def min_def)
qed

section \<open>Maturity of rewards\<close>

lemma pending_total_member: "(v, pk, a) \<in> set pending \<Longrightarrow> unat a \<le> pending_total pending pk"
  by (induction pending) auto

lemma block_keeps_pending:
  assumes "prepare_block E l height reward_pk ts = Inr (l', u)" and "ledger_inv l"
    and "(v, e) \<in> set (nl_pending_rewards l)" and "height < v"
  shows "(v, e) \<in> set (nl_pending_rewards l')"
proof -
  from assms(1,2) obtain l0 l1 u1 where
    l0: "l0 = l\<lparr>nl_pending_rewards := filter (\<lambda>(u, _). height < u) (nl_pending_rewards l),
              nl_locked_balances := nl_locked_balances l0\<rparr>"
    and w: "pending_window height (nl_height l) l0" and h: "unat height = unat (nl_height l) + 1"
    and l1: "same_outside_accounts l0 l1" and ok: "accounts_ok l1"
    and settle: "settle_emission height reward_pk (l1, u1) = Inr (l', u)"
    unfolding prepare_block_def by (rule apply_block_inner_stages)
  from settle obtain amount l2 l3 issued where
    c: "credit l1 reward_pk amount = Inr l2" and k: "lock_reward height reward_pk amount l2 l3" and
    l': "l' = l3\<lparr>nl_issued := issued, nl_height := height\<rparr>"
    by (rule settle_emission_steps)
  have "(v, e) \<in> set (nl_pending_rewards l0)" using assms(3,4) by (subst l0) (cases e, simp)
  with l1 have in1: "(v, e) \<in> set (nl_pending_rewards l1)" by (simp add: same_outside_accounts_def)
  have l2: "nl_pending_rewards l2 = nl_pending_rewards l1" "nl_reward_maturity l2 = nl_reward_maturity l1"
    using credit_eq_Inr(1) [OF c] by (metis native_ledger.select_convs native_ledger.surjective native_ledger.update_convs(5))+
  have bound: "unat v \<le> unat (nl_reward_maturity l1) + unat (nl_height l)"
    using w in1 l1 by (cases e) (auto simp: pending_window_def same_outside_accounts_def same_config_def)
  have wf: "bt_wf (nl_pending_rewards l1)" using ok by (simp add: accounts_ok_def ledger_wf_def)
  have "map_of (nl_pending_rewards l1) v = Some e" using in1 wf by (simp add: bt_wf_distinct)
  then have "map_of (nl_pending_rewards l3) v = Some e"
    using k bound h l2 by (auto simp: lock_reward_def split: if_splits)
  then show ?thesis by (simp add: l' map_of_SomeD)
qed

lemma run_keeps_pending:
  assumes "run_blocks E l blocks = Inr l'" and "ledger_inv l"
    and "(v, e) \<in> set (nl_pending_rewards l)" and "nl_height l' < v"
  shows "(v, e) \<in> set (nl_pending_rewards l')"
  using assms
proof (induction blocks arbitrary: l)
  case Nil
  then show ?case by simp
next
  case (Cons b blocks)
  obtain h pk ts where b: "b = (h, pk, ts)" by (cases b)
  from Cons.prems(1) obtain l1 u where p: "prepare_block E l h pk ts = Inr (l1, u)" and rest: "run_blocks E l1 blocks = Inr l'"
    by (auto simp: b ledger_step_eq_Inr split: sum.splits)
  note i = prepare_block_inv [OF p Cons.prems(2)]
  have "h < v" using run_issues [OF rest i(1)] i(2) Cons.prems(4) by (simp add: word_less_nat_alt)
  from Cons.IH [OF rest i(1) block_keeps_pending [OF p Cons.prems(2,3) this] Cons.prems(4)]
  show ?case .
qed

lemma block_adds_pending:
  assumes "prepare_block E l height reward_pk ts = Inr (l', u)" and "ledger_inv l"
    and "emission (nl_schedule l) height (nl_issued l) = Inr amount"
    and "amount \<noteq> 0" and "nl_reward_maturity l \<noteq> 0"
  shows "\<exists>v. unat v = unat height + unat (nl_reward_maturity l) \<and>
    (v, reward_pk, amount) \<in> set (nl_pending_rewards l')"
proof -
  from assms(1,2) obtain l0 l1 u1 where
    l0: "l0 = l\<lparr>nl_pending_rewards := filter (\<lambda>(u, _). height < u) (nl_pending_rewards l),
              nl_locked_balances := nl_locked_balances l0\<rparr>"
    and l1: "same_outside_accounts l0 l1"
    and settle: "settle_emission height reward_pk (l1, u1) = Inr (l', u)"
    unfolding prepare_block_def by (rule apply_block_inner_stages)
  from settle obtain a l2 l3 issued where
    e: "emission (nl_schedule l1) height (nl_issued l1) = Inr a" and
    c: "credit l1 reward_pk a = Inr l2" and k: "lock_reward height reward_pk a l2 l3" and
    l': "l' = l3\<lparr>nl_issued := issued, nl_height := height\<rparr>"
    by (rule settle_emission_steps)
  have "nl_schedule l0 = nl_schedule l" "nl_issued l0 = nl_issued l" "nl_reward_maturity l0 = nl_reward_maturity l"
    by (subst l0, simp)+
  with l1 have l1': "nl_schedule l1 = nl_schedule l" "nl_issued l1 = nl_issued l" "nl_reward_maturity l1 = nl_reward_maturity l"
    by (simp_all add: same_outside_accounts_def same_config_def)
  with e assms(3) have a: "a = amount" by simp
  have m: "nl_reward_maturity l2 = nl_reward_maturity l"
    using c l1'(3) by (auto simp: credit_def rbind_eq_Inr split: if_splits)
  from k obtain v where v: "unat v = unat height + unat (nl_reward_maturity l)"
    and l3: "nl_pending_rewards l3 = bt_insert v (reward_pk, amount) (nl_pending_rewards l2)"
    using assms(4,5) by (auto simp: lock_reward_def a m)
  have "map_of (nl_pending_rewards l') v = Some (reward_pk, amount)" by (simp add: l' l3)
  then show ?thesis using v map_of_SomeD by fastforce
qed

section \<open>Acceptance\<close>

text \<open>With the accounts in order, no credit overflows: the coins in circulation fit the word.\<close>

lemma stage_credit_total:
  assumes "bt_wf staged" and "bt_wf (nl_balances l)"
    and "bt_sum (merged (nl_balances l) staged) + unat amount < 2 ^ 128"
  shows "\<exists>staged'. stage_credit l staged pk amount = Inr staged'"
proof -
  have "bt_get_or (balance l pk) staged pk = bt_get_or 0 (merged (nl_balances l) staged) pk"
    using merged_get_or [OF assms(2,1)] by (simp add: balance_def)
  then have "unat (bt_get_or (balance l pk) staged pk) + unat amount < 2 ^ 128"
    using bt_get_le_sum [of "merged (nl_balances l) staged" pk] assms(3) by simp
  then show ?thesis by (simp add: stage_credit_def checked_add_def)
qed

lemma prepare_fields_total:
  assumes "accounts_ok l" and "height \<le> tf_valid_before p" and "tf_nonce p = next_nonce l (tf_from p)"
    and "unat (tf_nonce p) + 1 < 2 ^ 64"
    and "unat (tf_amount p) + unat (tf_fee p) + unat (locked_balance l (tf_from p)) \<le> unat (balance l (tf_from p))"
  shows "\<exists>q. prepare_fields l height (Some reward_pk) p = Inr q"
proof -
  let ?m = "nl_balances l" and ?from = "tf_from p"
  have wf: "bt_wf ?m" and sum: "bt_sum ?m < 2 ^ 128"
    using assms(1) unat_u128_less [of "nl_issued l"] by (auto simp: accounts_ok_def ledger_wf_def)
  have lt: "unat (tf_amount p) + unat (tf_fee p) < 2 ^ 128"
    using assms(5) unat_u128_less [of "balance l ?from"] by simp
  obtain debit where debit: "checked_add (tf_amount p) (tf_fee p) = Some debit"
    "unat debit = unat (tf_amount p) + unat (tf_fee p)"
    using lt by (auto simp: checked_add_def unat_word_ariths)
  obtain spendable where spendable: "checked_sub (balance l ?from) (locked_balance l ?from) = Some spendable"
    "debit \<le> spendable"
    using assms(5) debit(2) by (auto simp: checked_sub_def word_le_nat_alt unat_sub)
  obtain remaining where remaining: "checked_sub (balance l ?from) debit = Some remaining"
    "unat remaining = unat (balance l ?from) - unat debit"
    using assms(5) debit(2) by (auto simp: checked_sub_def word_le_nat_alt unat_sub)
  obtain nonce where nonce: "checked_add (tf_nonce p) 1 = Some nonce"
    using assms(4) by (simp add: checked_add_def)
  let ?b0 = "bt_insert ?from remaining []"
  have s0: "bt_sum (merged ?m ?b0) + unat debit = bt_sum ?m"
    using bt_sum_insert [OF wf, of ?from remaining] remaining(2) assms(5) debit(2) by (simp add: balance_def)
  have "bt_sum (merged ?m ?b0) + unat (tf_amount p) < 2 ^ 128"
    using s0 debit(2) sum by linarith
  then obtain b1 where b1: "stage_credit l ?b0 (tf_to p) (tf_amount p) = Inr b1"
    using stage_credit_total [of ?b0 l] wf by (auto simp: bt_wf_def)
  note e1 = stage_credit_effect [OF b1 _ wf]
  have "bt_wf b1" using e1(1) by (simp add: bt_wf_def)
  moreover have "bt_sum (merged ?m b1) + unat (tf_fee p) < 2 ^ 128"
    using e1(2) s0 debit(2) sum by (simp add: bt_wf_def)
  ultimately obtain b2 where "stage_credit l b1 reward_pk (tf_fee p) = Inr b2"
    using stage_credit_total [of b1 l "tf_fee p"] wf by blast
  with assms(2,3) debit spendable remaining nonce b1 show ?thesis
    by (auto simp: prepare_fields_def spendable_balance_def Let_def rbind_def ensure_def)
qed

lemma settle_emission_total:
  assumes "accounts_ok l" and "es_halving_epoch (nl_schedule l) \<noteq> 0"
    and "unat height + unat (nl_reward_maturity l) < 2 ^ 64"
  shows "\<exists>r. settle_emission height pk (l, u) = Inr r"
proof -
  have le: "nl_issued l \<le> es_total_supply (nl_schedule l)" and sum: "bt_sum (nl_balances l) = unat (nl_issued l)"
    and locked: "unat (locked_balance l pk) \<le> unat (balance l pk)"
    using assms(1) by (auto simp: accounts_ok_def word_le_nat_alt)
  have "\<exists>amount. emission (nl_schedule l) height (nl_issued l) = Inr amount"
    using assms(2) le by (simp add: emission_def Let_def checked_sub_def ensure_def)
  then obtain amount where e: "emission (nl_schedule l) height (nl_issued l) = Inr amount" ..
  have fits: "unat (nl_issued l) + unat amount < 2 ^ 128"
    using e le unat_u128_less [of "es_total_supply (nl_schedule l)"]
    by (auto simp: emission_eq_Inr word_le_nat_alt)
  have bal: "unat (balance l pk) + unat amount < 2 ^ 128"
    using bt_get_le_sum [of "nl_balances l" pk] sum fits by (simp add: balance_def)
  then have "\<exists>l1. credit l pk amount = Inr l1" by (simp add: credit_def checked_add_def)
  then obtain l1 where l1: "credit l pk amount = Inr l1" ..
  have frame: "nl_reward_maturity l1 = nl_reward_maturity l" "locked_balance l1 pk = locked_balance l pk"
    "nl_issued l1 = nl_issued l"
    using l1 by (auto simp: credit_def rbind_eq_Inr locked_balance_def split: if_splits)
  let ?u = "if amount \<noteq> 0 then undo_balance l pk u else u"
  have "\<exists>l2 u2. lock_emission height pk amount (l1, ?u) = Inr (l2, u2) \<and> nl_issued l2 = nl_issued l"
    using assms(3) bal locked by (auto simp: lock_emission_def checked_add_def frame Let_def)
  then obtain l2 u2 where "lock_emission height pk amount (l1, ?u) = Inr (l2, u2)" "nl_issued l2 = nl_issued l"
    by blast
  with fits e l1 show ?thesis
    by (simp add: settle_emission_def Let_def checked_add_def)
qed

text \<open>The pending view charges the fee and credits nobody; the block pays it to the reward key.\<close>

definition pending_sim :: "native_ledger \<Rightarrow> native_ledger \<Rightarrow> bool" where
  "pending_sim lp lb \<longleftrightarrow> same_outside_accounts lp lb \<and> next_nonce lb = next_nonce lp \<and>
     (\<forall>pk. unat (balance lp pk) \<le> unat (balance lb pk)) \<and> ledger_wf lp \<and> accounts_ok lb"

lemma pending_push_sim:
  assumes "pending_push E v t = Inr v'" and "pending_sim (pv_ledger v) lb"
  shows "\<exists>lb' u'. block_transfer_step E (pv_height v) reward_pk (lb, u) t = Inr (lb', u') \<and>
    pending_sim (pv_ledger v') lb' \<and> pv_height v' = pv_height v"
proof -
  let ?lp = "pv_ledger v"
  from assms(1) obtain p q where p: "validate_native_transfer E t (nl_network_id ?lp) (nl_minimum_fee ?lp) = Inr p"
    and q: "prepare_fields ?lp (pv_height v) None p = Inr q"
    and v': "v' = v\<lparr>pv_ledger := commit_transfer ?lp q\<rparr>"
    by (auto simp: pending_push_def pending_prepare_def pending_commit_def prepare_transfer_def rbind_eq_Inr)
  note sim = assms(2) [unfolded pending_sim_def]
  have wfp: "ledger_wf ?lp" and wfb: "ledger_wf lb" using sim by (simp_all add: accounts_ok_def)
  have bal: "unat (balance ?lp k) \<le> unat (balance lb k)" for k using sim by blast
  note eff = prepare_fields_effect [OF q wfp] and n = prepare_fields_nonces [OF q]
  have locked: "locked_balance lb = locked_balance ?lp"
    using sim by (simp add: locked_balance_def same_outside_accounts_def fun_eq_iff)
  have "unat (tf_nonce p) + 1 < 2 ^ 64"
    using n(2) [of "tf_from p"] n(1) unat_u64_less [of "next_nonce (commit_transfer ?lp q) (tf_from p)"] by simp
  moreover have "unat (tf_amount p) + unat (tf_fee p) + unat (locked_balance lb (tf_from p)) \<le> unat (balance lb (tf_from p))"
    using eff(4) bal [of "tf_from p"] by (simp add: locked)
  moreover have "pv_height v \<le> tf_valid_before p" "tf_nonce p = next_nonce lb (tf_from p)"
    using eff(8) n(1) sim by auto
  ultimately obtain q' where q': "prepare_fields lb (pv_height v) (Some reward_pk) p = Inr q'"
    using prepare_fields_total sim by blast
  let ?lb = "commit_transfer lb q'"
  have "unat (balance (commit_transfer ?lp q) k) \<le> unat (balance ?lb k)" for k
    using bal [of k] eff(1) [of k] prepare_fields_effect(1) [OF q' wfb, of k]
    by (cases "k = tf_from p") (simp_all add: fee_to_def)
  moreover have "next_nonce ?lb = next_nonce (commit_transfer ?lp q)"
  proof
    show "next_nonce ?lb k = next_nonce (commit_transfer ?lp q) k" for k
      using n(2) [of k] prepare_fields_nonces(2) [OF q', of k] sim by (simp add: word_unat_eq_iff)
  qed
  moreover have "same_outside_accounts (commit_transfer ?lp q) ?lb"
    using sim by (simp add: same_outside_accounts_def same_config_def)
  moreover have "ledger_wf (commit_transfer ?lp q)" by (rule eff(3))
  moreover have "accounts_ok ?lb" using prepare_fields_accounts_ok [OF q'] sim by blast
  ultimately have "pending_sim (commit_transfer ?lp q) ?lb" by (simp add: pending_sim_def)
  moreover have "prepare_transfer E lb (pv_height v) (Some reward_pk) t = Inr q'"
    using p q' sim by (simp add: prepare_transfer_def same_outside_accounts_def same_config_def)
  ultimately show ?thesis by (simp add: block_transfer_step_def v' Let_def)
qed

lemma pending_pushes_sim:
  assumes "try_fold (pending_push E) v ts = Inr v'" and "pending_sim (pv_ledger v) lb"
  shows "\<exists>lb' u'. try_fold (block_transfer_step E (pv_height v) reward_pk) (lb, u) ts = Inr (lb', u') \<and>
    pending_sim (pv_ledger v') lb'"
  using assms
proof (induction ts arbitrary: v lb u)
  case Nil
  then show ?case by auto
next
  case (Cons t ts)
  from Cons.prems(1) obtain v1 where push: "pending_push E v t = Inr v1" and rest: "try_fold (pending_push E) v1 ts = Inr v'"
    by (auto split: sum.splits)
  from pending_push_sim [OF push Cons.prems(2), of reward_pk u] obtain lb1 u1 where
    "block_transfer_step E (pv_height v) reward_pk (lb, u) t = Inr (lb1, u1)"
    "pending_sim (pv_ledger v1) lb1" "pv_height v1 = pv_height v" by blast
  with Cons.IH [OF rest, of lb1 u1] show ?case by simp
qed

lemma pending_block_accepted:
  assumes "ledger_inv l" and "pending_view l = Inr v" and "try_fold (pending_push E) v ts = Inr v'"
    and "is_ok (hex32_from_hex E reward_pk)" and "es_halving_epoch (nl_schedule l) \<noteq> 0"
    and "unat (pv_height v) + unat (nl_reward_maturity l) < 2 ^ 64"
  shows "is_ok (prepare_block E l (pv_height v) reward_pk ts)"
proof -
  from assms(2) have h: "checked_add (nl_height l) 1 = Some (pv_height v)"
    and unlock: "unlock_rewards l (pv_height v) = Inr (pv_ledger v)"
    by (auto simp: pending_view_def rbind_eq_Inr ok_or_eq_Inr)
  let ?lp = "pv_ledger v" and ?u = "record_unlocks l (pv_height v) (undo_new l)"
  from unlock_rewards_ok [of l _ _ "pv_height v"] assms(1) unlock have ok: "accounts_ok ?lp"
    by (force simp: ledger_inv_def)
  then have "pending_sim ?lp ?lp"
    by (simp add: pending_sim_def same_outside_accounts_def same_config_def accounts_ok_def)
  from pending_pushes_sim [OF assms(3) this, of reward_pk ?u] obtain lb u' where
    fold: "try_fold (block_transfer_step E (pv_height v) reward_pk) (?lp, ?u) ts = Inr (lb, u')"
    and "pending_sim (pv_ledger v') lb" by blast
  then have "accounts_ok lb" by (simp add: pending_sim_def)
  moreover have "nl_schedule lb = nl_schedule l \<and> nl_reward_maturity lb = nl_reward_maturity l"
    using block_transfers.run_inv [OF _ fold, of ?lp] ok unlock_nonces [OF unlock]
    by (simp add: same_outside_accounts_def same_config_def)
  ultimately obtain r where "settle_emission (pv_height v) reward_pk (lb, u') = Inr r"
    using settle_emission_total assms(5,6) by metis
  with h unlock fold assms(4) show ?thesis
    by (auto simp: prepare_block_def apply_block_inner_def is_ok_iff rbind_def ensure_def map_err_def Let_def
        split: sum.splits)
qed

section \<open>No panic\<close>

text \<open>
  The two places where the ledger could panic are the unchecked subtraction in \<open>spendable_balance\<close>
  and the division by the halving epoch.
\<close>

lemma validate_no_panic: "validate_native_transfer E t net fee \<noteq> Inl Panic"
  by (auto simp: validate_native_transfer_def decimal_def result_simps split: if_splits)

lemma prepare_fields_no_panic: "accounts_ok l \<Longrightarrow> prepare_fields l height reward_pk p \<noteq> Inl Panic"
  by (auto simp: prepare_fields_def spendable_balance_def stage_credit_def Let_def result_simps checked_sub_def
      accounts_ok_def split: if_splits option.splits)

lemma block_transfer_step_no_panic:
  "accounts_ok l \<Longrightarrow> block_transfer_step E height reward_pk (l, u) t \<noteq> Inl Panic"
  by (auto simp: block_transfer_step_def prepare_transfer_def rbind_eq_Inl Let_def validate_no_panic prepare_fields_no_panic)

lemma settle_emission_no_panic:
  "es_halving_epoch (nl_schedule l) \<noteq> 0 \<Longrightarrow> settle_emission height pk (l, u) \<noteq> Inl Panic"
  by (auto simp: settle_emission_def lock_emission_def credit_def emission_def Let_def result_simps split: if_splits)

lemma unlock_no_panic: "unlock_rewards l height \<noteq> Inl Panic"
proof -
  have "unlock_loop height pending locked \<noteq> Inl Panic" for pending locked
    by (induction height pending locked rule: unlock_loop.induct) (auto simp: rbind_eq_Inl ok_or_eq_Inl)
  then show ?thesis by (auto simp: unlock_rewards_def rbind_eq_Inl)
qed

lemma prepare_block_no_panic:
  assumes "ledger_inv l" and "es_halving_epoch (nl_schedule l) \<noteq> 0"
  shows "prepare_block E l height reward_pk ts \<noteq> Inl Panic"
proof
  let ?u = "record_unlocks l height (undo_new l)" and ?step = "block_transfer_step E height reward_pk"
  assume "prepare_block E l height reward_pk ts = Inl Panic"
  then obtain l0 where l0: "unlock_rewards l height = Inr l0"
    and "try_fold ?step (l0, ?u) ts = Inl Panic \<or>
      (\<exists>s. try_fold ?step (l0, ?u) ts = Inr s \<and> settle_emission height reward_pk s = Inl Panic)"
    by (auto simp: prepare_block_def apply_block_inner_def Let_def rbind_eq_Inl ok_or_eq_Inl ensure_eq_Inl
        map_err_eq_Inl unlock_no_panic)
  moreover have ok: "accounts_ok l0 \<and> same_outside_accounts l0 l0" and sched: "nl_schedule l0 = nl_schedule l"
    using unlock_rewards_ok [of l _ _ height] assms(1) l0 unlock_nonces [OF l0]
    by (force simp: ledger_inv_def same_outside_accounts_def same_config_def)+
  ultimately consider (transfer) l1 u1 t where "accounts_ok l1" "?step (l1, u1) t = Inl Panic"
    | (settle) l1 u1 where "same_outside_accounts l0 l1" "settle_emission height reward_pk (l1, u1) = Inl Panic"
    using block_transfers.run_error [of l0 "(l0, ?u)" E height reward_pk ts Panic]
      block_transfers.run_inv [of l0 "(l0, ?u)" E height reward_pk ts] by fastforce
  then show False
  proof cases
    case transfer
    then show False using block_transfer_step_no_panic by blast
  next
    case settle
    then show False using settle_emission_no_panic assms(2) sched
      by (metis same_config_def same_outside_accounts_def)
  qed
qed

end
