(* ===== verification/Ledger_Examples.thy ===== *)
theory Ledger_Examples
  imports Ledger_Audit Ledger_Undo Ledger_Behaviour
begin

text \<open>
  A concrete run of the native ledger, evaluated by rewriting: a network with a reward maturity of
  one block, a first block that rewards one key, and a second block in which that key, its reward
  now unlocked, sends ten units with a fee of two. The theorems on the ledger are applied to it.
\<close>

section \<open>Keys, ledger and transfer\<close>

definition ex_alice :: string where
  "ex_alice = replicate 62 (CHR ''0'') @ ''a1''"

definition ex_bob :: string where
  "ex_bob = replicate 62 (CHR ''0'') @ ''b2''"

definition ex_schedule :: emission_schedule where
  "ex_schedule = \<lparr>es_total_supply = 250, es_initial_reward = 100, es_halving_epoch = 3\<rparr>"

definition ex_ledger0 :: native_ledger where
  "ex_ledger0 = \<lparr>nl_network_id = ''net'', nl_schedule = ex_schedule, nl_height = 0, nl_issued = 0,
     nl_balances = [], nl_next_nonces = [], nl_minimum_fee = 1, nl_reward_maturity = 1,
     nl_locked_balances = [], nl_pending_rewards = []\<rparr>"

definition ex_ledger1 :: native_ledger where
  "ex_ledger1 = ex_ledger0\<lparr>nl_height := 1, nl_issued := 100, nl_balances := [(ex_alice, 100)],
     nl_locked_balances := [(ex_alice, 100)], nl_pending_rewards := [(2, (ex_alice, 100))]\<rparr>"

definition ex_ledger2 :: native_ledger where
  "ex_ledger2 = ex_ledger0\<lparr>nl_height := 2, nl_issued := 200,
     nl_balances := [(ex_alice, 88), (ex_bob, 112)], nl_next_nonces := [(ex_alice, 1)],
     nl_locked_balances := [(ex_bob, 100)], nl_pending_rewards := [(3, (ex_bob, 100))]\<rparr>"

definition ex_payload :: json where
  "ex_payload = JObject
     [(''schema'', JString NATIVE_TRANSFER_SCHEMA), (''from'', JString ex_alice),
      (''to'', JString ex_bob), (''amount'', JString ''10''), (''fee'', JString ''2''),
      (''nonce'', JString ''0''), (''validBefore'', JString ''9'')]"

definition ex_transfer :: signed_envelope where
  "ex_transfer = \<lparr>se_schema = SIGNED_ENVELOPE_SCHEMA, se_payload = ex_payload, se_pk = ex_alice,
     se_signature = ex_alice @ replicate 60 (CHR ''0'') @ ''1d8b'', se_network_id = Some ''net''\<rparr>"

definition ex_fields :: native_transfer_fields where
  "ex_fields = \<lparr>tf_from = ex_alice, tf_to = ex_bob, tf_amount = 10, tf_fee = 2, tf_nonce = 0, tf_valid_before = 9\<rparr>"

definition ex_blocks :: "ledger_block list" where
  "ex_blocks = [(1, ex_alice, []), (2, ex_bob, [ex_transfer])]"

section \<open>Evaluation\<close>

lemmas hex_eval = ref_ext_def ref_hex_decode_to_slice_def hex_digit_def is_lower_hex_def ensure_def numeral_nat

lemma ex_keys_ok:
  "hex32_from_hex ref_ext ex_alice = Inr (replicate 31 0 @ [0xa1])"
  "hex32_from_hex ref_ext ex_bob = Inr (replicate 31 0 @ [0xb2])"
  by (simp_all add: hex32_from_hex_def ex_alice_def ex_bob_def hex_eval)

lemma ex_keys_length: "length ex_alice = 64" "length ex_bob = 64"
  by (simp_all add: ex_alice_def ex_bob_def)

lemma ex_keys_less: "ex_alice < ex_bob"
  by (simp add: ex_alice_def ex_bob_def numeral_nat)

lemma ex_keys_order [simp]: "ex_alice \<noteq> ex_bob" "ex_bob \<noteq> ex_alice" "\<not> ex_bob < ex_alice"
  using ex_keys_less by auto

lemma ex_digest: "digest_for ref_ext ex_payload (Some ''net'') = replicate 30 0 @ [0x1d, 0x8b]"
  by (simp add: digest_for_def canonicalize_def DIGEST_NETWORK_TAG_def as_bytes_def ref_ext_def ref_digest_def)

lemma ex_signature:
  "hex64_from_hex ref_ext (se_signature ex_transfer) = Inr (replicate 31 0 @ [0xa1] @ replicate 30 0 @ [0x1d, 0x8b])"
  by (simp add: hex64_from_hex_def ex_transfer_def ex_alice_def hex_eval)

lemma ex_validate: "validate_native_transfer ref_ext ex_transfer ''net'' 1 = Inr ex_fields"
proof -
  have payload: "ext_transfer_payload_from_value ref_ext ex_payload =
      Some \<lparr>tp_schema = NATIVE_TRANSFER_SCHEMA, tp_from = ex_alice, tp_to = ex_bob, tp_amount = ''10'',
            tp_fee = ''2'', tp_nonce = ''0'', tp_valid_before = ''9''\<rparr>"
    by (simp add: ref_ext_def ex_payload_def)
  have "length (se_signature ex_transfer) = 128"
    by (simp add: ex_transfer_def ex_keys_length)
  then have strict: "verify_strict ref_ext ex_transfer = Inr True"
    using ex_signature
    by (simp add: verify_strict_def decode_hex32_def decode_hex64_def ex_transfer_def ex_keys_length ex_keys_ok
        ex_digest) (simp add: ref_ext_def ensure_def)
  have decimals: "decimal ''10'' = Inr (10 :: u128)" "decimal ''2'' = Inr (2 :: u128)"
    "decimal ''0'' = Inr (0 :: u64)" "decimal ''9'' = Inr (9 :: u64)"
    by (simp_all add: decimal_def is_ascii_digit_def parse_word_def parse_uint_def digit_val_def)
  show ?thesis
    unfolding validate_native_transfer_def strict
    by (simp add: ex_transfer_def payload ex_keys_ok decimals ensure_def ex_fields_def)
qed

lemmas block_eval = prepare_block_def apply_block_inner_def checked_add_def checked_sub_def ensure_def Let_def
  unlock_rewards_def settle_emission_def lock_emission_def credit_def emission_def balance_def locked_balance_def
  undo_balance_def undo_locked_balance_def bt_or_insert_def record_unlocks_def undo_new_def
  ex_schedule_def ex_keys_ok bt_get_or_def

lemma ex_block1: "\<exists>u. prepare_block ref_ext ex_ledger0 1 ex_alice [] = Inr (ex_ledger1, u)"
  by (simp add: block_eval ex_ledger0_def ex_ledger1_def)

lemma ex_block2: "\<exists>u. prepare_block ref_ext ex_ledger1 2 ex_bob [ex_transfer] = Inr (ex_ledger2, u)"
  by (simp add: block_eval ex_ledger0_def ex_ledger1_def ex_ledger2_def bt_remove_def block_transfer_step_def
      prepare_transfer_def ex_validate prepare_fields_def ex_fields_def spendable_balance_def next_nonce_def
      stage_credit_def commit_transfer_def ex_keys_less)

lemma ex_run: "run_blocks ref_ext ex_ledger0 ex_blocks = Inr ex_ledger2"
  using ex_block1 ex_block2 unfolding ex_blocks_def try_fold.simps
  by (auto simp: ledger_step_def apply_block_def)

lemma ex_ledger0_new: "new_with_rules ''net'' ex_schedule 1 1 = Inr ex_ledger0"
  by (simp add: new_with_rules_def ex_ledger0_def)

lemma ex_ledgers_inv: "ledger_inv ex_ledger0" "ledger_inv ex_ledger1" "ledger_inv ex_ledger2"
  using new_with_rules_inv [OF ex_ledger0_new] ex_block1 ex_block2 prepare_block_inv(1) by blast+

end
