(* ===== verification/Ledger_Theorems.thy ===== *)
theory Ledger_Theorems
  imports Ledger_Examples
begin

text \<open>
  The promises of the native ledger, each with the run of the example network it is applied to.
\<close>

text \<open>C1. Every ledger reached from a new one by accepted blocks keeps the accounting invariant and
  passes the node's own audit: the balances add up to the issued amount, which never exceeds the
  supply cap, and the locked and the spendable totals partition it.\<close>

theorem reachable_ledger_audits:
  assumes "new_with_rules network_id schedule minimum_fee maturity = Inr l"
    and "run_blocks E l blocks = Inr l'"
  shows "ledger_inv l' \<and> (\<exists>a. audit l' = Inr a \<and> na_issued a = nl_issued l' \<and>
    na_total_balance a = na_issued a \<and> na_issued a \<le> na_supply_cap a \<and> na_supply_cap a = es_total_supply schedule \<and>
    unat (na_total_locked a) + unat (na_total_spendable a) = unat (na_issued a))"
proof -
  have inv: "ledger_inv l" and sched: "nl_schedule l = schedule"
    using assms(1) new_with_rules_inv by (auto simp: new_with_rules_def split: if_splits)
  have inv': "ledger_inv l'" using ledger.run_inv [OF inv assms(2)] .
  have "nl_schedule l' = schedule" using run_issues [OF assms(2) inv] sched by (simp add: same_config_def)
  moreover have "nl_issued l' \<le> es_total_supply (nl_schedule l')"
    using inv' by (simp add: ledger_inv_def accounts_ok_def)
  ultimately show ?thesis using inv' audit_passes [OF inv'] by metis
qed

theorem reachable_ledger_audits_witness:
  "ledger_inv ex_ledger2 \<and> is_ok (audit ex_ledger2) \<and>
   run_blocks ref_ext ex_ledger0 ex_blocks = Inr ex_ledger2"
  using reachable_ledger_audits [OF ex_ledger0_new ex_run] ex_run by (auto simp: is_ok_iff)

text \<open>C15. On well-formed maps the audit is exact: it passes if and only if the ledger satisfies the
  invariant that blocks keep, so it reports every ledger the block operations cannot produce by
  accounting.\<close>

theorem audit_exact:
  assumes "ledger_wf l"
  shows "is_ok (audit l) \<longleftrightarrow> ledger_inv l"
  using assms by (rule audit_iff_inv)

theorem audit_exact_witness:
  "ledger_inv ex_ledger2 \<and> is_ok (audit ex_ledger2) \<and>
   \<not> is_ok (audit (ex_ledger2\<lparr>nl_locked_balances := []\<rparr>))"
proof -
  have wf: "ledger_wf ex_ledger2" using ex_ledgers_inv(3) by (simp add: ledger_inv_def accounts_ok_def)
  then have wf': "ledger_wf (ex_ledger2\<lparr>nl_locked_balances := []\<rparr>)" by (simp add: ledger_wf_def)
  have "\<not> ledger_inv (ex_ledger2\<lparr>nl_locked_balances := []\<rparr>)"
    by (auto simp: ledger_inv_def accounts_ok_def locks_match_def ex_ledger2_def intro!: exI [of _ ex_bob])
  with audit_exact [OF wf] audit_exact [OF wf'] ex_ledgers_inv(3) show ?thesis by simp
qed

text \<open>C3. Undoing a block is exact: \<open>undo_block\<close> with the journal that \<open>prepare_block\<close> returned gives
  back the ledger before the block, entry by entry, including absent entries.\<close>

theorem undo_block_inverts:
  assumes "ledger_wf l" and "prepare_block E l height reward_pk transfers = Inr (l', u)"
  shows "undo_block l' u = Inr l"
  using assms(2,1) by (rule undo_prepare_block)

theorem undo_block_inverts_witness:
  "\<exists>u. prepare_block ref_ext ex_ledger1 2 ex_bob [ex_transfer] = Inr (ex_ledger2, u) \<and>
     undo_block ex_ledger2 u = Inr ex_ledger1"
proof -
  obtain u where u: "prepare_block ref_ext ex_ledger1 2 ex_bob [ex_transfer] = Inr (ex_ledger2, u)"
    using ex_block2 by blast
  moreover have "ledger_wf ex_ledger1" using ex_ledgers_inv(2) by (simp add: ledger_inv_def accounts_ok_def)
  ultimately show ?thesis using undo_block_inverts [of ex_ledger1 ref_ext 2 ex_bob "[ex_transfer]" ex_ledger2 u] by blast
qed

text \<open>C5. No replay: in an accepted run of blocks no signed transfer occurs twice, in one block or in
  different ones, and any attempt to prepare one of them again, for a block or for the pending view,
  is rejected as expired or for its nonce.\<close>

theorem transfers_never_replayed:
  assumes "run_blocks E l blocks = Inr l'"
  shows "distinct (transfers_of blocks) \<and>
    (\<forall>t \<in> set (transfers_of blocks). \<forall>height reward_pk. \<exists>expected actual.
       prepare_transfer E l' height reward_pk t \<in> {Inl Expired, Inl (UnexpectedNonce expected actual)})"
  using run_consumes [OF assms] consumed_rejected [of E l'] by blast

theorem transfers_never_replayed_witness:
  "\<exists>expected actual. prepare_transfer ref_ext ex_ledger2 3 None ex_transfer
     \<in> {Inl Expired, Inl (UnexpectedNonce expected actual)}"
  using transfers_never_replayed [OF ex_run] by (simp add: ex_blocks_def)

text \<open>C16. Issuance: after a run of blocks from a new ledger the issued amount is the sum of the halving
  schedule's rewards for the heights so far, cut off at the supply cap.\<close>

theorem issuance_follows_schedule:
  assumes "new_with_rules network_id schedule minimum_fee maturity = Inr l"
    and "run_blocks E l blocks = Inr l'"
  shows "unat (nl_height l') = length blocks \<and>
    unat (nl_issued l') = min (unat (es_total_supply schedule))
      (\<Sum>i < length blocks. unat (es_initial_reward schedule) div 2 ^ (Suc i div unat (es_halving_epoch schedule)))"
proof -
  have "ledger_inv l" "nl_height l = 0" "nl_issued l = 0" "nl_schedule l = schedule"
    using assms(1) new_with_rules_inv by (auto simp: new_with_rules_def split: if_splits)
  with run_issues [OF assms(2)] show ?thesis by (simp add: reward_at_def)
qed

theorem issuance_follows_schedule_witness:
  "unat (nl_issued ex_ledger2) = 200 \<and>
   200 = min (unat (es_total_supply ex_schedule)) (\<Sum>i < length ex_blocks.
      unat (es_initial_reward ex_schedule) div 2 ^ (Suc i div unat (es_halving_epoch ex_schedule)))"
  using issuance_follows_schedule [OF ex_ledger0_new ex_run, THEN conjunct2] by (simp add: ex_ledger2_def)

text \<open>C17. Maturity: the reward of a block stays locked, inside its owner's balance, in every ledger
  reached before the block's height plus the maturity distance.\<close>

theorem reward_locked_until_mature:
  assumes "ledger_inv l" and "prepare_block E l height reward_pk ts = Inr (l1, u)"
    and "emission (nl_schedule l) height (nl_issued l) = Inr amount"
    and "run_blocks E l1 blocks = Inr l2"
    and "unat (nl_height l2) < unat height + unat (nl_reward_maturity l)"
  shows "unat amount \<le> unat (locked_balance l2 reward_pk) \<and> locked_balance l2 reward_pk \<le> balance l2 reward_pk"
proof -
  have inv1: "ledger_inv l1" using prepare_block_inv(1) [OF assms(2,1)] .
  have inv2: "ledger_inv l2" using ledger.run_inv [OF inv1 assms(4)] .
  have locked: "unat (locked_balance l2 reward_pk) = pending_total (nl_pending_rewards l2) reward_pk"
    "locked_balance l2 reward_pk \<le> balance l2 reward_pk"
    using inv2 by (auto simp: ledger_inv_def accounts_ok_def locks_match_def locked_balance_def)
  have "unat amount \<le> pending_total (nl_pending_rewards l2) reward_pk"
  proof (cases "amount = 0")
    case False
    have "unat height = unat (nl_height l1)" "unat (nl_height l1) \<le> unat (nl_height l2)"
      using run_issues [OF assms(4) inv1] prepare_block_inv(2) [OF assms(2,1)] by simp_all
    with assms(5) have "nl_reward_maturity l \<noteq> 0" by auto
    from block_adds_pending [OF assms(2,1,3) False this] obtain v where
      v: "unat v = unat height + unat (nl_reward_maturity l)"
      "(v, reward_pk, amount) \<in> set (nl_pending_rewards l1)" by blast
    have "nl_height l2 < v" using v(1) assms(5) by (simp add: word_less_nat_alt)
    from run_keeps_pending [OF assms(4) inv1 v(2) this] show ?thesis by (rule pending_total_member)
  qed simp
  with locked show ?thesis by simp
qed

theorem reward_locked_until_mature_witness:
  "unat (100 :: u128) \<le> unat (locked_balance ex_ledger1 ex_alice) \<and>
   locked_balance ex_ledger1 ex_alice \<le> balance ex_ledger1 ex_alice"
proof -
  obtain u where u: "prepare_block ref_ext ex_ledger0 1 ex_alice [] = Inr (ex_ledger1, u)"
    using ex_block1 by blast
  have "emission (nl_schedule ex_ledger0) 1 (nl_issued ex_ledger0) = Inr 100"
    by (simp add: emission_def ex_ledger0_def ex_schedule_def checked_sub_def)
  from reward_locked_until_mature [OF ex_ledgers_inv(1) u this, of "[]" ex_ledger1] show ?thesis
    by (simp add: ex_ledger1_def ex_ledger0_def)
qed



text \<open>C18. A block never panics: on a ledger that satisfies the invariant, with a schedule whose halving
  epoch is not zero (what \<open>EmissionSchedule::new\<close> ensures), \<open>apply_block\<close> returns a result or a
  declared error, and on an error it leaves the ledger as it was.\<close>

theorem apply_block_no_panic:
  assumes "ledger_inv l" and "es_halving_epoch (nl_schedule l) \<noteq> 0"
    and "apply_block E l height reward_pk ts = (r, l')"
  shows "r \<noteq> Inl Panic \<and> (\<forall>e. r = Inl e \<longrightarrow> l' = l) \<and> ledger_inv l'"
  using assms(3) prepare_block_no_panic [OF assms(1,2)] prepare_block_inv(1) [OF _ assms(1)] assms(1)
  by (auto simp: apply_block_def split: sum.splits)

theorem apply_block_no_panic_witness:
  "apply_block ref_ext ex_ledger1 3 ex_bob [] = (Inl (UnexpectedHeight 2 3), ex_ledger1) \<and> ledger_inv ex_ledger1"
proof -
  have "apply_block ref_ext ex_ledger1 3 ex_bob [] = (Inl (UnexpectedHeight 2 3), ex_ledger1)"
    by (simp add: apply_block_def block_eval ex_ledger1_def ex_ledger0_def)
  with apply_block_no_panic [OF ex_ledgers_inv(2) _ this] show ?thesis
    by (simp add: ex_ledger1_def ex_ledger0_def ex_schedule_def)
qed

text \<open>C19. An accepted transfer moves exactly the amount and the fee: the sender pays both out of the
  spendable balance, the recipient and the fee's beneficiary receive theirs, the sum of the balances is
  unchanged when the fee has a beneficiary, and only the sender's nonce advances, by one.\<close>

theorem transfer_effect:
  assumes "ledger_wf l" and "validate_native_transfer E t (nl_network_id l) (nl_minimum_fee l) = Inr p"
    and "prepare_transfer E l height (Some fee_pk) t = Inr q"
  defines "l' \<equiv> commit_transfer l q"
  shows "(\<forall>k. unat (balance l' k) + (if k = tf_from p then unat (tf_amount p) + unat (tf_fee p) else 0) =
        unat (balance l k) + (if k = tf_to p then unat (tf_amount p) else 0) + (if k = fee_pk then unat (tf_fee p) else 0)) \<and>
    bt_sum (nl_balances l') = bt_sum (nl_balances l) \<and>
    unat (tf_amount p) + unat (tf_fee p) + unat (locked_balance l (tf_from p)) \<le> unat (balance l (tf_from p)) \<and>
    (\<forall>k. unat (next_nonce l' k) = unat (next_nonce l k) + (if k = tf_from p then 1 else 0))"
proof -
  have q: "prepare_fields l height (Some fee_pk) p = Inr q"
    using assms(2,3) by (simp add: prepare_transfer_def)
  show ?thesis
    using prepare_fields_effect [OF q assms(1)] prepare_fields_nonces [OF q]
    unfolding l'_def by (simp add: fee_to_def eq_commute)
qed

theorem transfer_effect_witness:
  "\<exists>q. prepare_transfer ref_ext (ex_ledger1\<lparr>nl_locked_balances := []\<rparr>) 2 (Some ex_bob) ex_transfer = Inr q \<and>
     unat (balance (commit_transfer (ex_ledger1\<lparr>nl_locked_balances := []\<rparr>) q) ex_bob) = 12"
proof -
  let ?l = "ex_ledger1\<lparr>nl_locked_balances := []\<rparr>"
  have wf: "ledger_wf ?l" using ex_ledgers_inv(2) by (simp add: ledger_inv_def accounts_ok_def ledger_wf_def)
  have val: "validate_native_transfer ref_ext ex_transfer (nl_network_id ?l) (nl_minimum_fee ?l) = Inr ex_fields"
    by (simp add: ex_ledger1_def ex_ledger0_def ex_validate)
  have "\<exists>q. prepare_transfer ref_ext ?l 2 (Some ex_bob) ex_transfer = Inr q"
    by (simp add: prepare_transfer_def ex_validate prepare_fields_def ex_fields_def spendable_balance_def next_nonce_def
        stage_credit_def ex_keys_less block_eval ex_ledger1_def ex_ledger0_def)
  then obtain q where q: "prepare_transfer ref_ext ?l 2 (Some ex_bob) ex_transfer = Inr q" ..
  have "balance ?l ex_bob = 0" by (simp add: ex_ledger1_def ex_ledger0_def balance_def bt_get_or_def)
  with transfer_effect [OF wf val q, THEN conjunct1, rule_format, of ex_bob]
  have "unat (balance (commit_transfer ?l q) ex_bob) = 12" by (simp add: ex_fields_def)
  with q show ?thesis by blast
qed

end
