(* ===== verification/Config.thy ===== *)
theory Config
  imports Hashing
begin

text \<open>
  config.rs: the calibration report a node is configured with, its validation, and the policy derived
  from it; the bootstrap presets. \<open>i64\<close> fields are integers, \<open>usize\<close> natural numbers. A JSON number
  prints as its decimal digits; the \<open>Float\<close> case of \<^typ>\<open>json_number\<close> holds the text it prints as.
\<close>

section \<open>Bootstrap presets\<close>

record network_bootstrap_preset =
  nb_network_id :: string
  nb_bootstrap_peers :: "string list"

definition TESTNET_BOOTSTRAP_PEERS :: "string list" where
  "TESTNET_BOOTSTRAP_PEERS = [''127.0.0.1:29090'']"

definition find_network_bootstrap_preset :: "string \<Rightarrow> network_bootstrap_preset option" where
  "find_network_bootstrap_preset network =
     (if network = ''testnet''
      then Some \<lparr>nb_network_id = ''boole-testnet-2'', nb_bootstrap_peers = TESTNET_BOOTSTRAP_PEERS\<rparr>
      else None)"

text \<open>\<open>std::net::SocketAddr\<close>, as far as it is used: the address and the port.\<close>

datatype ip_addr = V4 u32 | V6 u128

record socket_addr =
  sa_ip :: ip_addr
  sa_port :: "16 word"

fun ip_is_unspecified :: "ip_addr \<Rightarrow> bool" where
  "ip_is_unspecified (V4 a) = (a = 0)"
| "ip_is_unspecified (V6 a) = (a = 0)"

definition bootstrap_peer_is_own_listener :: "socket_addr \<Rightarrow> socket_addr \<Rightarrow> bool" where
  "bootstrap_peer_is_own_listener listener peer \<longleftrightarrow>
     sa_port listener = sa_port peer \<and> (ip_is_unspecified (sa_ip listener) \<or> sa_ip listener = sa_ip peer)"

section \<open>Calibration report\<close>

record calibration_report =
  cr_T_submit :: string
  cr_T_share :: string
  cr_T_block :: string
  cr_T_ticket :: string
  cr_MinShareScoreMultiplier :: json_number
  cr_K_max :: int
  cr_ShareCapPerPK_Block :: int
  cr_SharePoolGlobalCap :: "int option"
  cr_L :: int
  cr_D_max :: int
  cr_EMAWindow :: int
  cr_M :: int
  cr_perIpRateLimitPer60s :: int
  cr_provenance :: string

datatype config_error =
    EmptyHex
  | CannotConvert string
  | ThresholdZero string
  | ThresholdTooLarge string
  | BlockNotBelowShare
  | MustBePositive string
  | MultiplierNegative
  | MultiplierNotDecimal
  | MultiplierTooManyPlaces
  | MultiplierTooLarge
  | MultiplierZero

definition hex_to_biguint :: "ext \<Rightarrow> string \<Rightarrow> config_error + nat" where
  "hex_to_biguint E hex =
     (let stripped = strip_0x hex in
      if stripped = [] then Err EmptyHex
      else ok_or (ext_biguint_parse_bytes16 E stripped) (CannotConvert hex))"

record calibration_thresholds =
  ct_t_submit :: nat
  ct_t_share :: nat
  ct_t_block :: nat
  ct_t_ticket :: nat

definition find_calibration_thresholds :: "ext \<Rightarrow> calibration_report \<Rightarrow> config_error + calibration_thresholds" where
  "find_calibration_thresholds E report =
     rbind (hex_to_biguint E (cr_T_submit report)) (\<lambda>t_submit.
     rbind (hex_to_biguint E (cr_T_share report)) (\<lambda>t_share.
     rbind (hex_to_biguint E (cr_T_block report)) (\<lambda>t_block.
     rbind (hex_to_biguint E (cr_T_ticket report)) (\<lambda>t_ticket.
     Ok \<lparr>ct_t_submit = t_submit, ct_t_share = t_share, ct_t_block = t_block, ct_t_ticket = t_ticket\<rparr>))))"

section \<open>Decimal multipliers\<close>

text \<open>\<open>Number::to_string\<close> and \<open>str::split_once\<close>.\<close>

fun number_to_string :: "json_number \<Rightarrow> string" where
  "number_to_string (PosInt n) = word_to_string n"
| "number_to_string (NegInt i) = ''-'' @ nat_to_dec (nat (- i))"
| "number_to_string (Float s) = s"

definition split_once :: "char \<Rightarrow> string \<Rightarrow> (string \<times> string) option" where
  "split_once ch s = (if ch \<in> set s
     then Some (takeWhile (\<lambda>x. x \<noteq> ch) s, tl (dropWhile (\<lambda>x. x \<noteq> ch) s)) else None)"

definition parse_decimal_nanos :: "string \<Rightarrow> config_error + u64" where
  "parse_decimal_nanos raw =
     (if take 1 raw = ''-'' then Err MultiplierNegative
      else
        let (whole, fractional) = (case split_once (CHR ''.'') raw of Some p \<Rightarrow> p | None \<Rightarrow> (raw, [])) in
        if whole = [] \<or> \<not> list_all is_ascii_digit whole then Err MultiplierNotDecimal
        else if \<not> list_all is_ascii_digit fractional then Err MultiplierNotDecimal
        else if length fractional > 9 then Err MultiplierTooManyPlaces
        else
          rbind (ok_or (parse_word whole) MultiplierTooLarge) (\<lambda>w.
          rbind (ok_or (checked_mul w 1000000000) MultiplierTooLarge) (\<lambda>whole_nanos.
          let frac = fractional @ replicate (9 - length fractional) (CHR ''0'') in
          rbind (if frac = [] then Ok 0 else ok_or (parse_word frac) MultiplierNotDecimal) (\<lambda>fractional_nanos.
          rbind (ok_or (checked_add whole_nanos fractional_nanos) MultiplierTooLarge) (\<lambda>nanos.
          if nanos = 0 then Err MultiplierZero else Ok nanos)))))"

definition min_share_score_multiplier_nanos :: "calibration_report \<Rightarrow> config_error + u64" where
  "min_share_score_multiplier_nanos report =
     parse_decimal_nanos (number_to_string (cr_MinShareScoreMultiplier report))"

section \<open>Policy\<close>

record calibration_policy =
  cp_thresholds :: calibration_thresholds
  cp_k_max :: nat
  cp_share_cap_per_pk_block :: nat
  cp_global_share_cap :: nat
  cp_l :: nat
  cp_d_max :: nat
  cp_m :: int
  cp_per_ip_rate_limit_per_60s :: nat
  cp_min_share_score_multiplier_nanos :: u64

definition validate_calibration_report :: "ext \<Rightarrow> calibration_report \<Rightarrow> config_error + unit" where
  "validate_calibration_report E report =
     rbind (find_calibration_thresholds E report) (\<lambda>thresholds.
     rbind (try_for_each (\<lambda>(key, parsed).
              if parsed = 0 then Err (ThresholdZero key)
              else if parsed > 2 ^ 256 then Err (ThresholdTooLarge key) else Ok ())
            [(''T_submit'', ct_t_submit thresholds), (''T_share'', ct_t_share thresholds),
             (''T_block'', ct_t_block thresholds), (''T_ticket'', ct_t_ticket thresholds)]) (\<lambda>_.
     rbind (ensure (\<not> ct_t_block thresholds \<ge> ct_t_share thresholds) BlockNotBelowShare) (\<lambda>_.
     rbind (ensure (\<not> cr_K_max report \<le> 0) (MustBePositive ''K_max'')) (\<lambda>_.
     rbind (case cr_SharePoolGlobalCap report of
              Some global_cap \<Rightarrow> ensure (\<not> global_cap \<le> 0) (MustBePositive ''SharePoolGlobalCap'')
            | None \<Rightarrow> Ok ()) (\<lambda>_.
     rbind (ensure (\<not> cr_L report \<le> 0) (MustBePositive ''L'')) (\<lambda>_.
     rbind (ensure (\<not> cr_D_max report \<le> 0) (MustBePositive ''D_max'')) (\<lambda>_.
     rbind (ensure (\<not> cr_M report \<le> 0) (MustBePositive ''M'')) (\<lambda>_.
     rbind (ensure (\<not> cr_perIpRateLimitPer60s report \<le> 0) (MustBePositive ''perIpRateLimitPer60s'')) (\<lambda>_.
     rbind (ensure (\<not> cr_ShareCapPerPK_Block report \<le> 0) (MustBePositive ''ShareCapPerPK_Block'')) (\<lambda>_.
     rbind (min_share_score_multiplier_nanos report) (\<lambda>_. Ok ())))))))))))"

definition find_calibration_policy :: "ext \<Rightarrow> calibration_report \<Rightarrow> config_error + calibration_policy" where
  "find_calibration_policy E report =
     rbind (validate_calibration_report E report) (\<lambda>_.
     rbind (find_calibration_thresholds E report) (\<lambda>thresholds.
     rbind (min_share_score_multiplier_nanos report) (\<lambda>nanos.
     Ok \<lparr>cp_thresholds = thresholds,
         cp_k_max = nat (cr_K_max report),
         cp_share_cap_per_pk_block = nat (cr_ShareCapPerPK_Block report),
         cp_global_share_cap = nat (case cr_SharePoolGlobalCap report of None \<Rightarrow> cr_K_max report | Some g \<Rightarrow> g),
         cp_l = nat (cr_L report), cp_d_max = nat (cr_D_max report), cp_m = cr_M report,
         cp_per_ip_rate_limit_per_60s = nat (cr_perIpRateLimitPer60s report),
         cp_min_share_score_multiplier_nanos = nanos\<rparr>)))"

section \<open>What validation guarantees\<close>

lemma validate_calibration_report_Inr:
  assumes "validate_calibration_report E report = Inr u" and "find_calibration_thresholds E report = Inr t"
  shows "0 < ct_t_submit t \<and> ct_t_submit t \<le> 2 ^ 256 \<and> 0 < ct_t_share t \<and> ct_t_share t \<le> 2 ^ 256 \<and>
    0 < ct_t_block t \<and> ct_t_block t < ct_t_share t \<and> 0 < ct_t_ticket t \<and> ct_t_ticket t \<le> 2 ^ 256"
    and "0 < cr_K_max report" "0 < cr_L report" "0 < cr_D_max report" "0 < cr_M report"
      "0 < cr_perIpRateLimitPer60s report" "0 < cr_ShareCapPerPK_Block report"
    and "\<And>g. cr_SharePoolGlobalCap report = Some g \<Longrightarrow> 0 < g"
  using assms
  by (auto simp: validate_calibration_report_def result_simps try_for_each_Cons split: if_splits option.splits)

lemma parse_decimal_nanos_pos: "parse_decimal_nanos raw = Inr n \<Longrightarrow> n \<noteq> 0"
  by (auto simp: parse_decimal_nanos_def Let_def result_simps split: if_splits option.splits)

end
