(* ===== verification/Share_Pool.thy ===== *)
theory Share_Pool
  imports Config
begin

text \<open>
  share_pool.rs: the pool of shares eligible for the next block, with a cap per key and head, a global
  cap, and a bounded duplicate memory (tombstones) for shares whose semantic check is running or
  failed. One function per method; the methods that return a value and change the pool return both.
\<close>

section \<open>Data\<close>

definition MAX_SEMANTIC_REJECT_TOMBSTONES :: nat where
  "MAX_SEMANTIC_REJECT_TOMBSTONES = 4096"

record pool_share =
  ps_label :: string
  ps_pk :: string
  ps_n :: string
  ps_j :: string
  ps_c :: string

datatype share_pool_reject_reason = Duplicate | StaleC | PkCapExceeded | GlobalCapExceeded

fun reject_reason_as_str :: "share_pool_reject_reason \<Rightarrow> string" where
  "reject_reason_as_str Duplicate = ''duplicate''"
| "reject_reason_as_str StaleC = ''stale_c''"
| "reject_reason_as_str PkCapExceeded = ''pk_cap_exceeded''"
| "reject_reason_as_str GlobalCapExceeded = ''global_cap_exceeded''"

datatype accept_result = AcceptOk | AcceptErr share_pool_reject_reason

fun accept_result_ok :: "accept_result \<Rightarrow> bool" where
  "accept_result_ok AcceptOk = True"
| "accept_result_ok (AcceptErr _) = False"

fun accept_result_reason :: "accept_result \<Rightarrow> string option" where
  "accept_result_reason AcceptOk = None"
| "accept_result_reason (AcceptErr reason) = Some (reject_reason_as_str reason)"

fun accept_result_reason_typed :: "accept_result \<Rightarrow> share_pool_reject_reason option" where
  "accept_result_reason_typed AcceptOk = None"
| "accept_result_reason_typed (AcceptErr reason) = Some reason"

record share_pool =
  sp_current_c :: "string option"
  sp_share_cap_per_pk_block :: nat
  sp_global_share_cap :: nat
  sp_by_key :: "(string, pool_share) btree"
  sp_insertion_order :: "string list"
  sp_per_pk_per_c :: "(string, nat) btree"
  sp_semantic_reject_tombstones :: "string set"
  sp_semantic_reject_order :: "string list"
  sp_semantic_reject_tombstone_cap :: nat

definition share_key :: "pool_share \<Rightarrow> string" where
  "share_key s = ps_pk s @ ''|'' @ ps_n s @ ''|'' @ ps_j s"

definition per_pk_key :: "string \<Rightarrow> string \<Rightarrow> string" where
  "per_pk_key pk c = pk @ ''|'' @ c"

section \<open>Operations\<close>

definition pool_new_with_global_cap :: "nat \<Rightarrow> nat \<Rightarrow> share_pool" where
  "pool_new_with_global_cap share_cap_per_pk_block global_share_cap =
     \<lparr>sp_current_c = None, sp_share_cap_per_pk_block = share_cap_per_pk_block,
      sp_global_share_cap = global_share_cap, sp_by_key = [], sp_insertion_order = [],
      sp_per_pk_per_c = [], sp_semantic_reject_tombstones = {}, sp_semantic_reject_order = [],
      sp_semantic_reject_tombstone_cap = max 1 (min global_share_cap MAX_SEMANTIC_REJECT_TOMBSTONES)\<rparr>"

text \<open>\<open>usize::MAX\<close> of a 64-bit platform.\<close>

definition pool_new :: "nat \<Rightarrow> share_pool" where
  "pool_new share_cap_per_pk_block = pool_new_with_global_cap share_cap_per_pk_block (2 ^ 64 - 1)"

definition pool_from_policy :: "calibration_policy \<Rightarrow> share_pool" where
  "pool_from_policy policy = pool_new_with_global_cap (cp_share_cap_per_pk_block policy) (cp_global_share_cap policy)"

definition pool_from_calibration_report :: "ext \<Rightarrow> calibration_report \<Rightarrow> config_error + share_pool" where
  "pool_from_calibration_report E report = rbind (find_calibration_policy E report) (\<lambda>policy. Ok (pool_from_policy policy))"

definition pool_set_current_c :: "share_pool \<Rightarrow> string \<Rightarrow> share_pool" where
  "pool_set_current_c p c =
     (if sp_current_c p \<noteq> Some c
      then p\<lparr>sp_current_c := Some c, sp_semantic_reject_tombstones := {}, sp_semantic_reject_order := []\<rparr>
      else p)"

definition accept :: "share_pool \<Rightarrow> pool_share \<Rightarrow> accept_result \<times> share_pool" where
  "accept p share =
     (if (case sp_current_c p of Some current_c \<Rightarrow> ps_c share \<noteq> current_c | None \<Rightarrow> False)
      then (AcceptErr StaleC, p)
      else
        let key = share_key share in
        if map_of (sp_by_key p) key \<noteq> None \<or> key \<in> sp_semantic_reject_tombstones p
        then (AcceptErr Duplicate, p)
        else
          let cap_key = per_pk_key (ps_pk share) (ps_c share);
              used = bt_get_or 0 (sp_per_pk_per_c p) cap_key
          in if used \<ge> sp_share_cap_per_pk_block p then (AcceptErr PkCapExceeded, p)
             else if length (sp_by_key p) \<ge> sp_global_share_cap p then (AcceptErr GlobalCapExceeded, p)
             else (AcceptOk, p\<lparr>sp_by_key := bt_insert key share (sp_by_key p),
                     sp_insertion_order := sp_insertion_order p @ [key],
                     sp_per_pk_per_c := bt_insert cap_key (used + 1) (sp_per_pk_per_c p)\<rparr>))"

definition remove_active :: "share_pool \<Rightarrow> string \<Rightarrow> pool_share option \<times> share_pool" where
  "remove_active p key =
     (case map_of (sp_by_key p) key of
        None \<Rightarrow> (None, p)
      | Some share \<Rightarrow>
          let cap_key = per_pk_key (ps_pk share) (ps_c share);
              per_pk = (case map_of (sp_per_pk_per_c p) cap_key of
                  None \<Rightarrow> sp_per_pk_per_c p
                | Some used \<Rightarrow>
                    if used - 1 = 0 then bt_remove cap_key (sp_per_pk_per_c p)
                    else bt_insert cap_key (used - 1) (sp_per_pk_per_c p))
          in (Some share, p\<lparr>sp_by_key := bt_remove key (sp_by_key p),
                sp_insertion_order := filter (\<lambda>entry. entry \<noteq> key) (sp_insertion_order p),
                sp_per_pk_per_c := per_pk\<rparr>))"

fun evict_tombstones :: "nat \<Rightarrow> string list \<Rightarrow> string set \<Rightarrow> string list \<times> string set" where
  "evict_tombstones cap [] tombstones = ([], tombstones)"
| "evict_tombstones cap (oldest # order) tombstones =
     (if length (oldest # order) > cap then evict_tombstones cap order (tombstones - {oldest})
      else (oldest # order, tombstones))"

definition insert_semantic_tombstone :: "share_pool \<Rightarrow> string \<Rightarrow> share_pool" where
  "insert_semantic_tombstone p key =
     (let order = (if key \<in> sp_semantic_reject_tombstones p then sp_semantic_reject_order p
                   else sp_semantic_reject_order p @ [key]);
          evicted = evict_tombstones (sp_semantic_reject_tombstone_cap p) order
                      (insert key (sp_semantic_reject_tombstones p))
      in p\<lparr>sp_semantic_reject_order := fst evicted, sp_semantic_reject_tombstones := snd evicted\<rparr>)"

definition reserve_for_semantic_check :: "share_pool \<Rightarrow> pool_share \<Rightarrow> bool \<times> share_pool" where
  "reserve_for_semantic_check p share =
     (let key = share_key share in
      case remove_active p key of
        (None, _) \<Rightarrow> (False, p)
      | (Some _, p') \<Rightarrow> (True, insert_semantic_tombstone p' key))"

definition restore_after_semantic_check :: "share_pool \<Rightarrow> pool_share \<Rightarrow> bool \<times> share_pool" where
  "restore_after_semantic_check p share =
     (let key = share_key share in
      if key \<notin> sp_semantic_reject_tombstones p \<or>
         (case sp_current_c p of Some c \<Rightarrow> c \<noteq> ps_c share | None \<Rightarrow> False) \<or>
         map_of (sp_by_key p) key \<noteq> None
      then (False, p)
      else
        let cap_key = per_pk_key (ps_pk share) (ps_c share);
            used = bt_get_or 0 (sp_per_pk_per_c p) cap_key
        in if used \<ge> sp_share_cap_per_pk_block p \<or> length (sp_by_key p) \<ge> sp_global_share_cap p
           then (False, p)
           else (True, p\<lparr>sp_semantic_reject_tombstones := sp_semantic_reject_tombstones p - {key},
                   sp_semantic_reject_order := filter (\<lambda>entry. entry \<noteq> key) (sp_semantic_reject_order p),
                   sp_by_key := bt_insert key share (sp_by_key p),
                   sp_insertion_order := sp_insertion_order p @ [key],
                   sp_per_pk_per_c := bt_insert cap_key (used + 1) (sp_per_pk_per_c p)\<rparr>))"

definition release_semantic_reservation :: "share_pool \<Rightarrow> pool_share \<Rightarrow> bool \<times> share_pool" where
  "release_semantic_reservation p share =
     (let key = share_key share in
      if key \<in> sp_semantic_reject_tombstones p
      then (True, p\<lparr>sp_semantic_reject_tombstones := sp_semantic_reject_tombstones p - {key},
              sp_semantic_reject_order := filter (\<lambda>entry. entry \<noteq> key) (sp_semantic_reject_order p)\<rparr>)
      else (False, p))"

definition pool_size :: "share_pool \<Rightarrow> nat" where
  "pool_size p = length (sp_by_key p)"

definition for_chain :: "share_pool \<Rightarrow> string \<Rightarrow> pool_share list" where
  "for_chain p c =
     filter (\<lambda>share. ps_c share = c) (List.map_filter (map_of (sp_by_key p)) (sp_insertion_order p))"

text \<open>\<open>str::ends_with\<close>\<close>

definition ends_with :: "string \<Rightarrow> string \<Rightarrow> bool" where
  "ends_with s suffix \<longleftrightarrow> length suffix \<le> length s \<and> drop (length s - length suffix) s = suffix"

definition prune_step :: "string \<Rightarrow> string \<Rightarrow> (string, pool_share) btree \<times> nat \<Rightarrow> (string, pool_share) btree \<times> nat" where
  "prune_step c key = (\<lambda>(by_key, dropped).
     if (case map_of by_key key of Some share \<Rightarrow> ps_c share \<noteq> c | None \<Rightarrow> False)
     then (bt_remove key by_key, dropped + 1) else (by_key, dropped))"

definition prune_to_height :: "share_pool \<Rightarrow> string \<Rightarrow> nat \<times> share_pool" where
  "prune_to_height p c =
     (let (by_key, dropped) = fold (prune_step c) (sp_insertion_order p) (sp_by_key p, 0)
      in (dropped, p\<lparr>sp_by_key := by_key,
            sp_insertion_order := filter (\<lambda>key. map_of by_key key \<noteq> None) (sp_insertion_order p),
            sp_per_pk_per_c := filter (\<lambda>(key, _). ends_with key (''|'' @ c)) (sp_per_pk_per_c p),
            sp_current_c := Some c, sp_semantic_reject_tombstones := {}, sp_semantic_reject_order := []\<rparr>))"

end
