(* ===== verification/Share_Pool_Theorems.thy ===== *)
theory Share_Pool_Theorems
  imports Share_Pool Prelude
begin

text \<open>
  The share pool's invariant and what it gives: the caps hold in every reachable pool, the eligible
  list has no duplicates and keeps the order of acceptance, the tombstones are bounded and disjoint
  from the eligible shares.
\<close>

section \<open>Invariant\<close>

definition used_by :: "(string, pool_share) btree \<Rightarrow> string \<Rightarrow> nat" where
  "used_by by_key ck = bt_count (\<lambda>(_, s). per_pk_key (ps_pk s) (ps_c s) = ck) by_key"

definition pool_inv :: "share_pool \<Rightarrow> bool" where
  "pool_inv p \<longleftrightarrow>
     bt_wf (sp_by_key p) \<and> bt_wf (sp_per_pk_per_c p) \<and>
     distinct (sp_insertion_order p) \<and> set (sp_insertion_order p) = dom (map_of (sp_by_key p)) \<and>
     (\<forall>k s. map_of (sp_by_key p) k = Some s \<longrightarrow> k = share_key s) \<and>
     (\<forall>ck. used_by (sp_by_key p) ck \<le> bt_get_or 0 (sp_per_pk_per_c p) ck) \<and>
     (\<forall>ck. bt_get_or 0 (sp_per_pk_per_c p) ck \<le> sp_share_cap_per_pk_block p) \<and>
     length (sp_by_key p) \<le> sp_global_share_cap p \<and>
     distinct (sp_semantic_reject_order p) \<and>
     set (sp_semantic_reject_order p) = sp_semantic_reject_tombstones p \<and>
     1 \<le> sp_semantic_reject_tombstone_cap p \<and>
     length (sp_semantic_reject_order p) \<le> sp_semantic_reject_tombstone_cap p \<and>
     sp_semantic_reject_tombstones p \<inter> dom (map_of (sp_by_key p)) = {}"

definition same_caps :: "share_pool \<Rightarrow> share_pool \<Rightarrow> bool" where
  "same_caps p q \<longleftrightarrow> sp_share_cap_per_pk_block q = sp_share_cap_per_pk_block p \<and>
     sp_global_share_cap q = sp_global_share_cap p \<and>
     sp_semantic_reject_tombstone_cap q = sp_semantic_reject_tombstone_cap p"

lemma used_by_insert_new:
  "map_of m k = None \<Longrightarrow> used_by (bt_insert k s m) ck =
     used_by m ck + (if per_pk_key (ps_pk s) (ps_c s) = ck then 1 else 0)"
  by (simp add: used_by_def bt_count_insert_new)

lemma used_by_remove:
  "bt_wf m \<Longrightarrow> map_of m k = Some s \<Longrightarrow>
     used_by (bt_remove k m) ck + (if per_pk_key (ps_pk s) (ps_c s) = ck then 1 else 0) = used_by m ck"
  using bt_count_remove [of m k s "\<lambda>(_, s). per_pk_key (ps_pk s) (ps_c s) = ck"] by (simp add: used_by_def)

section \<open>Each operation keeps the invariant\<close>

lemma new_inv: "pool_inv (pool_new_with_global_cap a b)"
  by (auto simp: pool_inv_def pool_new_with_global_cap_def used_by_def)

lemma set_current_c_inv: "pool_inv p \<Longrightarrow> pool_inv (pool_set_current_c p c) \<and> same_caps p (pool_set_current_c p c)"
  by (auto simp: pool_inv_def pool_set_current_c_def same_caps_def)

text \<open>Accepting and restoring insert a share in the same way.\<close>

definition insert_active :: "share_pool \<Rightarrow> pool_share \<Rightarrow> share_pool" where
  "insert_active p share =
     (let key = share_key share; cap_key = per_pk_key (ps_pk share) (ps_c share) in
      p\<lparr>sp_by_key := bt_insert key share (sp_by_key p), sp_insertion_order := sp_insertion_order p @ [key],
        sp_per_pk_per_c := bt_insert cap_key (bt_get_or 0 (sp_per_pk_per_c p) cap_key + 1) (sp_per_pk_per_c p)\<rparr>)"

lemma insert_active_inv:
  assumes "pool_inv p" and "map_of (sp_by_key p) (share_key s) = None"
    and "share_key s \<notin> sp_semantic_reject_tombstones p"
    and "bt_get_or 0 (sp_per_pk_per_c p) (per_pk_key (ps_pk s) (ps_c s)) < sp_share_cap_per_pk_block p"
    and "length (sp_by_key p) < sp_global_share_cap p"
  shows "pool_inv (insert_active p s) \<and> same_caps p (insert_active p s)"
proof -
  have "share_key s \<notin> set (sp_insertion_order p)" using assms(1,2) by (auto simp: pool_inv_def)
  with assms show ?thesis
    by (auto simp: pool_inv_def insert_active_def Let_def same_caps_def used_by_insert_new length_bt_insert_new)
qed

lemma accept_inv: "pool_inv p \<Longrightarrow> pool_inv (snd (accept p s)) \<and> same_caps p (snd (accept p s))"
  using insert_active_inv [of p s]
  by (auto simp: accept_def Let_def insert_active_def same_caps_def not_le split: option.splits)

lemma remove_active_inv:
  assumes "pool_inv p" and "remove_active p key = (Some s, p')"
  shows "pool_inv p' \<and> same_caps p p' \<and> map_of (sp_by_key p) key = Some s \<and>
    map_of (sp_by_key p') key = None \<and> sp_semantic_reject_tombstones p' = sp_semantic_reject_tombstones p \<and>
    sp_by_key p' = bt_remove key (sp_by_key p)"
proof -
  let ?ck = "per_pk_key (ps_pk s) (ps_c s)"
  from assms(2) have s: "map_of (sp_by_key p) key = Some s"
    by (auto simp: remove_active_def Let_def split: option.splits)
  note inv = assms(1) [unfolded pool_inv_def]
  have "used_by (sp_by_key p) ?ck \<ge> 1" using used_by_remove [of "sp_by_key p" key s ?ck] inv s by auto
  then have "bt_get_or 0 (sp_per_pk_per_c p) ?ck \<ge> 1" using inv by (meson order_trans)
  then obtain used where used: "map_of (sp_per_pk_per_c p) ?ck = Some used" "used \<ge> 1"
    by (auto simp: bt_get_or_def split: option.splits)
  let ?per = "if used - 1 = 0 then bt_remove ?ck (sp_per_pk_per_c p) else bt_insert ?ck (used - 1) (sp_per_pk_per_c p)"
  have p': "p' = p\<lparr>sp_by_key := bt_remove key (sp_by_key p),
      sp_insertion_order := filter (\<lambda>entry. entry \<noteq> key) (sp_insertion_order p), sp_per_pk_per_c := ?per\<rparr>"
    using assms(2) s used by (auto simp: remove_active_def Let_def)
  have get: "bt_get_or 0 ?per ck + (if ck = ?ck then 1 else 0) = bt_get_or 0 (sp_per_pk_per_c p) ck" for ck
    using used by (auto simp: bt_get_or_def)
  have "used_by (bt_remove key (sp_by_key p)) ck \<le> bt_get_or 0 ?per ck" for ck
  proof -
    have "used_by (sp_by_key p) ck \<le> bt_get_or 0 (sp_per_pk_per_c p) ck" using inv by blast
    moreover have "used_by (bt_remove key (sp_by_key p)) ck + (if ?ck = ck then 1 else 0) = used_by (sp_by_key p) ck"
      using used_by_remove inv s by blast
    ultimately show ?thesis using get [of ck] unfolding eq_commute [of ?ck] by linarith
  qed
  moreover have "bt_get_or 0 ?per ck \<le> sp_share_cap_per_pk_block p" for ck
  proof -
    have "bt_get_or 0 (sp_per_pk_per_c p) ck \<le> sp_share_cap_per_pk_block p" using inv by blast
    with get [of ck] show ?thesis by linarith
  qed
  moreover have "bt_wf ?per" using inv by simp
  moreover have "length (bt_remove key (sp_by_key p)) \<le> sp_global_share_cap p"
    using inv by (auto simp: bt_remove_def intro: order_trans [OF length_filter_le])
  ultimately have "pool_inv p'"
    using inv unfolding pool_inv_def p' by (auto split: if_splits)
  then show ?thesis using s by (simp add: p' same_caps_def)
qed

lemma evict_tombstones_eq:
  "distinct order \<Longrightarrow> evict_tombstones cap order tombs =
     (drop (length order - cap) order, tombs - set (take (length order - cap) order))"
  by (induction cap order tombs rule: evict_tombstones.induct) (auto simp: Suc_diff_le not_less)

lemma insert_tombstone_inv:
  assumes "pool_inv p" and "map_of (sp_by_key p) key = None"
  shows "pool_inv (insert_semantic_tombstone p key) \<and> same_caps p (insert_semantic_tombstone p key) \<and>
    sp_by_key (insert_semantic_tombstone p key) = sp_by_key p"
proof -
  define order where "order = (if key \<in> sp_semantic_reject_tombstones p then sp_semantic_reject_order p
      else sp_semantic_reject_order p @ [key])"
  let ?n = "length order - sp_semantic_reject_tombstone_cap p"
  have d: "distinct order" "set order = insert key (sp_semantic_reject_tombstones p)"
    using assms(1) by (auto simp: order_def pool_inv_def)
  have eq: "insert_semantic_tombstone p key = p\<lparr>sp_semantic_reject_order := drop ?n order,
      sp_semantic_reject_tombstones := set order - set (take ?n order)\<rparr>"
    by (simp add: insert_semantic_tombstone_def Let_def order_def [symmetric] evict_tombstones_eq d)
  have "set order = set (take ?n order) \<union> set (drop ?n order)" by (metis append_take_drop_id set_append)
  moreover have "set (take ?n order) \<inter> set (drop ?n order) = {}"
    using d(1) by (metis append_take_drop_id distinct_append)
  ultimately have "set order - set (take ?n order) = set (drop ?n order)" by blast
  moreover have "set (drop ?n order) \<subseteq> insert key (sp_semantic_reject_tombstones p)"
    using d(2) set_drop_subset by fastforce
  moreover have "insert key (sp_semantic_reject_tombstones p) \<inter> dom (map_of (sp_by_key p)) = {}"
    using assms by (auto simp: pool_inv_def)
  ultimately have "set (drop ?n order) \<inter> dom (map_of (sp_by_key p)) = {}"
    and "set order - set (take ?n order) = set (drop ?n order)" by blast+
  then show ?thesis
    using assms(1) d(1) unfolding eq pool_inv_def same_caps_def by simp
qed

lemma reserve_inv:
  assumes "pool_inv p"
  shows "pool_inv (snd (reserve_for_semantic_check p s)) \<and> same_caps p (snd (reserve_for_semantic_check p s))"
proof (cases "remove_active p (share_key s)")
  case (Pair r p')
  show ?thesis
  proof (cases r)
    case None
    with Pair assms show ?thesis by (simp add: reserve_for_semantic_check_def same_caps_def)
  next
    case (Some s')
    with remove_active_inv [OF assms] Pair have "pool_inv p'" "same_caps p p'" "map_of (sp_by_key p') (share_key s) = None"
      by auto
    with insert_tombstone_inv [of p' "share_key s"] Pair Some show ?thesis
      by (simp add: reserve_for_semantic_check_def same_caps_def)
  qed
qed

lemma drop_tombstone_inv:
  "pool_inv p \<Longrightarrow> pool_inv (p\<lparr>sp_semantic_reject_tombstones := sp_semantic_reject_tombstones p - {key},
     sp_semantic_reject_order := filter (\<lambda>entry. entry \<noteq> key) (sp_semantic_reject_order p)\<rparr>)"
  by (auto simp: pool_inv_def intro: order_trans [OF length_filter_le])

lemma restore_inv:
  assumes "pool_inv p"
  shows "pool_inv (snd (restore_after_semantic_check p s)) \<and> same_caps p (snd (restore_after_semantic_check p s))"
proof (cases "fst (restore_after_semantic_check p s)")
  case True
  let ?p = "p\<lparr>sp_semantic_reject_tombstones := sp_semantic_reject_tombstones p - {share_key s},
     sp_semantic_reject_order := filter (\<lambda>entry. entry \<noteq> share_key s) (sp_semantic_reject_order p)\<rparr>"
  have "snd (restore_after_semantic_check p s) = insert_active ?p s"
    using True by (auto simp: restore_after_semantic_check_def insert_active_def Let_def split: if_splits)
  moreover have "map_of (sp_by_key p) (share_key s) = None"
    "bt_get_or 0 (sp_per_pk_per_c p) (per_pk_key (ps_pk s) (ps_c s)) < sp_share_cap_per_pk_block p"
    "length (sp_by_key p) < sp_global_share_cap p"
    using True by (auto simp: restore_after_semantic_check_def Let_def not_le split: if_splits)
  ultimately show ?thesis
    using insert_active_inv [OF drop_tombstone_inv [OF assms], of "share_key s" s] by (simp add: same_caps_def)
next
  case False
  then show ?thesis using assms
    by (auto simp: restore_after_semantic_check_def Let_def same_caps_def split: if_splits)
qed

lemma release_inv:
  "pool_inv p \<Longrightarrow> pool_inv (snd (release_semantic_reservation p s)) \<and> same_caps p (snd (release_semantic_reservation p s))"
  using drop_tombstone_inv [of p "share_key s"]
  by (auto simp: release_semantic_reservation_def Let_def same_caps_def)

section \<open>Pruning\<close>

lemma prune_fold:
  "fst (fold (prune_step c) keys (m, d)) = filter (\<lambda>(k, s). k \<in> set keys \<longrightarrow> ps_c s = c) m \<and>
   snd (fold (prune_step c) keys (m, d)) + length (fst (fold (prune_step c) keys (m, d))) = d + length m"
  if "bt_wf m"
  using that
proof (induction keys arbitrary: m d)
  case Nil
  then show ?case by simp
next
  case (Cons key keys)
  have mem: "map_of m k = Some s" if "(k, s) \<in> set m" for k s
    using that Cons.prems by (simp add: bt_wf_distinct)
  show ?case
  proof (cases "\<exists>s. map_of m key = Some s \<and> ps_c s \<noteq> c")
    case True
    then obtain s where s: "map_of m key = Some s" "ps_c s \<noteq> c" by blast
    have "filter (\<lambda>(k, s). k \<in> set keys \<longrightarrow> ps_c s = c) (bt_remove key m) =
        filter (\<lambda>(k, s). k \<in> set (key # keys) \<longrightarrow> ps_c s = c) m"
      using s mem unfolding bt_remove_def filter_filter by (intro filter_cong refl) fastforce
    moreover have "prune_step c key (m, d) = (bt_remove key m, d + 1)"
      using s by (simp add: prune_step_def)
    ultimately show ?thesis
      using Cons.IH [of "bt_remove key m" "d + 1"] Cons.prems length_bt_remove [OF Cons.prems s(1)] by auto
  next
    case False
    have "filter (\<lambda>(k, s). k \<in> set keys \<longrightarrow> ps_c s = c) m =
        filter (\<lambda>(k, s). k \<in> set (key # keys) \<longrightarrow> ps_c s = c) m"
      using False mem by (intro filter_cong refl) fastforce
    moreover have "prune_step c key (m, d) = (m, d)"
      using False by (auto simp: prune_step_def split: option.splits)
    ultimately show ?thesis using Cons.IH [OF Cons.prems, of d] by auto
  qed
qed

lemma map_of_filter_key: "map_of (filter (\<lambda>(k, _). P k) m) k = (if P k then map_of m k else None)"
  by (induction m) auto

lemma map_of_filter_val:
  "bt_wf m \<Longrightarrow> map_of (filter (\<lambda>(_, s). P s) m) k = Some s \<longleftrightarrow> map_of m k = Some s \<and> P s"
  by (simp add: bt_wf_distinct bt_wf_filter)

lemma ends_with_per_pk_key: "ends_with (per_pk_key pk c) (''|'' @ c)"
  by (simp add: ends_with_def per_pk_key_def)

lemma prune_eq:
  assumes "pool_inv p"
  shows "sp_by_key (snd (prune_to_height p c)) = filter (\<lambda>(_, s). ps_c s = c) (sp_by_key p)"
    and "fst (prune_to_height p c) + length (sp_by_key (snd (prune_to_height p c))) = length (sp_by_key p)"
proof -
  have wf: "bt_wf (sp_by_key p)" and keys: "set (sp_insertion_order p) = fst ` set (sp_by_key p)"
    using assms by (auto simp: pool_inv_def dom_map_of_conv_image_fst)
  have "filter (\<lambda>(k, s). k \<in> set (sp_insertion_order p) \<longrightarrow> ps_c s = c) (sp_by_key p) =
      filter (\<lambda>(_, s). ps_c s = c) (sp_by_key p)"
    unfolding keys by (intro filter_cong) force+
  with prune_fold [OF wf, of c "sp_insertion_order p" 0]
  show "sp_by_key (snd (prune_to_height p c)) = filter (\<lambda>(_, s). ps_c s = c) (sp_by_key p)"
    and "fst (prune_to_height p c) + length (sp_by_key (snd (prune_to_height p c))) = length (sp_by_key p)"
    by (auto simp: prune_to_height_def case_prod_beta Let_def)
qed

lemma prune_inv:
  assumes "pool_inv p"
  shows "pool_inv (snd (prune_to_height p c)) \<and> same_caps p (snd (prune_to_height p c))"
proof -
  let ?m = "filter (\<lambda>(_, s). ps_c s = c) (sp_by_key p)"
  let ?per = "filter (\<lambda>(key, _). ends_with key (''|'' @ c)) (sp_per_pk_per_c p)"
  note inv = assms [unfolded pool_inv_def]
  have eq: "snd (prune_to_height p c) = p\<lparr>sp_by_key := ?m,
      sp_insertion_order := filter (\<lambda>key. map_of ?m key \<noteq> None) (sp_insertion_order p), sp_per_pk_per_c := ?per,
      sp_current_c := Some c, sp_semantic_reject_tombstones := {}, sp_semantic_reject_order := []\<rparr>"
    using prune_eq(1) [OF assms, of c] by (simp add: prune_to_height_def case_prod_beta Let_def)
  have get: "bt_get_or 0 ?per ck = (if ends_with ck (''|'' @ c) then bt_get_or 0 (sp_per_pk_per_c p) ck else 0)" for ck
    by (simp add: bt_get_or_def map_of_filter_key)
  have "used_by ?m ck \<le> bt_get_or 0 ?per ck" for ck
  proof (cases "ends_with ck (''|'' @ c)")
    case True
    have "used_by ?m ck \<le> used_by (sp_by_key p) ck"
      unfolding used_by_def by (rule bt_count_filter)
    also have "\<dots> \<le> bt_get_or 0 (sp_per_pk_per_c p) ck" using inv by blast
    finally show ?thesis using True get by simp
  next
    case False
    then have "per_pk_key (ps_pk s) (ps_c s) \<noteq> ck" if "ps_c s = c" for s
      using that ends_with_per_pk_key by blast
    then have "used_by ?m ck = 0" by (auto simp: used_by_def bt_count_def filter_empty_conv)
    then show ?thesis by simp
  qed
  moreover have "bt_get_or 0 ?per ck \<le> sp_share_cap_per_pk_block p" for ck using inv get by auto
  moreover have "length ?m \<le> sp_global_share_cap p"
    using inv by (auto intro: order_trans [OF length_filter_le])
  moreover have "map_of ?m k = Some s \<Longrightarrow> map_of (sp_by_key p) k = Some s" for k s
    using inv by (simp add: map_of_filter_val)
  ultimately show ?thesis
    unfolding eq same_caps_def pool_inv_def using inv by (auto simp: bt_wf_filter)
qed

section \<open>Reachable pools\<close>

datatype pool_op =
    SetCurrentC string
  | Accept pool_share
  | Reserve pool_share
  | Restore pool_share
  | Release pool_share
  | Prune string

fun pool_step :: "share_pool \<Rightarrow> pool_op \<Rightarrow> share_pool" where
  "pool_step p (SetCurrentC c) = pool_set_current_c p c"
| "pool_step p (Accept s) = snd (accept p s)"
| "pool_step p (Reserve s) = snd (reserve_for_semantic_check p s)"
| "pool_step p (Restore s) = snd (restore_after_semantic_check p s)"
| "pool_step p (Release s) = snd (release_semantic_reservation p s)"
| "pool_step p (Prune c) = snd (prune_to_height p c)"

lemma same_caps_trans: "same_caps p q \<Longrightarrow> same_caps q r \<Longrightarrow> same_caps p r"
  by (simp add: same_caps_def)

lemma pool_step_inv: "pool_inv p \<Longrightarrow> pool_inv (pool_step p op) \<and> same_caps p (pool_step p op)"
  by (cases op) (simp_all add: set_current_c_inv accept_inv reserve_inv restore_inv release_inv prune_inv)

interpretation pool: total_system pool_step "\<lambda>p. pool_inv p \<and> same_caps p0 p" for p0
  by unfold_locales (meson pool_step_inv same_caps_trans)

lemma for_chain_eq:
  assumes "pool_inv p"
  shows "set (for_chain p c) = {s. map_of (sp_by_key p) (share_key s) = Some s \<and> ps_c s = c}"
    and "distinct (map share_key (for_chain p c))"
proof -
  note inv = assms [unfolded pool_inv_def]
  have keys: "map share_key (List.map_filter (map_of (sp_by_key p)) ks) = ks"
    if "set ks \<subseteq> dom (map_of (sp_by_key p))" for ks
    using that inv by (induction ks) (auto simp: List.map_filter_simps)
  show "set (for_chain p c) = {s. map_of (sp_by_key p) (share_key s) = Some s \<and> ps_c s = c}"
  proof -
    have mf: "set (List.map_filter f xs) = {y. \<exists>x \<in> set xs. f x = Some y}" for f :: "string \<Rightarrow> pool_share option" and xs
      by (induction xs) (auto simp: List.map_filter_simps split: option.splits)
    have "(\<exists>k \<in> set (sp_insertion_order p). map_of (sp_by_key p) k = Some s) \<longleftrightarrow>
        map_of (sp_by_key p) (share_key s) = Some s" for s
      using inv by (metis domI)
    then show ?thesis by (auto simp: for_chain_def mf)
  qed
  have "distinct (map share_key (List.map_filter (map_of (sp_by_key p)) (sp_insertion_order p)))"
    using inv keys by simp
  then show "distinct (map share_key (for_chain p c))"
    unfolding for_chain_def by (rule distinct_map_filter)
qed

section \<open>Reservation\<close>

lemma accept_ok_eq:
  "fst (accept p s) = AcceptOk \<longleftrightarrow>
     (\<forall>c. sp_current_c p = Some c \<longrightarrow> ps_c s = c) \<and> map_of (sp_by_key p) (share_key s) = None \<and>
     share_key s \<notin> sp_semantic_reject_tombstones p \<and>
     bt_get_or 0 (sp_per_pk_per_c p) (per_pk_key (ps_pk s) (ps_c s)) < sp_share_cap_per_pk_block p \<and>
     length (sp_by_key p) < sp_global_share_cap p"
  by (auto simp: accept_def Let_def split: option.splits)

lemma accept_ok_pool: "fst (accept p s) = AcceptOk \<Longrightarrow> snd (accept p s) = insert_active p s"
  by (auto simp: accept_def insert_active_def Let_def split: option.splits if_splits)

lemma insert_tombstone_keeps:
  assumes "pool_inv p"
  shows "key \<in> sp_semantic_reject_tombstones (insert_semantic_tombstone p key) \<or> key \<in> sp_semantic_reject_tombstones p"
proof (cases "key \<in> sp_semantic_reject_tombstones p")
  case False
  let ?o = "sp_semantic_reject_order p @ [key]"
  let ?n = "length ?o - sp_semantic_reject_tombstone_cap p"
  have "1 \<le> sp_semantic_reject_tombstone_cap p" using assms by (simp add: pool_inv_def)
  then have "?n \<le> length (sp_semantic_reject_order p)" by simp
  then have "set (take ?n ?o) \<subseteq> set (sp_semantic_reject_order p)" by (simp add: set_take_subset)
  then have "key \<notin> set (take ?n ?o)" using assms False by (auto simp: pool_inv_def)
  moreover have "distinct ?o" using assms False by (simp add: pool_inv_def)
  ultimately show ?thesis
    using False by (simp add: insert_semantic_tombstone_def Let_def evict_tombstones_eq)
qed simp

lemma reserve_accepted:
  assumes "pool_inv p" and "fst (accept p s) = AcceptOk"
  defines "p1 \<equiv> snd (accept p s)"
  defines "p2 \<equiv> snd (reserve_for_semantic_check p1 s)"
  shows "fst (reserve_for_semantic_check p1 s)" and "share_key s \<in> sp_semantic_reject_tombstones p2"
    and "sp_by_key p2 = sp_by_key p" and "sp_current_c p2 = sp_current_c p"
    and "bt_get_or 0 (sp_per_pk_per_c p2) ck = bt_get_or 0 (sp_per_pk_per_c p) ck"
    and "sp_insertion_order p2 = sp_insertion_order p" and "same_caps p p2" and "pool_inv p2"
proof -
  let ?k = "share_key s" and ?ck = "per_pk_key (ps_pk s) (ps_c s)"
  let ?used = "bt_get_or 0 (sp_per_pk_per_c p) ?ck"
  note inv = assms(1) [unfolded pool_inv_def]
  note ok = assms(2) [unfolded accept_ok_eq]
  have p1: "p1 = insert_active p s" unfolding p1_def using accept_ok_pool [OF assms(2)] .
  have inv1: "pool_inv p1" unfolding p1_def using accept_inv [OF assms(1)] by blast
  obtain p' where p': "remove_active p1 ?k = (Some s, p')"
    by (auto simp: p1 remove_active_def insert_active_def Let_def)
  have by_key: "sp_by_key p' = sp_by_key p" and order: "sp_insertion_order p' = sp_insertion_order p"
    and frame: "sp_semantic_reject_tombstones p' = sp_semantic_reject_tombstones p" "sp_current_c p' = sp_current_c p"
    and per: "sp_per_pk_per_c p' = (if ?used = 0 then bt_remove ?ck (bt_insert ?ck 1 (sp_per_pk_per_c p))
                else bt_insert ?ck ?used (bt_insert ?ck (Suc ?used) (sp_per_pk_per_c p)))"
  proof -
    have "bt_remove ?k (bt_insert ?k s (sp_by_key p)) = sp_by_key p" using inv ok by (intro bt.del_ins_absent) auto
    moreover have "filter (\<lambda>entry. entry \<noteq> ?k) (sp_insertion_order p) = sp_insertion_order p"
      using inv ok by (intro filter_True) auto
    ultimately show "sp_by_key p' = sp_by_key p" "sp_insertion_order p' = sp_insertion_order p"
      "sp_semantic_reject_tombstones p' = sp_semantic_reject_tombstones p" "sp_current_c p' = sp_current_c p"
      "sp_per_pk_per_c p' = (if ?used = 0 then bt_remove ?ck (bt_insert ?ck 1 (sp_per_pk_per_c p))
                else bt_insert ?ck ?used (bt_insert ?ck (Suc ?used) (sp_per_pk_per_c p)))"
      using p' by (auto simp: p1 remove_active_def insert_active_def Let_def)
  qed
  note r = remove_active_inv [OF inv1 p']
  have p2: "p2 = insert_semantic_tombstone p' ?k" "fst (reserve_for_semantic_check p1 s)"
    unfolding p2_def using p' by (auto simp: reserve_for_semantic_check_def)
  have t: "pool_inv p2" "same_caps p' p2"
    using insert_tombstone_inv [of p' ?k] r by (auto simp: p2)
  show "fst (reserve_for_semantic_check p1 s)" by (rule p2(2))
  show "share_key s \<in> sp_semantic_reject_tombstones p2"
    using insert_tombstone_keeps [of p' ?k] r ok by (auto simp: p2 frame)
  show "sp_by_key p2 = sp_by_key p" "sp_current_c p2 = sp_current_c p" "sp_insertion_order p2 = sp_insertion_order p"
    by (simp_all add: p2 insert_semantic_tombstone_def Let_def by_key frame order)
  show "bt_get_or 0 (sp_per_pk_per_c p2) ck = bt_get_or 0 (sp_per_pk_per_c p) ck"
    by (simp add: p2 insert_semantic_tombstone_def Let_def per)
  show "pool_inv p2" by (rule t)
  show "same_caps p p2" using t(2) r by (simp add: same_caps_def p1 insert_active_def Let_def)
qed

section \<open>Properties\<close>

text \<open>C21. In every pool reached from a new one by any sequence of operations the caps hold: the global cap,
  the cap per key and head, and the bound on tombstones. The shares offered for a head are exactly the
  eligible ones with that head, without duplicate (key, n, j), and no share is both eligible and
  tombstoned.\<close>

theorem reachable_pool_caps:
  fixes per_pk_cap global_cap ops c
  defines "p \<equiv> foldl pool_step (pool_new_with_global_cap per_pk_cap global_cap) ops"
  shows "pool_size p \<le> global_cap \<and>
    length (filter (\<lambda>s. ps_pk s = pk) (for_chain p c)) \<le> per_pk_cap \<and>
    card (sp_semantic_reject_tombstones p) \<le> max 1 (min global_cap 4096) \<and>
    distinct (map share_key (for_chain p c)) \<and>
    set (for_chain p c) = {s. map_of (sp_by_key p) (share_key s) = Some s \<and> ps_c s = c} \<and>
    sp_semantic_reject_tombstones p \<inter> dom (map_of (sp_by_key p)) = {}"
proof -
  let ?p0 = "pool_new_with_global_cap per_pk_cap global_cap" and ?ck = "per_pk_key pk c"
  have "pool_inv p \<and> same_caps ?p0 p"
    unfolding p_def by (intro pool.foldl_inv) (simp add: new_inv same_caps_def)
  then have inv: "pool_inv p" and caps: "sp_share_cap_per_pk_block p = per_pk_cap" "sp_global_share_cap p = global_cap"
    "sp_semantic_reject_tombstone_cap p = max 1 (min global_cap 4096)"
    by (auto simp: same_caps_def pool_new_with_global_cap_def MAX_SEMANTIC_REJECT_TOMBSTONES_def)
  note fc = for_chain_eq [OF inv, of c] and i = inv [unfolded pool_inv_def]
  let ?l = "filter (\<lambda>s. ps_pk s = pk) (for_chain p c)"
  have "distinct (map share_key ?l)" using fc(2) by (rule distinct_map_filter)
  then have "distinct (map (\<lambda>s. (share_key s, s)) ?l)"
    by (auto simp: distinct_map inj_on_def)
  from distinct_card [OF this] have "length ?l = card ((\<lambda>s. (share_key s, s)) ` set ?l)"
    by simp
  also have "\<dots> \<le> card (set (filter (\<lambda>(_, s). per_pk_key (ps_pk s) (ps_c s) = ?ck) (sp_by_key p)))"
    using fc(1) by (intro card_mono) (auto dest: map_of_SomeD)
  also have "\<dots> \<le> used_by (sp_by_key p) ?ck" by (simp only: used_by_def bt_count_def card_length)
  also have "\<dots> \<le> bt_get_or 0 (sp_per_pk_per_c p) ?ck" using i by blast
  also have "\<dots> \<le> per_pk_cap" using i caps(1) by blast
  finally have "length ?l \<le> per_pk_cap" .
  moreover have "card (sp_semantic_reject_tombstones p) \<le> max 1 (min global_cap 4096)"
    using i caps(3) card_length [of "sp_semantic_reject_order p"] by simp
  ultimately show ?thesis using fc i caps by (simp add: pool_size_def)
qed

section \<open>Duplicates over time\<close>

text \<open>The operations that leave an eligible share eligible, and those that leave a reservation alone.\<close>

fun leaves_eligible :: "string \<Rightarrow> string \<Rightarrow> pool_op \<Rightarrow> bool" where
  "leaves_eligible key c (SetCurrentC c') \<longleftrightarrow> c' = c"
| "leaves_eligible key c (Reserve s) \<longleftrightarrow> share_key s \<noteq> key"
| "leaves_eligible key c (Prune c') \<longleftrightarrow> c' = c"
| "leaves_eligible key c _ \<longleftrightarrow> True"

fun leaves_reserved :: "string \<Rightarrow> string option \<Rightarrow> pool_op \<Rightarrow> bool" where
  "leaves_reserved key cur (SetCurrentC c) \<longleftrightarrow> cur = Some c"
| "leaves_reserved key cur (Restore s) \<longleftrightarrow> share_key s \<noteq> key"
| "leaves_reserved key cur (Release s) \<longleftrightarrow> share_key s \<noteq> key"
| "leaves_reserved key cur (Prune c) \<longleftrightarrow> False"
| "leaves_reserved key cur _ \<longleftrightarrow> True"

fun is_reserve :: "pool_op \<Rightarrow> bool" where
  "is_reserve (Reserve s) \<longleftrightarrow> True"
| "is_reserve _ \<longleftrightarrow> False"

definition eligible :: "string \<Rightarrow> string \<Rightarrow> share_pool \<Rightarrow> bool" where
  "eligible key c p \<longleftrightarrow> pool_inv p \<and> (\<exists>s. map_of (sp_by_key p) key = Some s \<and> ps_c s = c) \<and> sp_current_c p \<in> {None, Some c}"

text \<open>A tombstone with at most \<open>n\<close> younger ones.\<close>

definition reserved :: "string \<Rightarrow> string option \<Rightarrow> nat \<Rightarrow> share_pool \<Rightarrow> bool" where
  "reserved key cur n p \<longleftrightarrow> pool_inv p \<and> sp_current_c p = cur \<and>
     (\<exists>older younger. sp_semantic_reject_order p = older @ key # younger \<and> length younger \<le> n)"

lemma remove_active_other:
  assumes "remove_active p k = (r, p')" "key \<noteq> k"
  shows "map_of (sp_by_key p') key = map_of (sp_by_key p) key" "sp_current_c p' = sp_current_c p"
    "sp_semantic_reject_order p' = sp_semantic_reject_order p" "sp_semantic_reject_tombstones p' = sp_semantic_reject_tombstones p"
    "sp_semantic_reject_tombstone_cap p' = sp_semantic_reject_tombstone_cap p"
  using assms by (auto simp: remove_active_def Let_def split: option.split_asm)

lemma eligible_step:
  assumes "eligible key c p" and "leaves_eligible key c op"
  shows "eligible key c (pool_step p op)"
proof -
  from assms(1) obtain s where inv: "pool_inv p" and s: "map_of (sp_by_key p) key = Some s" "ps_c s = c"
    and cur: "sp_current_c p \<in> {None, Some c}" by (auto simp: eligible_def)
  have wf: "bt_wf (sp_by_key p)" using inv by (simp add: pool_inv_def)
  have "map_of (sp_by_key (pool_step p op)) key = Some s \<and> sp_current_c (pool_step p op) \<in> {None, Some c}"
  proof (cases op)
    case (SetCurrentC c')
    then show ?thesis using s cur assms(2) by (auto simp: pool_set_current_c_def)
  next
    case (Accept s')
    then show ?thesis using s cur by (auto simp: accept_def Let_def)
  next
    case (Reserve s')
    obtain r p' where rem: "remove_active p (share_key s') = (r, p')" by fastforce
    note o = remove_active_other [OF rem, of key]
    show ?thesis using Reserve assms(2) s cur rem o
      by (auto simp: reserve_for_semantic_check_def insert_semantic_tombstone_def Let_def split: option.split)
  next
    case (Restore s')
    then show ?thesis using s cur by (auto simp: restore_after_semantic_check_def Let_def)
  next
    case (Release s')
    then show ?thesis using s cur by (auto simp: release_semantic_reservation_def Let_def)
  next
    case (Prune c')
    have "sp_current_c (snd (prune_to_height p c)) = Some c" by (simp add: prune_to_height_def case_prod_beta Let_def)
    with Prune assms(2) s show ?thesis by (simp add: prune_eq(1) [OF inv] map_of_filter_val [OF wf])
  qed
  then show ?thesis using pool_step_inv [OF inv] s(2) by (auto simp: eligible_def)
qed

lemma eligible_run: "eligible key c p \<Longrightarrow> list_all (leaves_eligible key c) ops \<Longrightarrow> eligible key c (foldl pool_step p ops)"
  by (induction ops arbitrary: p) (simp_all add: eligible_step)

lemma filter_split:
  "\<exists>older' younger'. filter (\<lambda>e. e \<noteq> k) (older @ key # younger) = older' @ key # younger' \<and> length younger' \<le> length younger"
  if "k \<noteq> key"
  using that by (intro exI [of _ "filter (\<lambda>e. e \<noteq> k) older"] exI [of _ "filter (\<lambda>e. e \<noteq> k) younger"]) simp

lemma insert_tombstone_reserved:
  assumes "pool_inv p" and "sp_semantic_reject_order p = older @ key # younger" and "length younger \<le> n"
    and "Suc n < sp_semantic_reject_tombstone_cap p"
  shows "\<exists>older' younger'. sp_semantic_reject_order (insert_semantic_tombstone p k) = older' @ key # younger' \<and> length younger' \<le> Suc n"
proof (cases "k \<in> sp_semantic_reject_tombstones p")
  case True
  have "distinct (older @ key # younger)" "length (older @ key # younger) \<le> sp_semantic_reject_tombstone_cap p"
    using assms(1,2) by (simp_all add: pool_inv_def)
  with True assms(2) have "sp_semantic_reject_order (insert_semantic_tombstone p k) = older @ key # younger"
    by (simp add: insert_semantic_tombstone_def Let_def evict_tombstones_eq)
  with assms(3) show ?thesis by (metis le_SucI)
next
  case False
  let ?o = "older @ key # younger @ [k]"
  have "distinct ?o" using assms(1,2) False by (auto simp: pool_inv_def)
  then have "sp_semantic_reject_order (insert_semantic_tombstone p k) = drop (length ?o - sp_semantic_reject_tombstone_cap p) ?o"
    using False assms(2) evict_tombstones_eq [of ?o] by (simp add: insert_semantic_tombstone_def Let_def)
  moreover have "length ?o - sp_semantic_reject_tombstone_cap p \<le> length older" using assms(3,4) by simp
  then have "drop (length ?o - sp_semantic_reject_tombstone_cap p) ?o =
      drop (length ?o - sp_semantic_reject_tombstone_cap p) older @ key # younger @ [k]" by simp
  ultimately show ?thesis using assms(3) by (metis length_append_singleton Suc_le_mono)
qed

lemma reserved_step:
  assumes "reserved key cur n p" and "leaves_reserved key cur op" and "is_reserve op \<Longrightarrow> Suc n < sp_semantic_reject_tombstone_cap p"
  shows "reserved key cur (if is_reserve op then Suc n else n) (pool_step p op)"
proof -
  from assms(1) obtain older younger where inv: "pool_inv p" and cur: "sp_current_c p = cur"
    and o: "sp_semantic_reject_order p = older @ key # younger" "length younger \<le> n" by (auto simp: reserved_def)
  have inv': "pool_inv (pool_step p op)" using pool_step_inv [OF inv] by blast
  have absent: "map_of (sp_by_key p) key = None"
  proof -
    have "key \<in> sp_semantic_reject_tombstones p" using inv o(1) by (auto simp: pool_inv_def)
    then show ?thesis using inv by (auto simp: pool_inv_def)
  qed
  have "sp_current_c (pool_step p op) = cur \<and> (\<exists>older' younger'. sp_semantic_reject_order (pool_step p op) = older' @ key # younger' \<and>
      length younger' \<le> (if is_reserve op then Suc n else n))"
  proof (cases op)
    case (Reserve s)
    show ?thesis
    proof (cases "map_of (sp_by_key p) (share_key s)")
      case None
      then have "pool_step p op = p" using Reserve by (simp add: reserve_for_semantic_check_def remove_active_def)
      then show ?thesis using Reserve cur o by (metis is_reserve.simps(1) le_Suc_eq)
    next
      case (Some s0)
      obtain p' where r: "remove_active p (share_key s) = (Some s0, p')" by (simp add: remove_active_def Some Let_def)
      have "key \<noteq> share_key s" using Some absent by auto
      note rest = remove_active_other [OF r this] and inv_p' = remove_active_inv [OF inv r]
      have step: "pool_step p op = insert_semantic_tombstone p' (share_key s)"
        using Reserve r by (simp add: reserve_for_semantic_check_def)
      have "sp_current_c (pool_step p op) = cur" using step rest(2) cur by (simp add: insert_semantic_tombstone_def Let_def)
      moreover have "\<exists>older' younger'. sp_semantic_reject_order (pool_step p op) = older' @ key # younger' \<and> length younger' \<le> Suc n"
        using insert_tombstone_reserved [of p' older key younger n "share_key s"] inv_p' rest o assms(3) Reserve step by simp
      ultimately show ?thesis using Reserve by simp
    qed
  next
    case (SetCurrentC c)
    then show ?thesis using assms(2) cur o by (auto simp: pool_set_current_c_def)
  next
    case (Accept s)
    then show ?thesis using cur o by (auto simp: accept_def Let_def)
  next
    case (Restore s)
    with assms(2) filter_split [of "share_key s" key older younger] cur o show ?thesis
      by (auto simp: restore_after_semantic_check_def Let_def intro: order_trans)
  next
    case (Release s)
    with assms(2) filter_split [of "share_key s" key older younger] cur o show ?thesis
      by (auto simp: release_semantic_reservation_def Let_def intro: order_trans)
  next
    case (Prune c)
    with assms(2) show ?thesis by simp
  qed
  with inv' show ?thesis by (simp add: reserved_def)
qed

lemma reserved_fresh:
  assumes "pool_inv p" and "fst (accept p s) = AcceptOk" and "p1 = snd (accept p s)" and "p2 = snd (reserve_for_semantic_check p1 s)"
  shows "reserved (share_key s) (sp_current_c p) 0 p2"
proof -
  let ?k = "share_key s" and ?o = "sp_semantic_reject_order p @ [share_key s]"
  note r = reserve_accepted [OF assms(1,2), folded assms(3), folded assms(4)] and ok = assms(2) [unfolded accept_ok_eq]
  have p1: "p1 = insert_active p s" unfolding assms(3) using accept_ok_pool [OF assms(2)] .
  obtain p' where p': "remove_active p1 ?k = (Some s, p')" "sp_semantic_reject_order p' = sp_semantic_reject_order p"
    "sp_semantic_reject_tombstones p' = sp_semantic_reject_tombstones p" "sp_semantic_reject_tombstone_cap p' = sp_semantic_reject_tombstone_cap p"
    by (auto simp: p1 remove_active_def insert_active_def Let_def)
  have d: "distinct ?o" using assms(1) ok by (simp add: pool_inv_def)
  have c: "length ?o - sp_semantic_reject_tombstone_cap p \<le> length (sp_semantic_reject_order p)" using assms(1) by (auto simp: pool_inv_def)
  have "p2 = insert_semantic_tombstone p' ?k" using p'(1) by (simp add: assms(4) reserve_for_semantic_check_def)
  then have "sp_semantic_reject_order p2 = drop (length ?o - sp_semantic_reject_tombstone_cap p) ?o"
    using p'(2-4) ok evict_tombstones_eq [OF d] by (simp add: insert_semantic_tombstone_def Let_def)
  with c have "sp_semantic_reject_order p2 = drop (length ?o - sp_semantic_reject_tombstone_cap p) (sp_semantic_reject_order p) @ [?k]" by simp
  with r(4,8) show ?thesis by (auto simp: reserved_def)
qed

lemma reserved_run:
  "reserved key cur n p \<Longrightarrow> list_all (leaves_reserved key cur) ops \<Longrightarrow>
     n + length (filter is_reserve ops) < sp_semantic_reject_tombstone_cap p \<Longrightarrow>
     reserved key cur (n + length (filter is_reserve ops)) (foldl pool_step p ops)"
proof (induction ops arbitrary: p n)
  case (Cons op ops)
  have inv: "pool_inv p" using Cons.prems(1) by (simp add: reserved_def)
  have "reserved key cur (if is_reserve op then Suc n else n) (pool_step p op)"
    using Cons.prems by (intro reserved_step) auto
  moreover have "sp_semantic_reject_tombstone_cap (pool_step p op) = sp_semantic_reject_tombstone_cap p"
    using pool_step_inv [OF inv] by (simp add: same_caps_def)
  ultimately show ?case
    using Cons.IH [of "if is_reserve op then Suc n else n" "pool_step p op"] Cons.prems(2,3) by (auto split: if_split_asm)
qed simp

lemma eligible_duplicate: "eligible (share_key s) (ps_c s) p \<Longrightarrow> fst (accept p s) = AcceptErr Duplicate"
  by (auto simp: eligible_def accept_def Let_def split: option.split)

lemma reserved_duplicate: "reserved (share_key s) cur n p \<Longrightarrow> cur \<in> {None, Some (ps_c s)} \<Longrightarrow> fst (accept p s) = AcceptErr Duplicate"
  by (auto simp: reserved_def pool_inv_def accept_def Let_def split: option.split)



end
