(* ===== verification/Rate_Limiter.thy ===== *)
theory Rate_Limiter
  imports Config
begin

text \<open>
  rate_limiter.rs: per-source and per-key admission quotas. Timestamps and counters are \<open>i64\<close>:
  integers, with the input-dependent subtraction and product of \<open>peek\<close> and \<open>commit\<close> checked (\<^const>\<open>None\<close> is
  the overflow panic). The counters that grow by one per call are plain integers: \<open>2 ^ 63\<close> calls are
  out of reach. \<open>HashMap\<close>s are only looked up, counted and filtered, so their order does not matter.
\<close>

section \<open>Data\<close>

definition MAX_CURRENT_HEAD_RATE_IDENTITIES :: nat where
  "MAX_CURRENT_HEAD_RATE_IDENTITIES = 4096"

definition MAX_ACTIVE_RATE_SOURCE_IPS :: nat where
  "MAX_ACTIVE_RATE_SOURCE_IPS = 4096"

definition SEEN_TICKETS_CAP :: nat where
  "SEEN_TICKETS_CAP = 1000000"

datatype rate_limit_reject_reason = IpQuota | PkQuota

datatype rate_limit_result = Allowed | Rejected rate_limit_reject_reason

fun rate_limit_reason_as_str :: "rate_limit_reject_reason \<Rightarrow> string" where
  "rate_limit_reason_as_str IpQuota = ''ip_quota''"
| "rate_limit_reason_as_str PkQuota = ''pk_quota''"

fun rate_limit_result_json :: "rate_limit_result \<Rightarrow> json" where
  "rate_limit_result_json Allowed = JObject [(''allowed'', JBool True)]"
| "rate_limit_result_json (Rejected reason) =
     JObject [(''allowed'', JBool False), (''reason'', JString (rate_limit_reason_as_str reason))]"

record rate_limiter =
  rl_m :: int
  rl_per_ip_rate_limit_per_60s :: nat
  rl_window_ms :: int
  rl_current_c :: "string option"
  rl_ip :: "(string, int list) btree"
  rl_pk_count :: "(string, int) btree"
  rl_pk_tickets :: "(string, int) btree"
  rl_seen_tickets :: "string set"
  rl_exact_tickets_per_pk_c :: "(string, int) btree"
  rl_identity_order :: "string list"
  rl_tracked_identities :: "string set"

definition i64_checked :: "int \<Rightarrow> int option" where
  "i64_checked i = (if - (2 ^ 63) \<le> i \<and> i < 2 ^ 63 then Some i else None)"

definition rate_key :: "string \<Rightarrow> string \<Rightarrow> string" where
  "rate_key pk c = pk @ ''|'' @ c"

definition ticket_key :: "string \<Rightarrow> string \<Rightarrow> string \<Rightarrow> string" where
  "ticket_key pk c n = pk @ ''|'' @ c @ ''|'' @ n"

section \<open>Construction and reset\<close>

definition limiter_from_policy :: "calibration_policy \<Rightarrow> int \<Rightarrow> rate_limiter" where
  "limiter_from_policy policy window_ms =
     \<lparr>rl_m = cp_m policy, rl_per_ip_rate_limit_per_60s = cp_per_ip_rate_limit_per_60s policy,
      rl_window_ms = window_ms, rl_current_c = None, rl_ip = [], rl_pk_count = [], rl_pk_tickets = [],
      rl_seen_tickets = {}, rl_exact_tickets_per_pk_c = [], rl_identity_order = [], rl_tracked_identities = {}\<rparr>"

definition limiter_from_calibration_report :: "ext \<Rightarrow> calibration_report \<Rightarrow> int \<Rightarrow> config_error + rate_limiter" where
  "limiter_from_calibration_report E cfg window_ms =
     rbind (find_calibration_policy E cfg) (\<lambda>policy. Ok (limiter_from_policy policy window_ms))"

text \<open>The constructor panics on an invalid report.\<close>

definition limiter_new :: "ext \<Rightarrow> calibration_report \<Rightarrow> int \<Rightarrow> rate_limiter option" where
  "limiter_new E cfg window_ms = result_ok (limiter_from_calibration_report E cfg window_ms)"

definition clear_identity_state :: "rate_limiter \<Rightarrow> rate_limiter" where
  "clear_identity_state r =
     r\<lparr>rl_pk_count := [], rl_pk_tickets := [], rl_seen_tickets := {}, rl_exact_tickets_per_pk_c := [],
       rl_identity_order := [], rl_tracked_identities := {}\<rparr>"

definition limiter_reset :: "rate_limiter \<Rightarrow> rate_limiter" where
  "limiter_reset r = clear_identity_state (r\<lparr>rl_current_c := None, rl_ip := []\<rparr>)"

definition limiter_set_current_c :: "rate_limiter \<Rightarrow> string \<Rightarrow> rate_limiter" where
  "limiter_set_current_c r c =
     (if rl_current_c r = Some c then r else clear_identity_state (r\<lparr>rl_current_c := Some c\<rparr>))"

section \<open>Tickets\<close>

text \<open>\<open>iter().position(p)\<close>: the first index that satisfies \<open>p\<close>.\<close>

fun position :: "('a \<Rightarrow> bool) \<Rightarrow> 'a list \<Rightarrow> nat option" where
  "position P [] = None"
| "position P (x # xs) = (if P x then Some 0 else map_option Suc (position P xs))"

definition remove_nth :: "nat \<Rightarrow> 'a list \<Rightarrow> 'a list" where
  "remove_nth i xs = take i xs @ drop (Suc i) xs"

definition track_identity :: "rate_limiter \<Rightarrow> string \<Rightarrow> bool \<times> rate_limiter" where
  "track_identity r identity =
     (if identity \<in> rl_tracked_identities r then (True, r)
      else
        let evicted =
          (if card (rl_tracked_identities r) \<ge> MAX_CURRENT_HEAD_RATE_IDENTITIES
           then (case position (\<lambda>oldest. bt_get_or 0 (rl_pk_count r) oldest = 0) (rl_identity_order r) of
                   None \<Rightarrow> None
                 | Some i \<Rightarrow>
                     let oldest = rl_identity_order r ! i
                     in Some (r\<lparr>rl_identity_order := remove_nth i (rl_identity_order r),
                                rl_tracked_identities := rl_tracked_identities r - {oldest},
                                rl_pk_count := bt_remove oldest (rl_pk_count r),
                                rl_pk_tickets := bt_remove oldest (rl_pk_tickets r),
                                rl_exact_tickets_per_pk_c := bt_remove oldest (rl_exact_tickets_per_pk_c r)\<rparr>))
           else Some r)
        in case evicted of
             None \<Rightarrow> (False, r)
           | Some r' \<Rightarrow> (True, r'\<lparr>rl_tracked_identities := insert identity (rl_tracked_identities r'),
                                rl_identity_order := rl_identity_order r' @ [identity]\<rparr>))"

definition bump :: "string \<Rightarrow> (string, int) btree \<Rightarrow> (string, int) btree" where
  "bump k m = bt_insert k (bt_get_or 0 m k + 1) m"

definition observe_ticket :: "rate_limiter \<Rightarrow> string \<Rightarrow> string \<Rightarrow> string option \<Rightarrow> bool \<times> rate_limiter" where
  "observe_ticket r pk c n =
     (if (case rl_current_c r of Some current \<Rightarrow> current \<noteq> c | None \<Rightarrow> False) then (False, r)
      else
        let pc = rate_key pk c in
        case n of
          Some n \<Rightarrow>
            let tk = ticket_key pk c n in
            if tk \<in> rl_seen_tickets r
            then (if pc \<notin> rl_tracked_identities r
                  then (case track_identity r pc of
                          (True, r1) \<Rightarrow>
                            (False, r1\<lparr>rl_exact_tickets_per_pk_c := bump pc (rl_exact_tickets_per_pk_c r1),
                                       rl_pk_tickets := bump pc (rl_pk_tickets r1)\<rparr>)
                        | (False, r1) \<Rightarrow> (False, r1))
                  else (False, r))
            else
              (case track_identity r pc of
                 (False, r1) \<Rightarrow> (False, r1)
               | (True, r1) \<Rightarrow>
                   let r2 = r1\<lparr>rl_seen_tickets := insert tk (rl_seen_tickets r1),
                               rl_exact_tickets_per_pk_c := bump pc (rl_exact_tickets_per_pk_c r1)\<rparr>;
                       r3 = (if card (rl_seen_tickets r2) > SEEN_TICKETS_CAP
                             then r2\<lparr>rl_seen_tickets := {}, rl_exact_tickets_per_pk_c := []\<rparr> else r2)
                   in (True, r3\<lparr>rl_pk_tickets := bump pc (rl_pk_tickets r3)\<rparr>))
        | None \<Rightarrow>
            (case track_identity r pc of
               (False, r1) \<Rightarrow> (False, r1)
             | (True, r1) \<Rightarrow> (True, r1\<lparr>rl_pk_tickets := bump pc (rl_pk_tickets r1)\<rparr>)))"

definition has_observed_ticket :: "rate_limiter \<Rightarrow> string \<Rightarrow> string \<Rightarrow> string \<Rightarrow> bool" where
  "has_observed_ticket r pk c n =
     (let pc = rate_key pk c in
      if bt_get_or 0 (rl_exact_tickets_per_pk_c r) pc = 0
      then bt_get_or 0 (rl_pk_tickets r) pc > 0
      else ticket_key pk c n \<in> rl_seen_tickets r)"

section \<open>Quotas\<close>

definition tracked_identity_len :: "rate_limiter \<Rightarrow> nat" where
  "tracked_identity_len r = card (rl_tracked_identities r)"

definition tracked_source_ip_len :: "rate_limiter \<Rightarrow> nat" where
  "tracked_source_ip_len r = length (rl_ip r)"

definition seen_tickets_len :: "rate_limiter \<Rightarrow> nat" where
  "seen_tickets_len r = card (rl_seen_tickets r)"

definition peek :: "rate_limiter \<Rightarrow> int \<Rightarrow> string \<Rightarrow> string \<Rightarrow> string \<Rightarrow> rate_limit_result option" where
  "peek r now ip pk c =
     Option.bind (i64_checked (now - rl_window_ms r)) (\<lambda>cutoff.
     let ip_count = (case map_of (rl_ip r) ip of
           Some timestamps \<Rightarrow> length (filter (\<lambda>ts. ts \<ge> cutoff) timestamps) | None \<Rightarrow> 0)
     in if ip_count \<ge> rl_per_ip_rate_limit_per_60s r then Some (Rejected IpQuota)
        else if map_of (rl_ip r) ip = None \<and>
                length (filter (\<lambda>(_, timestamps). list_ex (\<lambda>ts. ts \<ge> cutoff) timestamps) (rl_ip r))
                  \<ge> MAX_ACTIVE_RATE_SOURCE_IPS
        then Some (Rejected IpQuota)
        else
          let k = rate_key pk c; tickets = bt_get_or 0 (rl_pk_tickets r) k in
          Option.bind (i64_checked (tickets * rl_m r)) (\<lambda>ceiling.
          let used = bt_get_or 0 (rl_pk_count r) k
          in Some (if used \<ge> ceiling then Rejected PkQuota else Allowed)))"

definition drop_expired :: "int \<Rightarrow> int list \<Rightarrow> int list" where
  "drop_expired cutoff timestamps = dropWhile (\<lambda>ts. ts < cutoff) timestamps"

definition commit :: "rate_limiter \<Rightarrow> int \<Rightarrow> string \<Rightarrow> string \<Rightarrow> string \<Rightarrow> rate_limiter option" where
  "commit r now ip pk c =
     Option.bind (i64_checked (now - rl_window_ms r)) (\<lambda>cutoff.
     let ips = (if map_of (rl_ip r) ip = None \<and> length (rl_ip r) \<ge> MAX_ACTIVE_RATE_SOURCE_IPS
                then filter (\<lambda>(_, timestamps). timestamps \<noteq> [])
                       (map (\<lambda>(source, timestamps). (source, drop_expired cutoff timestamps)) (rl_ip r))
                else rl_ip r);
         timestamps = drop_expired cutoff (bt_get_or [] ips ip) @ [now]
     in Some (r\<lparr>rl_ip := bt_insert ip timestamps ips, rl_pk_count := bump (rate_key pk c) (rl_pk_count r)\<rparr>))"

definition limiter_check :: "rate_limiter \<Rightarrow> int \<Rightarrow> string \<Rightarrow> string \<Rightarrow> string \<Rightarrow> (rate_limit_result \<times> rate_limiter) option" where
  "limiter_check r now ip pk c =
     Option.bind (peek r now ip pk c) (\<lambda>result.
     if result = Allowed then map_option (\<lambda>r'. (result, r')) (commit r now ip pk c) else Some (result, r))"

definition check_json :: "rate_limiter \<Rightarrow> int \<Rightarrow> string \<Rightarrow> string \<Rightarrow> string \<Rightarrow> (json \<times> rate_limiter) option" where
  "check_json r now ip pk c =
     map_option (\<lambda>(result, r'). (rate_limit_result_json result, r')) (limiter_check r now ip pk c)"

definition release_committed :: "rate_limiter \<Rightarrow> int \<Rightarrow> string \<Rightarrow> string \<Rightarrow> string \<Rightarrow> bool \<times> rate_limiter" where
  "release_committed r now ip pk c =
     (let k = rate_key pk c in
      case Option.bind (map_of (rl_ip r) ip) (position (\<lambda>timestamp. timestamp = now)) of
        None \<Rightarrow> (False, r)
      | Some i \<Rightarrow>
          let has_pk_charge = bt_get_or 0 (rl_pk_count r) k > 0 in
          if \<not> has_pk_charge \<and> (case rl_current_c r of None \<Rightarrow> True | Some head \<Rightarrow> head = c) then (False, r)
          else
            let timestamps = remove_nth i (bt_get_or [] (rl_ip r) ip);
                ips = (if timestamps = [] then bt_remove ip (rl_ip r) else bt_insert ip timestamps (rl_ip r));
                used = bt_get_or 0 (rl_pk_count r) k - 1;
                counts = (if has_pk_charge
                          then (if used = 0 then bt_remove k (rl_pk_count r) else bt_insert k used (rl_pk_count r))
                          else rl_pk_count r)
            in (True, r\<lparr>rl_ip := ips, rl_pk_count := counts\<rparr>))"

end
