(* ===== verification/Rate_Limiter_Theorems.thy ===== *)
theory Rate_Limiter_Theorems
  imports Rate_Limiter
begin

text \<open>
  The rate limiter's memory is bounded and its quotas hold, in every state reached by any sequence of
  calls.
\<close>

section \<open>Invariant\<close>

definition quota_ok :: "int \<Rightarrow> (string, int) btree \<Rightarrow> (string, int) btree \<Rightarrow> bool" where
  "quota_ok m tickets counts \<longleftrightarrow>
     (\<forall>k. 0 \<le> bt_get_or 0 tickets k \<and> 0 \<le> bt_get_or 0 counts k \<and> bt_get_or 0 counts k \<le> bt_get_or 0 tickets k * m)"

definition limiter_inv :: "rate_limiter \<Rightarrow> bool" where
  "limiter_inv r \<longleftrightarrow>
     0 \<le> rl_m r \<and> bt_wf (rl_ip r) \<and>
     distinct (rl_identity_order r) \<and> set (rl_identity_order r) = rl_tracked_identities r \<and>
     length (rl_identity_order r) \<le> MAX_CURRENT_HEAD_RATE_IDENTITIES \<and>
     length (rl_ip r) \<le> MAX_ACTIVE_RATE_SOURCE_IPS \<and>
     finite (rl_seen_tickets r) \<and> card (rl_seen_tickets r) \<le> SEEN_TICKETS_CAP \<and>
     quota_ok (rl_m r) (rl_pk_tickets r) (rl_pk_count r)"

lemma card_tracked: "limiter_inv r \<Longrightarrow> card (rl_tracked_identities r) = length (rl_identity_order r)"
  by (metis distinct_card limiter_inv_def)

lemma limiter_start_inv: "0 \<le> cp_m policy \<Longrightarrow> limiter_inv (limiter_from_policy policy w)"
  by (simp add: limiter_inv_def limiter_from_policy_def quota_ok_def)

lemma clear_identity_state_inv: "limiter_inv r \<Longrightarrow> limiter_inv (clear_identity_state r)"
  by (simp add: limiter_inv_def clear_identity_state_def quota_ok_def)

lemma limiter_set_current_c_inv: "limiter_inv r \<Longrightarrow> limiter_inv (limiter_set_current_c r c)"
  by (auto simp: limiter_set_current_c_def intro!: clear_identity_state_inv) (simp add: limiter_inv_def)

lemma limiter_reset_inv: "limiter_inv r \<Longrightarrow> limiter_inv (limiter_reset r)"
  unfolding limiter_reset_def by (rule clear_identity_state_inv) (simp add: limiter_inv_def)

section \<open>Tickets\<close>

lemma quota_ok_bump: "0 \<le> m \<Longrightarrow> quota_ok m tickets counts \<Longrightarrow> quota_ok m (bump k tickets) counts"
  by (auto simp: quota_ok_def bump_def distrib_right intro: order_trans)

lemma quota_ok_remove: "quota_ok m tickets counts \<Longrightarrow> quota_ok m (bt_remove k tickets) (bt_remove k counts)"
  by (simp add: quota_ok_def)

lemma position_Some: "position P xs = Some i \<Longrightarrow> i < length xs \<and> P (xs ! i)"
  by (induction xs arbitrary: i) (auto split: if_splits)

lemma remove_nth_set:
  assumes "distinct xs" and "i < length xs"
  shows "distinct (remove_nth i xs)" and "set (remove_nth i xs) = set xs - {xs ! i}"
    and "Suc (length (remove_nth i xs)) = length xs"
proof -
  have xs: "xs = take i xs @ xs ! i # drop (Suc i) xs" using assms(2) by (simp add: id_take_nth_drop)
  have d: "distinct (take i xs @ xs ! i # drop (Suc i) xs)" using assms(1) xs by simp
  then show "distinct (remove_nth i xs)" by (auto simp: remove_nth_def)
  have "set xs = set (take i xs @ xs ! i # drop (Suc i) xs)" using xs by simp
  with d show "set (remove_nth i xs) = set xs - {xs ! i}" by (auto simp: remove_nth_def)
  show "Suc (length (remove_nth i xs)) = length xs" using assms(2) by (simp add: remove_nth_def)
qed

lemma track_identity_inv:
  assumes "limiter_inv r" and "track_identity r identity = (ok, r')"
  shows "limiter_inv r' \<and> rl_seen_tickets r' = rl_seen_tickets r \<and> rl_m r' = rl_m r"
proof -
  note inv = assms(1) [unfolded limiter_inv_def] and card = card_tracked [OF assms(1)]
  show ?thesis
  proof (cases "identity \<in> rl_tracked_identities r")
    case True
    with assms show ?thesis by (simp add: track_identity_def)
  next
    case new: False
    show ?thesis
    proof (cases "length (rl_identity_order r) < MAX_CURRENT_HEAD_RATE_IDENTITIES")
      case True
      then have "r' = r\<lparr>rl_tracked_identities := insert identity (rl_tracked_identities r),
          rl_identity_order := rl_identity_order r @ [identity]\<rparr>"
        using assms(2) new card by (simp add: track_identity_def Let_def)
      with True inv new show ?thesis by (simp add: limiter_inv_def)
    next
      case full: False
      let ?pos = "position (\<lambda>oldest. bt_get_or 0 (rl_pk_count r) oldest = 0) (rl_identity_order r)"
      show ?thesis
      proof (cases ?pos)
        case None
        with assms new full card show ?thesis by (simp add: track_identity_def Let_def not_less)
      next
        case (Some i)
        let ?old = "rl_identity_order r ! i"
        have i: "i < length (rl_identity_order r)" using position_Some [OF Some] by blast
        have r': "r' = r\<lparr>rl_identity_order := remove_nth i (rl_identity_order r) @ [identity],
            rl_tracked_identities := insert identity (rl_tracked_identities r - {?old}),
            rl_pk_count := bt_remove ?old (rl_pk_count r), rl_pk_tickets := bt_remove ?old (rl_pk_tickets r),
            rl_exact_tickets_per_pk_c := bt_remove ?old (rl_exact_tickets_per_pk_c r)\<rparr>"
          using assms(2) new full card Some by (auto simp: track_identity_def Let_def not_less)
        have "distinct (rl_identity_order r)" using inv by blast
        note e = remove_nth_set [OF this i]
        have "length (remove_nth i (rl_identity_order r) @ [identity]) \<le> MAX_CURRENT_HEAD_RATE_IDENTITIES"
          using e(3) inv by simp
        with e(1,2) inv new show ?thesis unfolding r' limiter_inv_def by (simp add: quota_ok_remove)
      qed
    qed
  qed
qed

lemma observe_ticket_inv:
  assumes "limiter_inv r"
  shows "limiter_inv (snd (observe_ticket r pk c n))"
proof -
  obtain ok r1 where t: "track_identity r (rate_key pk c) = (ok, r1)" by (cases "track_identity r (rate_key pk c)")
  have inv1: "limiter_inv r1" using track_identity_inv [OF assms t] by blast
  then have seen1: "finite (insert tk (rl_seen_tickets r1))" for tk by (simp add: limiter_inv_def)
  have b: "limiter_inv (r1\<lparr>rl_pk_tickets := bump k (rl_pk_tickets r1)\<rparr>)"
    "limiter_inv (r1\<lparr>rl_exact_tickets_per_pk_c := x, rl_pk_tickets := bump k (rl_pk_tickets r1)\<rparr>)" for k x
    using inv1 by (simp_all add: limiter_inv_def quota_ok_bump)
  have c: "limiter_inv (r1\<lparr>rl_seen_tickets := S, rl_exact_tickets_per_pk_c := x, rl_pk_tickets := bump k (rl_pk_tickets r1)\<rparr>)"
    if "finite S" "card S \<le> SEEN_TICKETS_CAP" for S x k
    using b(1) [of k] that by (simp add: limiter_inv_def)
  show ?thesis
  proof (cases "case rl_current_c r of Some current \<Rightarrow> current \<noteq> c | None \<Rightarrow> False")
    case True
    with assms show ?thesis by (simp add: observe_ticket_def)
  next
    case fresh: False
    show ?thesis
    proof (cases n)
      case None
      with fresh inv1 b(1) show ?thesis by (simp add: observe_ticket_def Let_def t split: bool.split)
    next
      case (Some m)
      let ?tk = "ticket_key pk c m"
      show ?thesis
      proof (cases "?tk \<in> rl_seen_tickets r")
        case True
        with fresh Some assms inv1 b(2) show ?thesis
          by (simp add: observe_ticket_def Let_def t split: bool.split)
      next
        case False
        show ?thesis
        proof (cases "card (insert ?tk (rl_seen_tickets r1)) \<le> SEEN_TICKETS_CAP")
          case True
          with fresh Some False inv1 c [OF seen1, of ?tk] show ?thesis
            by (simp add: observe_ticket_def Let_def t not_less [symmetric] split: bool.split)
        next
          case over: False
          with fresh Some False inv1 c [of "{}"] show ?thesis
            by (simp add: observe_ticket_def Let_def t not_le split: bool.split)
        qed
      qed
    qed
  qed
qed

section \<open>Quotas\<close>

lemma drop_expired_filter: "filter (\<lambda>ts. ts \<ge> cutoff) (drop_expired cutoff tss) = filter (\<lambda>ts. ts \<ge> cutoff) tss"
  by (induction tss) (auto simp: drop_expired_def)

lemma drop_expired_nonempty: "drop_expired cutoff tss \<noteq> [] \<Longrightarrow> list_ex (\<lambda>ts. ts \<ge> cutoff) tss"
  by (auto simp: drop_expired_def dropWhile_eq_Nil_conv list_ex_iff not_less)

lemma peek_Allowed:
  assumes "peek r now ip pk c = Some Allowed"
  obtains cutoff where "cutoff = now - rl_window_ms r" and "i64_checked (now - rl_window_ms r) = Some cutoff"
    and "length (filter (\<lambda>ts. ts \<ge> cutoff) (bt_get_or [] (rl_ip r) ip)) < rl_per_ip_rate_limit_per_60s r"
    and "map_of (rl_ip r) ip = None \<longrightarrow>
      length (filter (\<lambda>(_, tss). list_ex (\<lambda>ts. ts \<ge> cutoff) tss) (rl_ip r)) < MAX_ACTIVE_RATE_SOURCE_IPS"
    and "bt_get_or 0 (rl_pk_count r) (rate_key pk c) < bt_get_or 0 (rl_pk_tickets r) (rate_key pk c) * rl_m r"
proof -
  from assms obtain cutoff where cutoff: "i64_checked (now - rl_window_ms r) = Some cutoff"
    by (auto simp: peek_def bind_eq_Some_conv)
  then have eq: "cutoff = now - rl_window_ms r" by (auto simp: i64_checked_def split: if_splits)
  have a: "length (filter (\<lambda>ts. ts \<ge> cutoff) (bt_get_or [] (rl_ip r) ip)) < rl_per_ip_rate_limit_per_60s r"
    using assms cutoff by (auto simp: peek_def Let_def bt_get_or_def not_le split: option.splits if_splits)
  have b: "map_of (rl_ip r) ip = None \<longrightarrow>
      length (filter (\<lambda>(_, tss). list_ex (\<lambda>ts. ts \<ge> cutoff) tss) (rl_ip r)) < MAX_ACTIVE_RATE_SOURCE_IPS"
    using assms cutoff by (auto simp: peek_def Let_def not_le split: if_splits)
  have q: "bt_get_or 0 (rl_pk_count r) (rate_key pk c) < bt_get_or 0 (rl_pk_tickets r) (rate_key pk c) * rl_m r"
    using assms cutoff
    by (auto simp: peek_def Let_def bind_eq_Some_conv i64_checked_def not_le split: if_splits)
  show thesis by (rule that [OF eq cutoff a b q])
qed

lemma bt_wf_map_val: "bt_wf (map (\<lambda>(k, v). (k, f v)) m) \<longleftrightarrow> bt_wf m"
  by (simp add: bt_wf_def comp_def case_prod_beta)

lemma length_bt_insert_le: "length (bt_insert k v m) \<le> Suc (length m)"
  by (induction k v m rule: bt_insert.induct) auto

lemma length_bt_insert_old: "map_of m k = Some w \<Longrightarrow> bt_wf m \<Longrightarrow> length (bt_insert k v m) = length m"
  by (induction k v m rule: bt_insert.induct)
    (auto simp: bt_wf_Cons split: if_splits, metis fst_conv less_asym map_of_SomeD)

lemma commit_inv:
  assumes "limiter_inv r" and "peek r now ip pk c = Some Allowed" and "commit r now ip pk c = Some r'"
  shows "limiter_inv r'"
    and "length (filter (\<lambda>ts. ts \<ge> now - rl_window_ms r) (bt_get_or [] (rl_ip r') ip)) \<le> rl_per_ip_rate_limit_per_60s r"
proof -
  note inv = assms(1) [unfolded limiter_inv_def]
  from assms(2) obtain cutoff where cut: "cutoff = now - rl_window_ms r" "i64_checked (now - rl_window_ms r) = Some cutoff"
    and count: "length (filter (\<lambda>ts. ts \<ge> cutoff) (bt_get_or [] (rl_ip r) ip)) < rl_per_ip_rate_limit_per_60s r"
    and active: "map_of (rl_ip r) ip = None \<longrightarrow>
      length (filter (\<lambda>(_, tss). list_ex (\<lambda>ts. ts \<ge> cutoff) tss) (rl_ip r)) < MAX_ACTIVE_RATE_SOURCE_IPS"
    and quota: "bt_get_or 0 (rl_pk_count r) (rate_key pk c) < bt_get_or 0 (rl_pk_tickets r) (rate_key pk c) * rl_m r"
    by (rule peek_Allowed)
  define purged where "purged = filter (\<lambda>(_, tss). tss \<noteq> []) (map (\<lambda>(src, tss). (src, drop_expired cutoff tss)) (rl_ip r))"
  define ips where "ips = (if map_of (rl_ip r) ip = None \<and> length (rl_ip r) \<ge> MAX_ACTIVE_RATE_SOURCE_IPS then purged else rl_ip r)"
  have r': "r' = r\<lparr>rl_ip := bt_insert ip (drop_expired cutoff (bt_get_or [] ips ip) @ [now]) ips,
      rl_pk_count := bump (rate_key pk c) (rl_pk_count r)\<rparr>"
    using assms(3) unfolding commit_def Let_def cut(2) ips_def purged_def by (auto split del: if_split)
  have wf: "bt_wf ips" using inv by (simp add: ips_def purged_def bt_wf_filter bt_wf_map_val)
  have "length purged = length (filter (\<lambda>(_, tss). drop_expired cutoff tss \<noteq> []) (rl_ip r))"
    by (simp add: purged_def filter_map comp_def case_prod_unfold)
  also have "\<dots> \<le> length (filter (\<lambda>(_, tss). list_ex (\<lambda>ts. ts \<ge> cutoff) tss) (rl_ip r))"
  proof -
    have "length (filter P xs) \<le> length (filter Q xs)" if "\<And>x. P x \<Longrightarrow> Q x" for P Q and xs :: "(string \<times> int list) list"
      using that by (induction xs) auto
    from this [of "\<lambda>(_, tss). drop_expired cutoff tss \<noteq> []" "\<lambda>(_, tss). list_ex (\<lambda>ts. ts \<ge> cutoff) tss"]
    show ?thesis by (auto dest: drop_expired_nonempty)
  qed
  finally have purged: "length purged < MAX_ACTIVE_RATE_SOURCE_IPS" if "map_of (rl_ip r) ip = None"
    using active that by linarith
  have "length (bt_insert ip v ips) \<le> MAX_ACTIVE_RATE_SOURCE_IPS" for v
  proof (cases "map_of (rl_ip r) ip")
    case None
    then have "length ips < MAX_ACTIVE_RATE_SOURCE_IPS" using purged by (auto simp: ips_def)
    with length_bt_insert_le [of ip v ips] show ?thesis by linarith
  next
    case (Some w)
    with inv length_bt_insert_old [OF Some] show ?thesis by (simp add: ips_def)
  qed
  moreover have "quota_ok (rl_m r) (rl_pk_tickets r) (bump (rate_key pk c) (rl_pk_count r))"
    using inv quota by (auto simp: quota_ok_def bump_def)
  ultimately show "limiter_inv r'" using inv wf by (simp add: limiter_inv_def r')
  have "map_of purged ip = None" if "map_of (rl_ip r) ip = None"
    using that by (force simp: purged_def map_of_eq_None_iff)
  then have "bt_get_or [] ips ip = bt_get_or [] (rl_ip r) ip" by (auto simp: ips_def bt_get_or_def)
  with count show "length (filter (\<lambda>ts. ts \<ge> now - rl_window_ms r) (bt_get_or [] (rl_ip r') ip)) \<le> rl_per_ip_rate_limit_per_60s r"
    by (simp add: r' cut(1) [symmetric] drop_expired_filter)
qed

lemma release_committed_inv:
  assumes "limiter_inv r"
  shows "limiter_inv (snd (release_committed r now ip pk c))"
proof (cases "fst (release_committed r now ip pk c)")
  case True
  let ?k = "rate_key pk c"
  define ips where "ips = rl_ip (snd (release_committed r now ip pk c))"
  define counts where "counts = rl_pk_count (snd (release_committed r now ip pk c))"
  note inv = assms [unfolded limiter_inv_def]
  from True obtain i tss where i: "map_of (rl_ip r) ip = Some tss" "position (\<lambda>t. t = now) tss = Some i"
    by (auto simp: release_committed_def Let_def bind_eq_Some_conv split: option.splits if_splits)
  have eq: "snd (release_committed r now ip pk c) = r\<lparr>rl_ip := ips, rl_pk_count := counts\<rparr>"
    using i by (simp add: ips_def counts_def release_committed_def Let_def)
  have "ips = (if remove_nth i tss = [] then bt_remove ip (rl_ip r) else bt_insert ip (remove_nth i tss) (rl_ip r))"
    using i True by (auto simp: ips_def release_committed_def Let_def bt_get_or_def split: if_splits)
  then have "bt_wf ips" "length ips \<le> MAX_ACTIVE_RATE_SOURCE_IPS"
    using inv i length_bt_insert_old [OF i(1)] by (auto simp: bt_remove_def bt_wf_filter intro: order_trans [OF length_filter_le])
  moreover have get: "bt_get_or 0 counts k = (if k = ?k \<and> bt_get_or 0 (rl_pk_count r) ?k > 0
      then bt_get_or 0 (rl_pk_count r) ?k - 1 else bt_get_or 0 (rl_pk_count r) k)" for k
    using i True by (auto simp: counts_def release_committed_def Let_def split: if_splits)
  have "quota_ok (rl_m r) (rl_pk_tickets r) counts"
    unfolding quota_ok_def
  proof
    fix k
    have "0 \<le> bt_get_or 0 (rl_pk_tickets r) k \<and> 0 \<le> bt_get_or 0 (rl_pk_count r) k \<and>
        bt_get_or 0 (rl_pk_count r) k \<le> bt_get_or 0 (rl_pk_tickets r) k * rl_m r"
      using inv unfolding quota_ok_def by blast
    with get [of k] show "0 \<le> bt_get_or 0 (rl_pk_tickets r) k \<and> 0 \<le> bt_get_or 0 counts k \<and>
        bt_get_or 0 counts k \<le> bt_get_or 0 (rl_pk_tickets r) k * rl_m r"
      by (auto split: if_splits)
  qed
  ultimately show ?thesis using inv by (simp add: eq limiter_inv_def)
next
  case False
  then show ?thesis using assms
    by (auto simp: release_committed_def Let_def split: option.splits if_splits)
qed

section \<open>Reachable limiters\<close>

datatype limiter_op =
    Observe string string "string option"
  | SetHead string
  | Check int string string string
  | ReleaseCommitted int string string string
  | Reset

fun limiter_step :: "rate_limiter \<Rightarrow> limiter_op \<Rightarrow> rate_limiter" where
  "limiter_step r (Observe pk c n) = snd (observe_ticket r pk c n)"
| "limiter_step r (SetHead c) = limiter_set_current_c r c"
| "limiter_step r (Check now ip pk c) = (case limiter_check r now ip pk c of Some (_, r') \<Rightarrow> r' | None \<Rightarrow> r)"
| "limiter_step r (ReleaseCommitted now ip pk c) = snd (release_committed r now ip pk c)"
| "limiter_step r Reset = limiter_reset r"

lemma limiter_check_inv:
  assumes "limiter_inv r" and "limiter_check r now ip pk c = Some (res, r')"
  shows "limiter_inv r'"
  using assms commit_inv(1) [OF assms(1)]
  by (auto simp: limiter_check_def bind_eq_Some_conv split: if_splits)

interpretation limiter: total_system limiter_step limiter_inv
proof unfold_locales
  show "limiter_inv (limiter_step r op)" if "limiter_inv r" for r op
    using that
    by (cases op) (auto simp: observe_ticket_inv limiter_set_current_c_inv release_committed_inv limiter_reset_inv
        intro: limiter_check_inv split: option.split)
qed

text \<open>No operation changes the configured quotas.\<close>

abbreviation limiter_config :: "rate_limiter \<Rightarrow> int \<times> int \<times> nat" where
  "limiter_config r \<equiv> (rl_m r, rl_window_ms r, rl_per_ip_rate_limit_per_60s r)"

lemma track_identity_config: "limiter_config (snd (track_identity r k)) = limiter_config r"
  by (simp add: track_identity_def Let_def split: option.split)

lemma observe_ticket_config: "limiter_config (snd (observe_ticket r pk c n)) = limiter_config r"
proof -
  obtain ok r1 where t: "track_identity r (rate_key pk c) = (ok, r1)" by (cases "track_identity r (rate_key pk c)")
  with track_identity_config [of r "rate_key pk c"] have "limiter_config r1 = limiter_config r" by simp
  then show ?thesis
    by (simp add: observe_ticket_def Let_def t split: option.split bool.split)
qed

lemma commit_config: "commit r now ip pk c = Some r' \<Longrightarrow> limiter_config r' = limiter_config r"
  unfolding commit_def Let_def by (auto simp: bind_eq_Some_conv split del: if_split)

lemma release_committed_config: "limiter_config (snd (release_committed r now ip pk c)) = limiter_config r"
  unfolding release_committed_def Let_def by (simp split: option.split)

lemma limiter_step_config: "limiter_config (limiter_step r op) = limiter_config r"
proof (cases op)
  case (Check now ip pk c)
  show ?thesis
  proof (cases "limiter_check r now ip pk c")
    case (Some x)
    then have "snd x = r \<or> commit r now ip pk c = Some (snd x)"
      by (auto simp: limiter_check_def bind_eq_Some_conv split: if_splits)
    with Check Some commit_config show ?thesis by (cases x) auto
  qed (simp add: Check)
next
  case (Observe pk c n)
  then show ?thesis using observe_ticket_config by simp
next
  case (ReleaseCommitted now ip pk c)
  then show ?thesis using release_committed_config by simp
qed (simp_all add: limiter_set_current_c_def clear_identity_state_def limiter_reset_def)

lemma limiter_run_config: "limiter_config (foldl limiter_step r ops) = limiter_config r"
  using limiter_step_config by (induction ops arbitrary: r) (simp_all del: prod.inject)

section \<open>Properties\<close>

text \<open>C23. The limiter's memory is bounded in every state reached by any sequence of calls: at most 4096
  identities, 4096 source addresses and a million remembered tickets; and no key ever has more
  admitted shares than its observed tickets times the configured multiplier.\<close>

theorem limiter_bounds:
  fixes policy window_ms ops k
  assumes "0 \<le> cp_m policy"
  defines "r \<equiv> foldl limiter_step (limiter_from_policy policy window_ms) ops"
  shows "card (rl_tracked_identities r) \<le> 4096 \<and> length (rl_ip r) \<le> 4096 \<and>
    card (rl_seen_tickets r) \<le> 1000000 \<and>
    bt_get_or 0 (rl_pk_count r) k \<le> bt_get_or 0 (rl_pk_tickets r) k * cp_m policy"
proof -
  have inv: "limiter_inv r" unfolding r_def using limiter_start_inv [OF assms(1)] by (rule limiter.foldl_inv)
  moreover have "rl_m r = cp_m policy"
    using limiter_run_config [of "limiter_from_policy policy window_ms" ops] by (simp add: r_def limiter_from_policy_def)
  ultimately show ?thesis
    using card_tracked [OF inv]
    by (simp add: limiter_inv_def quota_ok_def MAX_CURRENT_HEAD_RATE_IDENTITIES_def MAX_ACTIVE_RATE_SOURCE_IPS_def
        SEEN_TICKETS_CAP_def)
qed

theorem limiter_bounds_witness:
  "card (rl_tracked_identities (foldl limiter_step (limiter_from_policy
      \<lparr>cp_thresholds = \<lparr>ct_t_submit = 1, ct_t_share = 2, ct_t_block = 1, ct_t_ticket = 1\<rparr>, cp_k_max = 1,
       cp_share_cap_per_pk_block = 1, cp_global_share_cap = 1, cp_l = 1, cp_d_max = 1, cp_m = 3,
       cp_per_ip_rate_limit_per_60s = 5, cp_min_share_score_multiplier_nanos = 1\<rparr> 60000)
      [Observe ''a'' ''h'' (Some ''1''), Check 0 ''ip'' ''a'' ''h''])) \<le> 4096"
  by (rule limiter_bounds [THEN conjunct1]) simp

text \<open>C24. An allowed check stays within the quotas it checked, and records the charge: the source has at
  most the configured number of admissions in the sliding window ending now, and the key's count grows
  by one and stays within its ceiling; releasing that charge gives the key's count back.\<close>

theorem allowed_check_within_quota:
  assumes "limiter_inv r" and "limiter_check r now ip pk c = Some (Allowed, r')"
  shows "length (filter (\<lambda>ts. ts \<ge> now - rl_window_ms r) (bt_get_or [] (rl_ip r') ip)) \<le> rl_per_ip_rate_limit_per_60s r \<and>
    bt_get_or 0 (rl_pk_count r') (rate_key pk c) = bt_get_or 0 (rl_pk_count r) (rate_key pk c) + 1 \<and>
    bt_get_or 0 (rl_pk_count r') (rate_key pk c) \<le> bt_get_or 0 (rl_pk_tickets r) (rate_key pk c) * rl_m r \<and>
    fst (release_committed r' now ip pk c) \<and>
    bt_get_or 0 (rl_pk_count (snd (release_committed r' now ip pk c))) (rate_key pk c) =
      bt_get_or 0 (rl_pk_count r) (rate_key pk c)"
proof -
  from assms(2) have peek: "peek r now ip pk c = Some Allowed" and commit: "commit r now ip pk c = Some r'"
    by (auto simp: limiter_check_def bind_eq_Some_conv split: if_splits)
  have q: "bt_get_or 0 (rl_pk_count r) (rate_key pk c) < bt_get_or 0 (rl_pk_tickets r) (rate_key pk c) * rl_m r"
    using peek by (rule peek_Allowed)
  have nonneg: "0 \<le> bt_get_or 0 (rl_pk_count r) (rate_key pk c)"
    using assms(1) by (simp add: limiter_inv_def quota_ok_def)
  obtain tss ips where r': "rl_ip r' = bt_insert ip (tss @ [now]) ips"
    "rl_pk_count r' = bump (rate_key pk c) (rl_pk_count r)"
    using commit unfolding commit_def Let_def by (auto simp: bind_eq_Some_conv split del: if_split)
  have "\<exists>i. position (\<lambda>t. t = now) (tss @ [now]) = Some i" by (induction tss) auto
  then obtain i where "position (\<lambda>t. t = now) (tss @ [now]) = Some i" ..
  with r' nonneg have "fst (release_committed r' now ip pk c) \<and>
      bt_get_or 0 (rl_pk_count (snd (release_committed r' now ip pk c))) (rate_key pk c) =
      bt_get_or 0 (rl_pk_count r) (rate_key pk c)"
    by (simp add: release_committed_def Let_def bump_def)
  with commit_inv(2) [OF assms(1) peek commit] q r'(2) show ?thesis by (simp add: bump_def)
qed

theorem allowed_check_within_quota_witness:
  "let r = snd (observe_ticket (limiter_from_policy
      \<lparr>cp_thresholds = \<lparr>ct_t_submit = 1, ct_t_share = 2, ct_t_block = 1, ct_t_ticket = 1\<rparr>, cp_k_max = 1,
       cp_share_cap_per_pk_block = 1, cp_global_share_cap = 1, cp_l = 1, cp_d_max = 1, cp_m = 3,
       cp_per_ip_rate_limit_per_60s = 5, cp_min_share_score_multiplier_nanos = 1\<rparr> 60000) ''a'' ''h'' None)
   in \<exists>r'. limiter_check r 100 ''ip'' ''a'' ''h'' = Some (Allowed, r') \<and>
        fst (release_committed r' 100 ''ip'' ''a'' ''h'')"
proof -
  let ?p = "\<lparr>cp_thresholds = \<lparr>ct_t_submit = 1, ct_t_share = 2, ct_t_block = 1, ct_t_ticket = 1\<rparr>, cp_k_max = 1,
       cp_share_cap_per_pk_block = 1, cp_global_share_cap = 1, cp_l = 1, cp_d_max = 1, cp_m = 3,
       cp_per_ip_rate_limit_per_60s = 5, cp_min_share_score_multiplier_nanos = 1\<rparr>"
  let ?r = "snd (observe_ticket (limiter_from_policy ?p 60000) ''a'' ''h'' None)"
  have inv: "limiter_inv ?r" by (rule observe_ticket_inv, rule limiter_start_inv) simp
  have "\<exists>r'. limiter_check ?r 100 ''ip'' ''a'' ''h'' = Some (Allowed, r')"
    by (simp add: limiter_check_def peek_def commit_def observe_ticket_def track_identity_def limiter_from_policy_def
        i64_checked_def rate_key_def bump_def bt_get_or_def MAX_CURRENT_HEAD_RATE_IDENTITIES_def
        MAX_ACTIVE_RATE_SOURCE_IPS_def Let_def)
  then obtain r' where "limiter_check ?r 100 ''ip'' ''a'' ''h'' = Some (Allowed, r')" ..
  with allowed_check_within_quota [OF inv this] show ?thesis by (simp only: Let_def) blast
qed

end
