(* ===== verification/Validator.thy ===== *)
theory Validator
  imports Config
begin

text \<open>
  validator.rs: the structural validator of canonical proof packages. The walker is translated over
  the code's cursor; a successful walk returns the cursor it leaves. The recursions of the walker
  carry the code's depth counter, which bounds them by 4096.
\<close>

section \<open>Results\<close>

definition MAGIC :: "u8 list" where "MAGIC = [0x50, 0x4f, 0x46, 0x50]"
definition FORMAT_VERSION_V1 :: u32 where "FORMAT_VERSION_V1 = 1"
definition FORMAT_VERSION_V2 :: u32 where "FORMAT_VERSION_V2 = 2"
definition MAX_WALK_DEPTH :: nat where "MAX_WALK_DEPTH = 4096"

datatype decode_detail =
    BadMagic
  | UnexpectedEof
  | UnsupportedVersion u32
  | TrailingBytes nat nat
  | RecursionLimit string nat
  | UnknownTag string u8

datatype validation_reason =
    TooLarge nat int
  | TooManyDecls u32 int
  | Decode decode_detail

record walk_result =
  wr_decl_count :: u32
  wr_size :: nat
  wr_universe_arity :: u32

datatype validation_result = ValidationOk u32 nat u32 | ValidationErr validation_reason

section \<open>Cursor\<close>

record cursor =
  cu_bytes :: "u8 list"
  cu_pos :: nat

definition cursor_new :: "u8 list \<Rightarrow> cursor" where
  "cursor_new bytes = \<lparr>cu_bytes = bytes, cu_pos = 0\<rparr>"

definition cursor_ensure :: "cursor \<Rightarrow> nat \<Rightarrow> decode_detail + unit" where
  "cursor_ensure c n = (if cu_pos c + n > length (cu_bytes c) then Err UnexpectedEof else Ok ())"

definition read_byte :: "cursor \<Rightarrow> decode_detail + u8 \<times> cursor" where
  "read_byte c =
     rbind (cursor_ensure c 1) (\<lambda>_. Ok (cu_bytes c ! cu_pos c, c\<lparr>cu_pos := cu_pos c + 1\<rparr>))"

definition u32_from_le_bytes :: "u8 \<Rightarrow> u8 \<Rightarrow> u8 \<Rightarrow> u8 \<Rightarrow> u32" where
  "u32_from_le_bytes b0 b1 b2 b3 =
     of_nat (unat b0 + 256 * unat b1 + 65536 * unat b2 + 16777216 * unat b3)"

definition read_u32_le :: "cursor \<Rightarrow> decode_detail + u32 \<times> cursor" where
  "read_u32_le c =
     rbind (cursor_ensure c 4) (\<lambda>_.
     Ok (u32_from_le_bytes (cu_bytes c ! cu_pos c) (cu_bytes c ! (cu_pos c + 1))
           (cu_bytes c ! (cu_pos c + 2)) (cu_bytes c ! (cu_pos c + 3)),
         c\<lparr>cu_pos := cu_pos c + 4\<rparr>))"

definition cursor_skip :: "cursor \<Rightarrow> nat \<Rightarrow> decode_detail + cursor" where
  "cursor_skip c n = rbind (cursor_ensure c n) (\<lambda>_. Ok (c\<lparr>cu_pos := cu_pos c + n\<rparr>))"

section \<open>Walkers\<close>

text \<open>\<open>for _ in 0..n { walk(cursor)?; }\<close>\<close>

fun walk_times :: "nat \<Rightarrow> (cursor \<Rightarrow> decode_detail + cursor) \<Rightarrow> cursor \<Rightarrow> decode_detail + cursor" where
  "walk_times 0 walk c = Ok c"
| "walk_times (Suc n) walk c = rbind (walk c) (walk_times n walk)"

function walk_level :: "cursor \<Rightarrow> nat \<Rightarrow> decode_detail + cursor" where
  "walk_level c depth =
     (if depth > MAX_WALK_DEPTH then Err (RecursionLimit ''CanonLevel'' MAX_WALK_DEPTH)
      else
        rbind (read_byte c) (\<lambda>(tag, c1).
        if tag = 0x00 then Ok c1
        else if tag = 0x01 then walk_level c1 (depth + 1)
        else if tag = 0x02 \<or> tag = 0x03
        then (case walk_level c1 (depth + 1) of
                Inl e \<Rightarrow> Err e | Inr c2 \<Rightarrow> walk_level c2 (depth + 1))
        else if tag = 0x04 then rbind (read_u32_le c1) (\<lambda>(_, c2). Ok c2)
        else Err (UnknownTag ''CanonLevel'' tag)))"
  by pat_completeness auto

termination
  by (relation "measure (\<lambda>(c, depth). Suc MAX_WALK_DEPTH - depth)") auto

declare walk_level.simps [simp del]

definition walk_lit :: "cursor \<Rightarrow> decode_detail + cursor" where
  "walk_lit c =
     rbind (read_byte c) (\<lambda>(tag, c1).
     if tag = 0x00 then rbind (read_u32_le c1) (\<lambda>(_, c2). Ok c2)
     else if tag = 0x01 then rbind (read_u32_le c1) (\<lambda>(n, c2). cursor_skip c2 (unat n))
     else Err (UnknownTag ''CanonLit'' tag))"

definition walk_name_part :: "cursor \<Rightarrow> decode_detail + cursor" where
  "walk_name_part c = rbind (read_u32_le c) (\<lambda>(len, c1). cursor_skip c1 (unat len))"

definition walk_name :: "cursor \<Rightarrow> decode_detail + cursor" where
  "walk_name c = rbind (read_u32_le c) (\<lambda>(parts, c1). walk_times (unat parts) walk_name_part c1)"

definition walk_opaque_digest_expr :: "cursor \<Rightarrow> decode_detail + cursor" where
  "walk_opaque_digest_expr c =
     rbind (read_byte c) (\<lambda>(tag, c1).
     if tag \<noteq> 0x19 then Err (UnknownTag ''CanonExpr'' tag) else cursor_skip c1 32)"

function walk_expr :: "cursor \<Rightarrow> nat \<Rightarrow> bool \<Rightarrow> decode_detail + cursor" where
  "walk_expr c depth allow_opaque_digest =
     (if depth > MAX_WALK_DEPTH then Err (RecursionLimit ''CanonExpr'' MAX_WALK_DEPTH)
      else
        rbind (read_byte c) (\<lambda>(tag, c1).
        if tag = 0x10 then rbind (read_u32_le c1) (\<lambda>(_, c2). Ok c2)
        else if tag = 0x19 \<and> allow_opaque_digest then cursor_skip c1 32
        else if tag = 0x11 then walk_level c1 0
        else if tag = 0x12 then
          rbind (walk_name c1) (\<lambda>c2.
          rbind (read_u32_le c2) (\<lambda>(k, c3). walk_times (unat k) (\<lambda>c. walk_level c 0) c3))
        else if 0x13 \<le> tag \<and> tag \<le> 0x15
        then (case walk_expr c1 (depth + 1) allow_opaque_digest of
                Inl e \<Rightarrow> Err e | Inr c2 \<Rightarrow> walk_expr c2 (depth + 1) allow_opaque_digest)
        else if tag = 0x16
        then (case walk_expr c1 (depth + 1) allow_opaque_digest of
                Inl e \<Rightarrow> Err e
              | Inr c2 \<Rightarrow> (case walk_expr c2 (depth + 1) allow_opaque_digest of
                  Inl e \<Rightarrow> Err e | Inr c3 \<Rightarrow> walk_expr c3 (depth + 1) allow_opaque_digest))
        else if tag = 0x17 then walk_lit c1
        else if tag = 0x18 then
          (case rbind (walk_name c1) read_u32_le of
             Inl e \<Rightarrow> Err e | Inr (_, c3) \<Rightarrow> walk_expr c3 (depth + 1) allow_opaque_digest)
        else Err (UnknownTag ''CanonExpr'' tag)))"
  by pat_completeness auto

termination
  by (relation "measure (\<lambda>(c, depth, _). Suc MAX_WALK_DEPTH - depth)") auto

declare walk_expr.simps [simp del]

definition walk_decl :: "cursor \<Rightarrow> u32 \<Rightarrow> decode_detail + cursor" where
  "walk_decl c version =
     (let allow_opaque_digest = (version = FORMAT_VERSION_V2) in
      rbind (walk_name c) (\<lambda>c1.
      rbind (walk_expr c1 0 allow_opaque_digest) (\<lambda>c2.
      walk_expr c2 0 allow_opaque_digest)))"

definition walk_package :: "u8 list \<Rightarrow> decode_detail + walk_result" where
  "walk_package bytes =
     (if length bytes < 12 then Err UnexpectedEof
      else if take 4 bytes \<noteq> MAGIC then Err BadMagic
      else
        rbind (cursor_skip (cursor_new bytes) 4) (\<lambda>c.
        rbind (read_u32_le c) (\<lambda>(version, c).
        rbind (ensure (version = FORMAT_VERSION_V1 \<or> version = FORMAT_VERSION_V2) (UnsupportedVersion version)) (\<lambda>_.
        rbind (read_u32_le c) (\<lambda>(universe_arity, c).
        rbind (walk_name c) (\<lambda>c.
        rbind (if version = FORMAT_VERSION_V1
               then rbind (walk_expr c 0 False) (\<lambda>c. walk_expr c 0 False)
               else rbind (walk_opaque_digest_expr c) walk_opaque_digest_expr) (\<lambda>c.
        rbind (read_u32_le c) (\<lambda>(decl_count, c).
        rbind (walk_times (unat decl_count) (\<lambda>c. walk_decl c version) c) (\<lambda>c.
        if cu_pos c \<noteq> length bytes then Err (TrailingBytes (cu_pos c) (length bytes))
        else Ok \<lparr>wr_decl_count = decl_count, wr_size = cu_pos c, wr_universe_arity = universe_arity\<rparr>)))))))))"

section \<open>Entry points\<close>

definition validate_proof_package_shape :: "u8 list \<Rightarrow> validation_result" where
  "validate_proof_package_shape bytes =
     (case walk_package bytes of
        Inr walked \<Rightarrow> ValidationOk (wr_decl_count walked) (wr_size walked) (wr_universe_arity walked)
      | Inl detail \<Rightarrow> ValidationErr (Decode detail))"

text \<open>\<open>as i64\<close> and \<open>as u32\<close> of a \<open>usize\<close> wrap around.\<close>

definition usize_as_i64 :: "nat \<Rightarrow> int" where
  "usize_as_i64 n = sint (of_nat n :: u64)"

definition usize_as_u32 :: "nat \<Rightarrow> u32" where
  "usize_as_u32 n = of_nat n"

definition validate_proof_package_with_limits :: "u8 list \<Rightarrow> nat \<Rightarrow> nat \<Rightarrow> validation_result" where
  "validate_proof_package_with_limits bytes max_proof_bytes max_decls =
     (if length bytes > max_proof_bytes
      then ValidationErr (TooLarge (length bytes) (usize_as_i64 max_proof_bytes))
      else case walk_package bytes of
        Inl detail \<Rightarrow> ValidationErr (Decode detail)
      | Inr walked \<Rightarrow>
          if wr_size walked > max_proof_bytes
          then ValidationErr (TooLarge (wr_size walked) (usize_as_i64 max_proof_bytes))
          else if wr_decl_count walked > usize_as_u32 max_decls
          then ValidationErr (TooManyDecls (wr_decl_count walked) (usize_as_i64 max_decls))
          else ValidationOk (wr_decl_count walked) (wr_size walked) (wr_universe_arity walked))"

definition validate_proof_package_with_policy :: "u8 list \<Rightarrow> calibration_policy \<Rightarrow> validation_result" where
  "validate_proof_package_with_policy bytes policy =
     validate_proof_package_with_limits bytes (cp_l policy) (cp_d_max policy)"

text \<open>An invalid report is a panic.\<close>

definition validate_proof_package :: "ext \<Rightarrow> u8 list \<Rightarrow> calibration_report \<Rightarrow> validation_result option" where
  "validate_proof_package E bytes cfg =
     map_option (validate_proof_package_with_policy bytes) (result_ok (find_calibration_policy E cfg))"

section \<open>JSON rendering\<close>

text \<open>Objects list their fields in key order, as \<open>serde_json::Map\<close> iterates.\<close>

definition JUsize :: "nat \<Rightarrow> json" where
  "JUsize n = JU64 (of_nat n)"

definition JI64 :: "int \<Rightarrow> json" where
  "JI64 i = JNumber (if i < 0 then NegInt i else PosInt (of_int i))"

fun json_as_i64 :: "json \<Rightarrow> int option" where
  "json_as_i64 (JNumber (PosInt n)) = (if uint n < 2 ^ 63 then Some (uint n) else None)"
| "json_as_i64 (JNumber (NegInt i)) = Some i"
| "json_as_i64 _ = None"

fun decode_detail_json :: "decode_detail \<Rightarrow> json" where
  "decode_detail_json BadMagic = JObject [(''kind'', JString ''badMagic'')]"
| "decode_detail_json UnexpectedEof = JObject [(''kind'', JString ''unexpectedEOF'')]"
| "decode_detail_json (UnsupportedVersion version) =
     JObject [(''kind'', JString ''unsupportedVersion''), (''version'', JU64 (ucast version))]"
| "decode_detail_json (TrailingBytes at sz) =
     JObject [(''at'', JUsize at), (''kind'', JString ''trailingBytes''), (''size'', JUsize sz)]"
| "decode_detail_json (RecursionLimit where_tag limit) =
     JObject [(''kind'', JString ''recursionLimit''), (''limit'', JUsize limit), (''whereTag'', JString where_tag)]"
| "decode_detail_json (UnknownTag where_tag tag) =
     JObject [(''kind'', JString ''unknownTag''), (''tag'', JU64 (ucast tag)), (''whereTag'', JString where_tag)]"

fun validation_reason_json :: "validation_reason \<Rightarrow> json" where
  "validation_reason_json (TooLarge sz limit) =
     JObject [(''kind'', JString ''tooLarge''), (''limit'', JI64 limit), (''size'', JUsize sz)]"
| "validation_reason_json (TooManyDecls decl_count limit) =
     JObject [(''declCount'', JU64 (ucast decl_count)), (''kind'', JString ''tooManyDecls''), (''limit'', JI64 limit)]"
| "validation_reason_json (Decode detail) =
     JObject [(''detail'', decode_detail_json detail), (''kind'', JString ''decode'')]"

fun validate_proof_package_json :: "validation_result \<Rightarrow> json" where
  "validate_proof_package_json (ValidationOk decl_count sz universe_arity) =
     JObject [(''declCount'', JU64 (ucast decl_count)), (''ok'', JBool True), (''size'', JUsize sz),
              (''universeArity'', JU64 (ucast universe_arity))]"
| "validate_proof_package_json (ValidationErr reason) =
     JObject [(''ok'', JBool False), (''reason'', validation_reason_json reason)]"

text \<open>Reading a rendered reason back; the error strings are kept by the field they name.\<close>

datatype reason_json_error = FieldMissing string | UnknownKind string

definition json_field :: "(json \<Rightarrow> 'a option) \<Rightarrow> json \<Rightarrow> string \<Rightarrow> reason_json_error + 'a" where
  "json_field conv value k = ok_or (Option.bind (json_get value k) conv) (FieldMissing k)"

definition intern_where_tag :: "string \<Rightarrow> reason_json_error + string" where
  "intern_where_tag value =
     (if value = ''CanonLevel'' then Ok ''CanonLevel''
      else if value = ''CanonLit'' then Ok ''CanonLit''
      else if value = ''CanonExpr'' then Ok ''CanonExpr''
      else Err (UnknownKind value))"

definition required_json_string :: "json \<Rightarrow> string \<Rightarrow> reason_json_error + string" where
  "required_json_string value key = json_field json_as_str value key"

definition decode_detail_from_json :: "json \<Rightarrow> reason_json_error + decode_detail" where
  "decode_detail_from_json detail =
     rbind (json_field json_as_str detail ''kind'') (\<lambda>kind.
     if kind = ''badMagic'' then Ok BadMagic
     else if kind = ''unexpectedEOF'' then Ok UnexpectedEof
     else if kind = ''unsupportedVersion'' then
       rbind (json_field json_as_u64 detail ''version'') (\<lambda>version. Ok (UnsupportedVersion (ucast version)))
     else if kind = ''trailingBytes'' then
       rbind (json_field json_as_u64 detail ''at'') (\<lambda>at.
       rbind (json_field json_as_u64 detail ''size'') (\<lambda>sz. Ok (TrailingBytes (unat at) (unat sz))))
     else if kind = ''recursionLimit'' then
       rbind (rbind (required_json_string detail ''whereTag'') intern_where_tag) (\<lambda>where_tag.
       rbind (json_field json_as_u64 detail ''limit'') (\<lambda>limit. Ok (RecursionLimit where_tag (unat limit))))
     else if kind = ''unknownTag'' then
       rbind (rbind (required_json_string detail ''whereTag'') intern_where_tag) (\<lambda>where_tag.
       rbind (json_field json_as_u64 detail ''tag'') (\<lambda>tag. Ok (UnknownTag where_tag (ucast tag))))
     else Err (UnknownKind kind))"

definition validation_reason_from_json :: "json \<Rightarrow> reason_json_error + validation_reason" where
  "validation_reason_from_json reason =
     rbind (json_field json_as_str reason ''kind'') (\<lambda>kind.
     if kind = ''tooLarge'' then
       rbind (json_field json_as_u64 reason ''size'') (\<lambda>sz.
       rbind (json_field json_as_i64 reason ''limit'') (\<lambda>limit. Ok (TooLarge (unat sz) limit)))
     else if kind = ''tooManyDecls'' then
       rbind (json_field json_as_u64 reason ''declCount'') (\<lambda>decl_count.
       rbind (json_field json_as_i64 reason ''limit'') (\<lambda>limit. Ok (TooManyDecls (ucast decl_count) limit)))
     else if kind = ''decode'' then
       rbind (ok_or (json_get reason ''detail'') (FieldMissing ''detail'')) (\<lambda>detail.
       rbind (decode_detail_from_json detail) (\<lambda>d. Ok (Decode d)))
     else Err (UnknownKind kind))"

end
