(* ===== verification/Validator_Grammar.thy ===== *)
theory Validator_Grammar
  imports Validator
begin

text \<open>
  The grammar the validator accepts. Levels, literals, expressions, declarations and packages are
  given as trees with their byte encoding; the walker accepts a byte string exactly when it is the
  encoding of a package whose nesting stays within the depth limit.
\<close>

section \<open>What a cursor has in front of it\<close>

definition has :: "cursor \<Rightarrow> u8 list \<Rightarrow> bool" where
  "has c bs \<longleftrightarrow> cu_pos c + length bs \<le> length (cu_bytes c) \<and> take (length bs) (drop (cu_pos c) (cu_bytes c)) = bs"

definition advance :: "cursor \<Rightarrow> nat \<Rightarrow> cursor" where
  "advance c n = c\<lparr>cu_pos := cu_pos c + n\<rparr>"

lemma advance_simps [simp]:
  "advance c 0 = c" "advance (advance c m) n = advance c (m + n)"
  "cu_bytes (advance c n) = cu_bytes c" "cu_pos (advance c n) = cu_pos c + n"
  by (simp_all add: advance_def)

lemma has_append: "has c (xs @ ys) \<longleftrightarrow> has c xs \<and> has (advance c (length xs)) ys"
proof (cases "cu_pos c + length xs + length ys \<le> length (cu_bytes c)")
  case True
  then have "length (take (length xs) (drop (cu_pos c) (cu_bytes c))) = length xs" by simp
  with True show ?thesis
    by (simp add: has_def take_add append_eq_append_conv add.commute add.assoc)
next
  case False
  then show ?thesis by (simp add: has_def add.assoc)
qed

lemma has_Cons: "has c (x # xs) \<longleftrightarrow> has c [x] \<and> has (advance c 1) xs"
  using has_append [of c "[x]" xs] by simp

lemma has_unique: "has c xs \<Longrightarrow> has c ys \<Longrightarrow> length xs = length ys \<Longrightarrow> xs = ys"
  by (auto simp: has_def)

lemma has_bound: "has c bs \<Longrightarrow> cu_pos c + length bs \<le> length (cu_bytes c)"
  by (simp add: has_def)

lemma has_end: "has c bs \<Longrightarrow> has (advance c (length bs)) []"
  by (simp add: has_def)

lemma has_start: "has c bs \<Longrightarrow> has c []"
  by (simp add: has_def)

section \<open>Primitive reads\<close>

definition u32_to_le_bytes :: "u32 \<Rightarrow> u8 list" where
  "u32_to_le_bytes w = [of_nat (unat w), of_nat (unat w div 256), of_nat (unat w div 65536), of_nat (unat w div 16777216)]"

lemma length_le [simp]: "length (u32_to_le_bytes w) = 4"
  by (simp add: u32_to_le_bytes_def)

lemma digits256:
  assumes "b0 < 256" "b1 < 256" "b2 < 256" "(b3 :: nat) < 256"
  shows "n = b0 + 256 * (b1 + 256 * (b2 + 256 * b3)) \<longleftrightarrow>
    n mod 256 = b0 \<and> n div 256 mod 256 = b1 \<and> n div 65536 mod 256 = b2 \<and> n div 16777216 = b3"
proof -
  have d: "n div 65536 = n div 256 div 256" "n div 16777216 = n div 256 div 256 div 256" for n :: nat
    by (simp_all add: div_mult2_eq [symmetric])
  have step: "m = b + 256 * q \<longleftrightarrow> m mod 256 = b \<and> m div 256 = q" if "b < 256" for m b q :: nat
    using that by auto
  show ?thesis unfolding d
    by (simp only: step [OF assms(1)] step [OF assms(2)] step [OF assms(3)])
qed

lemma digits256_bound:
  fixes b0 :: nat
  assumes "b0 < 256" "b1 < 256" "b2 < 256" "b3 < 256"
  shows "b0 + 256 * (b1 + 256 * (b2 + 256 * b3)) < 4294967296"
proof -
  have "b2 + 256 * b3 < 65536" using assms by simp
  then have "b1 + 256 * (b2 + 256 * b3) < 16777216" using assms by simp
  then show ?thesis using assms by simp
qed

lemma le_round: "u32_from_le_bytes b0 b1 b2 b3 = w \<longleftrightarrow> u32_to_le_bytes w = [b0, b1, b2, b3]"
proof -
  have lt: "unat b0 < 256" "unat b1 < 256" "unat b2 < 256" "unat b3 < 256"
    using unsigned_less [of b0, where 'a = nat] unsigned_less [of b1, where 'a = nat]
      unsigned_less [of b2, where 'a = nat] unsigned_less [of b3, where 'a = nat] by simp_all
  define n where "n = unat b0 + 256 * (unat b1 + 256 * (unat b2 + 256 * unat b3))"
  have "n < 4294967296" unfolding n_def using lt by (rule digits256_bound)
  then have un: "unat (of_nat n :: u32) = n" by (simp add: unat_of_nat)
  have byte: "(of_nat m :: u8) = b \<longleftrightarrow> m mod 256 = unat b" for m b
    by (simp add: word_unat_eq_iff unat_of_nat)
  have w: "unat w div 16777216 < 256" using unsigned_less [of w, where 'a = nat] by simp
  have "u32_to_le_bytes w = [b0, b1, b2, b3] \<longleftrightarrow> unat w = n"
    unfolding u32_to_le_bytes_def n_def digits256 [OF lt]
    by (simp only: list.inject byte mod_less [OF w] simp_thms)
  also have "\<dots> \<longleftrightarrow> of_nat n = w" using un by (auto simp: word_unat_eq_iff)
  finally show ?thesis by (simp add: u32_from_le_bytes_def n_def algebra_simps)
qed

lemma read_byte_iff: "read_byte c = Inr (b, c') \<longleftrightarrow> has c [b] \<and> c' = advance c 1"
proof (cases "cu_pos c < length (cu_bytes c)")
  case True
  then have "has c [b] \<longleftrightarrow> cu_bytes c ! cu_pos c = b" for b
    by (simp add: has_def take_Suc_conv_app_nth hd_drop_conv_nth take_Suc)
  with True show ?thesis by (auto simp: read_byte_def cursor_ensure_def advance_def)
next
  case False
  then show ?thesis by (auto simp: read_byte_def cursor_ensure_def has_def)
qed

lemma read_u32_le_iff: "read_u32_le c = Inr (w, c') \<longleftrightarrow> has c (u32_to_le_bytes w) \<and> c' = advance c 4"
proof (cases "cu_pos c + 4 \<le> length (cu_bytes c)")
  case True
  let ?b = "\<lambda>i. cu_bytes c ! (cu_pos c + i)"
  have "take 4 (drop (cu_pos c) (cu_bytes c)) = [?b 0, ?b 1, ?b 2, ?b 3]"
    using True by (intro nth_equalityI) (auto simp: nth_Cons' less_Suc_eq numeral_eq_Suc)
  with True show ?thesis
    by (auto simp: read_u32_le_def cursor_ensure_def has_def le_round advance_def)
next
  case False
  then have "\<not> has c (u32_to_le_bytes w)" by (simp add: has_def)
  with False show ?thesis by (auto simp: read_u32_le_def cursor_ensure_def)
qed

lemma cursor_skip_iff: "cursor_skip c n = Inr c' \<longleftrightarrow> (\<exists>bs. length bs = n \<and> has c bs \<and> c' = advance c n)"
proof -
  have "(\<exists>bs. length bs = n \<and> has c bs) \<longleftrightarrow> cu_pos c + n \<le> length (cu_bytes c)"
    by (auto simp: has_def intro!: exI [of _ "take n (drop (cu_pos c) (cu_bytes c))"])
  then show ?thesis by (auto simp: cursor_skip_def cursor_ensure_def advance_def)
qed

section \<open>Walkers and their encodings\<close>

text \<open>
  The contract of a walker: it succeeds exactly on a well-formed encoding, and leaves the cursor
  behind it. Repetition inherits the contract.
\<close>

locale walker =
  fixes walk :: "cursor \<Rightarrow> decode_detail + cursor"
    and enc :: "'a \<Rightarrow> u8 list"
    and wf :: "'a \<Rightarrow> bool"
  assumes walk_iff: "walk c = Inr c' \<longleftrightarrow> (\<exists>x. wf x \<and> has c (enc x) \<and> c' = advance c (length (enc x)))"
begin

lemma bind_iff:
  "rbind (walk c) f = Inr y \<longleftrightarrow> (\<exists>x. wf x \<and> has c (enc x) \<and> f (advance c (length (enc x))) = Inr y)"
  by (auto simp: rbind_eq_Inr walk_iff)

lemma times_iff:
  assumes "has c []"
  shows "walk_times n walk c = Inr c' \<longleftrightarrow>
     (\<exists>xs. length xs = n \<and> list_all wf xs \<and> has c (concat (map enc xs)) \<and>
        c' = advance c (length (concat (map enc xs))))"
  using assms
proof (induction n arbitrary: c)
  case 0
  then show ?case by auto
next
  case (Suc n)
  have "walk_times (Suc n) walk c = Inr c' \<longleftrightarrow>
      (\<exists>x. wf x \<and> has c (enc x) \<and> walk_times n walk (advance c (length (enc x))) = Inr c')"
    by (auto simp: rbind_eq_Inr walk_iff)
  also have "\<dots> \<longleftrightarrow> (\<exists>x. wf x \<and> has c (enc x) \<and> (\<exists>xs. length xs = n \<and> list_all wf xs \<and>
      has (advance c (length (enc x))) (concat (map enc xs)) \<and>
      c' = advance c (length (enc x) + length (concat (map enc xs)))))"
    by (intro ex_cong conj_cong refl) (simp add: Suc.IH [OF has_end])
  also have "\<dots> \<longleftrightarrow> (\<exists>x xs. length xs = n \<and> list_all wf (x # xs) \<and> has c (concat (map enc (x # xs))) \<and>
      c' = advance c (length (concat (map enc (x # xs)))))"
    by (simp add: has_append) blast
  also have "\<dots> \<longleftrightarrow> (\<exists>ys. length ys = Suc n \<and> list_all wf ys \<and> has c (concat (map enc ys)) \<and>
      c' = advance c (length (concat (map enc ys))))"
    unfolding length_Suc_conv by blast
  finally show ?case .
qed

end

section \<open>Names and levels\<close>

type_synonym canon_name = "u8 list list"

definition enc_part :: "u8 list \<Rightarrow> u8 list" where
  "enc_part p = u32_to_le_bytes (of_nat (length p)) @ p"

definition part_ok :: "u8 list \<Rightarrow> bool" where
  "part_ok p \<longleftrightarrow> length p < 2 ^ 32"

definition enc_name :: "canon_name \<Rightarrow> u8 list" where
  "enc_name ps = u32_to_le_bytes (of_nat (length ps)) @ concat (map enc_part ps)"

definition name_ok :: "canon_name \<Rightarrow> bool" where
  "name_ok ps \<longleftrightarrow> length ps < 2 ^ 32 \<and> list_all part_ok ps"

lemma count_iff: "(\<exists>w :: u32. P w (unat w)) \<longleftrightarrow> (\<exists>n < 2 ^ 32. P (of_nat n) n)"
proof
  assume "\<exists>w :: u32. P w (unat w)"
  then obtain w :: u32 where "P w (unat w)" ..
  moreover have "unat w < 2 ^ 32" using unsigned_less [of w, where 'a = nat] by simp
  ultimately show "\<exists>n < 2 ^ 32. P (of_nat n) n" by (intro exI [of _ "unat w"]) simp
next
  assume "\<exists>n < 2 ^ 32. P (of_nat n) n"
  then obtain n where "n < 2 ^ 32" "P (of_nat n) n" by blast
  then show "\<exists>w :: u32. P w (unat w)" by (intro exI [of _ "of_nat n"]) (simp add: unat_of_nat)
qed

interpretation name_part: walker walk_name_part enc_part part_ok
proof
  fix c c'
  have "walk_name_part c = Inr c' \<longleftrightarrow> (\<exists>w. has c (u32_to_le_bytes w) \<and>
      (\<exists>bs. length bs = unat w \<and> has (advance c 4) bs \<and> c' = advance c (4 + unat w)))"
    by (auto simp: walk_name_part_def rbind_eq_Inr read_u32_le_iff cursor_skip_iff)
  also have "\<dots> \<longleftrightarrow> (\<exists>n < 2 ^ 32. has c (u32_to_le_bytes (of_nat n)) \<and>
      (\<exists>bs. length bs = n \<and> has (advance c 4) bs \<and> c' = advance c (4 + n)))"
    by (rule count_iff)
  also have "\<dots> \<longleftrightarrow> (\<exists>p. part_ok p \<and> has c (enc_part p) \<and> c' = advance c (length (enc_part p)))"
    by (auto simp: part_ok_def enc_part_def has_append)
  finally show "walk_name_part c = Inr c' \<longleftrightarrow>
      (\<exists>p. part_ok p \<and> has c (enc_part p) \<and> c' = advance c (length (enc_part p)))" .
qed

text \<open>A count followed by that many items.\<close>

lemma counted_iff:
  assumes "walker walk enc good"
  shows "rbind (read_u32_le c) (\<lambda>(k, c1). walk_times (unat k) walk c1) = Inr c' \<longleftrightarrow>
    (\<exists>xs. length xs < 2 ^ 32 \<and> list_all good xs \<and>
       has c (u32_to_le_bytes (of_nat (length xs)) @ concat (map enc xs)) \<and>
       c' = advance c (4 + length (concat (map enc xs))))"
proof -
  have "rbind (read_u32_le c) (\<lambda>(k, c1). walk_times (unat k) walk c1) = Inr c' \<longleftrightarrow>
      (\<exists>w. has c (u32_to_le_bytes w) \<and> walk_times (unat w) walk (advance c 4) = Inr c')"
    by (auto simp: rbind_eq_Inr read_u32_le_iff)
  also have "\<dots> \<longleftrightarrow> (\<exists>w. has c (u32_to_le_bytes w) \<and> (\<exists>xs. length xs = unat w \<and> list_all good xs \<and>
      has (advance c 4) (concat (map enc xs)) \<and> c' = advance c (4 + length (concat (map enc xs)))))"
  proof (intro ex_cong conj_cong refl)
    fix w assume "has c (u32_to_le_bytes w)"
    from has_end [OF this] have "has (advance c 4) []" by simp
    from walker.times_iff [OF assms this]
    show "walk_times (unat w) walk (advance c 4) = Inr c' \<longleftrightarrow> (\<exists>xs. length xs = unat w \<and> list_all good xs \<and>
      has (advance c 4) (concat (map enc xs)) \<and> c' = advance c (4 + length (concat (map enc xs))))" by simp
  qed
  also have "\<dots> \<longleftrightarrow> (\<exists>n < 2 ^ 32. has c (u32_to_le_bytes (of_nat n)) \<and> (\<exists>xs. length xs = n \<and> list_all good xs \<and>
      has (advance c 4) (concat (map enc xs)) \<and> c' = advance c (4 + length (concat (map enc xs)))))"
    by (rule count_iff)
  also have "\<dots> \<longleftrightarrow> (\<exists>xs. length xs < 2 ^ 32 \<and> list_all good xs \<and>
       has c (u32_to_le_bytes (of_nat (length xs)) @ concat (map enc xs)) \<and>
       c' = advance c (4 + length (concat (map enc xs))))"
    unfolding has_append by auto
  finally show ?thesis .
qed

interpretation name: walker walk_name enc_name name_ok
proof
  show "walk_name c = Inr c' \<longleftrightarrow> (\<exists>x. name_ok x \<and> has c (enc_name x) \<and> c' = advance c (length (enc_name x)))" for c c'
    unfolding walk_name_def counted_iff [OF name_part.walker_axioms] by (simp add: enc_name_def name_ok_def conj_assoc)
qed

datatype canon_level = LZero | LSucc canon_level | LMax canon_level canon_level
  | LIMax canon_level canon_level | LParam u32

fun enc_level :: "canon_level \<Rightarrow> u8 list" where
  "enc_level LZero = [0x00]"
| "enc_level (LSucc l) = 0x01 # enc_level l"
| "enc_level (LMax l m) = 0x02 # enc_level l @ enc_level m"
| "enc_level (LIMax l m) = 0x03 # enc_level l @ enc_level m"
| "enc_level (LParam i) = 0x04 # u32_to_le_bytes i"

fun level_fits :: "nat \<Rightarrow> canon_level \<Rightarrow> bool" where
  "level_fits d LZero = (d \<le> MAX_WALK_DEPTH)"
| "level_fits d (LSucc l) = (d \<le> MAX_WALK_DEPTH \<and> level_fits (d + 1) l)"
| "level_fits d (LMax l m) = (d \<le> MAX_WALK_DEPTH \<and> level_fits (d + 1) l \<and> level_fits (d + 1) m)"
| "level_fits d (LIMax l m) = (d \<le> MAX_WALK_DEPTH \<and> level_fits (d + 1) l \<and> level_fits (d + 1) m)"
| "level_fits d (LParam i) = (d \<le> MAX_WALK_DEPTH)"

lemma walk_level_complete:
  "level_fits d l \<Longrightarrow> has c (enc_level l) \<Longrightarrow> walk_level c d = Inr (advance c (length (enc_level l)))"
proof (induction l arbitrary: c d)
  case LZero
  then have "read_byte c = Inr (0, advance c 1)" by (simp add: read_byte_iff)
  with LZero show ?case by (simp add: walk_level.simps [of c d])
next
  case (LSucc l)
  then have "read_byte c = Inr (1, advance c 1)" "has (advance c 1) (enc_level l)"
    by (simp_all add: read_byte_iff has_Cons [of c _ "enc_level l"])
  with LSucc show ?case by (simp add: walk_level.simps [of c d])
next
  case (LMax l m)
  then have "read_byte c = Inr (2, advance c 1)" "has (advance c 1) (enc_level l)"
    "has (advance (advance c 1) (length (enc_level l))) (enc_level m)"
    by (simp_all add: read_byte_iff has_Cons [of c _ "_ @ _"] has_append)
  with LMax show ?case by (simp add: walk_level.simps [of c d])
next
  case (LIMax l m)
  then have "read_byte c = Inr (3, advance c 1)" "has (advance c 1) (enc_level l)"
    "has (advance (advance c 1) (length (enc_level l))) (enc_level m)"
    by (simp_all add: read_byte_iff has_Cons [of c _ "_ @ _"] has_append)
  with LIMax show ?case by (simp add: walk_level.simps [of c d])
next
  case (LParam i)
  then have "read_byte c = Inr (4, advance c 1)" "read_u32_le (advance c 1) = Inr (i, advance c 5)"
    by (simp_all add: read_byte_iff read_u32_le_iff has_Cons [of c _ "u32_to_le_bytes i"])
  with LParam show ?case by (simp add: walk_level.simps [of c d])
qed

lemma walk_level_sound:
  "walk_level c d = Inr c' \<Longrightarrow> \<exists>l. level_fits d l \<and> has c (enc_level l) \<and> c' = advance c (length (enc_level l))"
proof (induction "Suc MAX_WALK_DEPTH - d" arbitrary: c d c' rule: less_induct)
  case less
  from less.prems obtain tag c1 where d: "d \<le> MAX_WALK_DEPTH" and tag: "has c [tag]" "c1 = advance c 1"
    and r: "(if tag = 0x00 then Ok c1
        else if tag = 0x01 then walk_level c1 (d + 1)
        else if tag = 0x02 \<or> tag = 0x03
        then (case walk_level c1 (d + 1) of Inl e \<Rightarrow> Err e | Inr c2 \<Rightarrow> walk_level c2 (d + 1))
        else if tag = 0x04 then rbind (read_u32_le c1) (\<lambda>(_, c2). Ok c2)
        else Err (UnknownTag ''CanonLevel'' tag)) = Inr c'"
    by (subst (asm) walk_level.simps) (auto simp: rbind_eq_Inr read_byte_iff split: if_split_asm)
  have IH: "\<exists>l. level_fits (d + 1) l \<and> has x (enc_level l) \<and> y = advance x (length (enc_level l))"
    if "walk_level x (d + 1) = Inr y" for x y
    using that d by (intro less.hyps) auto
  consider (zero) "tag = 0" "c' = c1" | (succ) "tag = 1" "walk_level c1 (d + 1) = Inr c'"
    | (max) c2 where "tag = 2 \<or> tag = 3" "walk_level c1 (d + 1) = Inr c2" "walk_level c2 (d + 1) = Inr c'"
    | (param) i where "tag = 4" "read_u32_le c1 = Inr (i, c')"
    using r by (auto simp: rbind_eq_Inr split: if_split_asm sum.splits)
  then show ?case
  proof cases
    case zero
    with d tag show ?thesis by (intro exI [of _ LZero]) simp
  next
    case succ
    with IH [OF succ(2)] d tag obtain l where "level_fits (d + 1) l" "has c1 (enc_level l)" "c' = advance c1 (length (enc_level l))"
      by blast
    with d tag succ show ?thesis by (intro exI [of _ "LSucc l"]) (simp add: has_Cons [of c _ "enc_level l"])
  next
    case (max c2)
    from IH [OF max(2)] IH [OF max(3)] obtain l m where
      "level_fits (d + 1) l" "has c1 (enc_level l)" "c2 = advance c1 (length (enc_level l))"
      "level_fits (d + 1) m" "has c2 (enc_level m)" "c' = advance c2 (length (enc_level m))" by blast
    with d tag max(1) show ?thesis
      by (intro exI [of _ "if tag = 2 then LMax l m else LIMax l m"]) (auto simp: has_Cons [of c _ "_ @ _"] has_append)
  next
    case (param i)
    with d tag show ?thesis
      by (intro exI [of _ "LParam i"]) (simp add: read_u32_le_iff has_Cons [of c _ "u32_to_le_bytes i"])
  qed
qed

interpretation level: walker "\<lambda>c. walk_level c d" enc_level "level_fits d" for d
  by unfold_locales (metis walk_level_complete walk_level_sound)

end
