(* ===== verification/Validator_Package.thy ===== *)
theory Validator_Package
  imports Validator_Grammar
begin

text \<open>
  Expressions, declarations and packages of the grammar; the walker accepts exactly their
  encodings, and its errors carry known tags and positions within the input.
\<close>

section \<open>Literals and expressions\<close>

datatype canon_lit = LitNat u32 | LitStr "u8 list"

fun enc_lit :: "canon_lit \<Rightarrow> u8 list" where
  "enc_lit (LitNat n) = 0x00 # u32_to_le_bytes n"
| "enc_lit (LitStr s) = 0x01 # enc_part s"

fun lit_ok :: "canon_lit \<Rightarrow> bool" where
  "lit_ok (LitNat n) = True"
| "lit_ok (LitStr s) = part_ok s"

lemma walk_lit_step:
  assumes "has c [tag]"
  shows "walk_lit c =
    (if tag = 0x00 then rbind (read_u32_le (advance c 1)) (\<lambda>(_, c2). Ok c2)
     else if tag = 0x01 then walk_name_part (advance c 1)
     else Err (UnknownTag ''CanonLit'' tag))"
proof -
  have "read_byte c = Inr (tag, advance c 1)" using assms by (simp add: read_byte_iff)
  then show ?thesis by (simp add: walk_lit_def walk_name_part_def)
qed

lemma walk_lit_tag: "walk_lit c = Inr c' \<Longrightarrow> \<exists>tag. has c [tag]"
  by (auto simp: walk_lit_def rbind_eq_Inr read_byte_iff)

interpretation lit: walker walk_lit enc_lit lit_ok
proof (unfold_locales, rule iffI)
  fix c c'
  assume w: "walk_lit c = Inr c'"
  then obtain tag where tag: "has c [tag]" using walk_lit_tag by blast
  from w [unfolded walk_lit_step [OF tag]]
  consider n where "tag = 0" "has (advance c 1) (u32_to_le_bytes n)" "c' = advance c 5"
    | p where "tag = 1" "part_ok p" "has (advance c 1) (enc_part p)" "c' = advance c (1 + length (enc_part p))"
    by (auto simp: rbind_eq_Inr read_u32_le_iff name_part.walk_iff split: if_split_asm)
  then show "\<exists>x. lit_ok x \<and> has c (enc_lit x) \<and> c' = advance c (length (enc_lit x))"
  proof cases
    case (1 n)
    with tag show ?thesis by (intro exI [of _ "LitNat n"]) (simp add: has_Cons [of c _ "u32_to_le_bytes n"])
  next
    case (2 p)
    with tag show ?thesis by (intro exI [of _ "LitStr p"]) (simp add: has_Cons [of c _ "enc_part p"])
  qed
next
  fix c c'
  assume "\<exists>x. lit_ok x \<and> has c (enc_lit x) \<and> c' = advance c (length (enc_lit x))"
  then obtain x where x: "lit_ok x" "has c (enc_lit x)" "c' = advance c (length (enc_lit x))" by blast
  show "walk_lit c = Inr c'"
  proof (cases x)
    case (LitNat n)
    with x have "has c [0]" "read_u32_le (advance c 1) = Inr (n, c')"
      by (simp_all add: has_Cons [of c _ "u32_to_le_bytes n"] read_u32_le_iff)
    then show ?thesis by (simp add: walk_lit_step [of c 0])
  next
    case (LitStr p)
    with x have "has c [1]" "walk_name_part (advance c 1) = Inr c'"
      by (auto simp: has_Cons [of c _ "enc_part p"] name_part.walk_iff)
    then show ?thesis by (simp add: walk_lit_step [of c 1])
  qed
qed

datatype bin_tag = Tag13 | Tag14 | Tag15

fun bin_byte :: "bin_tag \<Rightarrow> u8" where
  "bin_byte Tag13 = 0x13"
| "bin_byte Tag14 = 0x14"
| "bin_byte Tag15 = 0x15"

datatype canon_expr =
    EVar u32
  | EDigest "u8 list"
  | ESort canon_level
  | EConst canon_name "canon_level list"
  | EBin bin_tag canon_expr canon_expr
  | ELet canon_expr canon_expr canon_expr
  | ELit canon_lit
  | EProj canon_name u32 canon_expr

definition enc_levels :: "canon_level list \<Rightarrow> u8 list" where
  "enc_levels ls = u32_to_le_bytes (of_nat (length ls)) @ concat (map enc_level ls)"

fun enc_expr :: "canon_expr \<Rightarrow> u8 list" where
  "enc_expr (EVar i) = 0x10 # u32_to_le_bytes i"
| "enc_expr (EDigest h) = 0x19 # h"
| "enc_expr (ESort l) = 0x11 # enc_level l"
| "enc_expr (EConst n ls) = 0x12 # enc_name n @ enc_levels ls"
| "enc_expr (EBin t e f) = bin_byte t # enc_expr e @ enc_expr f"
| "enc_expr (ELet e f g) = 0x16 # enc_expr e @ enc_expr f @ enc_expr g"
| "enc_expr (ELit l) = 0x17 # enc_lit l"
| "enc_expr (EProj n i e) = 0x18 # enc_name n @ u32_to_le_bytes i @ enc_expr e"

fun expr_fits :: "bool \<Rightarrow> nat \<Rightarrow> canon_expr \<Rightarrow> bool" where
  "expr_fits a d (EVar i) = (d \<le> MAX_WALK_DEPTH)"
| "expr_fits a d (EDigest h) = (d \<le> MAX_WALK_DEPTH \<and> a \<and> length h = 32)"
| "expr_fits a d (ESort l) = (d \<le> MAX_WALK_DEPTH \<and> level_fits 0 l)"
| "expr_fits a d (EConst n ls) =
     (d \<le> MAX_WALK_DEPTH \<and> name_ok n \<and> length ls < 2 ^ 32 \<and> list_all (level_fits 0) ls)"
| "expr_fits a d (EBin t e f) = (d \<le> MAX_WALK_DEPTH \<and> expr_fits a (d + 1) e \<and> expr_fits a (d + 1) f)"
| "expr_fits a d (ELet e f g) =
     (d \<le> MAX_WALK_DEPTH \<and> expr_fits a (d + 1) e \<and> expr_fits a (d + 1) f \<and> expr_fits a (d + 1) g)"
| "expr_fits a d (ELit l) = (d \<le> MAX_WALK_DEPTH \<and> lit_ok l)"
| "expr_fits a d (EProj n i e) = (d \<le> MAX_WALK_DEPTH \<and> name_ok n \<and> expr_fits a (d + 1) e)"

lemma walk_levels_iff:
  "rbind (read_u32_le c) (\<lambda>(k, c3). walk_times (unat k) (\<lambda>c. walk_level c 0) c3) = Inr c' \<longleftrightarrow>
     (\<exists>ls. length ls < 2 ^ 32 \<and> list_all (level_fits 0) ls \<and> has c (enc_levels ls) \<and> c' = advance c (length (enc_levels ls)))"
  unfolding counted_iff [OF level.walker_axioms] by (simp add: enc_levels_def)

text \<open>The byte in front decides which branch of \<open>walk_expr\<close> runs.\<close>

lemma walk_expr_step:
  assumes "d \<le> MAX_WALK_DEPTH" and "has c [tag]"
  shows "walk_expr c d a =
    (let c1 = advance c 1 in
     if tag = 0x10 then rbind (read_u32_le c1) (\<lambda>(_, c2). Ok c2)
     else if tag = 0x19 \<and> a then cursor_skip c1 32
     else if tag = 0x11 then walk_level c1 0
     else if tag = 0x12 then
       rbind (walk_name c1) (\<lambda>c2. rbind (read_u32_le c2) (\<lambda>(k, c3). walk_times (unat k) (\<lambda>c. walk_level c 0) c3))
     else if 0x13 \<le> tag \<and> tag \<le> 0x15 then rbind (walk_expr c1 (d + 1) a) (\<lambda>c2. walk_expr c2 (d + 1) a)
     else if tag = 0x16 then
       rbind (walk_expr c1 (d + 1) a) (\<lambda>c2. rbind (walk_expr c2 (d + 1) a) (\<lambda>c3. walk_expr c3 (d + 1) a))
     else if tag = 0x17 then walk_lit c1
     else if tag = 0x18 then
       rbind (walk_name c1) (\<lambda>c2. rbind (read_u32_le c2) (\<lambda>(_, c3). walk_expr c3 (d + 1) a))
     else Err (UnknownTag ''CanonExpr'' tag))"
proof -
  have read: "read_byte c = Inr (tag, advance c 1)" using assms(2) by (simp add: read_byte_iff)
  show ?thesis
    using assms(1) by (subst walk_expr.simps) (simp add: read Let_def rbind_def split: sum.split)
qed

lemma walk_expr_tag: "walk_expr c d a = Inr c' \<Longrightarrow> d \<le> MAX_WALK_DEPTH \<and> (\<exists>tag. has c [tag])"
  by (subst (asm) walk_expr.simps) (auto simp: rbind_eq_Inr read_byte_iff split: if_split_asm)

lemma has_cons2: "has c (x # xs @ ys) \<longleftrightarrow> has c [x] \<and> has (advance c 1) xs \<and> has (advance c (1 + length xs)) ys"
  by (simp add: has_Cons [of c x "xs @ ys"] has_append)

lemma has_cons3:
  "has c (x # xs @ ys @ zs) \<longleftrightarrow> has c [x] \<and> has (advance c 1) xs \<and> has (advance c (1 + length xs)) ys \<and>
     has (advance c (1 + length xs + length ys)) zs"
  by (simp add: has_cons2 has_append)

lemma bin_byte_range: "0x13 \<le> bin_byte t \<and> bin_byte t \<le> 0x15"
  by (cases t) simp_all

lemma bin_byte_exists:
  assumes "0x13 \<le> tag" and "tag \<le> (0x15 :: u8)" shows "\<exists>t. tag = bin_byte t"
proof -
  have "unat tag = 19 \<or> unat tag = 20 \<or> unat tag = 21"
    using assms by (auto simp: word_le_nat_alt)
  then have "tag = 0x13 \<or> tag = 0x14 \<or> tag = 0x15" by (auto simp: word_unat_eq_iff)
  then show ?thesis by (metis bin_byte.simps)
qed

lemma walk_expr_complete:
  "expr_fits a d e \<Longrightarrow> has c (enc_expr e) \<Longrightarrow> walk_expr c d a = Inr (advance c (length (enc_expr e)))"
proof (induction e arbitrary: c d)
  case (EVar i)
  then have "has c [0x10]" "read_u32_le (advance c 1) = Inr (i, advance c 5)"
    by (simp_all add: read_u32_le_iff has_Cons [of c _ "u32_to_le_bytes i"])
  with EVar show ?case by (simp add: walk_expr_step [of d c "0x10"])
next
  case (EDigest h)
  then have "has c [0x19]" "cursor_skip (advance c 1) 32 = Inr (advance c 33)"
    by (auto simp: cursor_skip_iff has_Cons [of c _ h] intro: exI [of _ h])
  with EDigest show ?case by (simp add: walk_expr_step [of d c "0x19"])
next
  case (ESort l)
  then have "has c [0x11]" "walk_level (advance c 1) 0 = Inr (advance c (1 + length (enc_level l)))"
    by (auto simp: has_Cons [of c _ "enc_level l"] level.walk_iff)
  with ESort show ?case by (simp add: walk_expr_step [of d c "0x11"])
next
  case (EConst n ls)
  then have "has c [0x12]" "walk_name (advance c 1) = Inr (advance c (1 + length (enc_name n)))"
    "rbind (read_u32_le (advance c (1 + length (enc_name n)))) (\<lambda>(k, c3). walk_times (unat k) (\<lambda>c. walk_level c 0) c3) =
       Inr (advance c (1 + length (enc_name n) + length (enc_levels ls)))"
    by (auto simp: has_cons2 name.walk_iff walk_levels_iff)
  with EConst show ?case by (simp add: walk_expr_step [of d c "0x12"])
next
  case (EBin t e f)
  then have h: "has c [bin_byte t]" "has (advance c 1) (enc_expr e)" "has (advance c (1 + length (enc_expr e))) (enc_expr f)"
    by (simp_all add: has_cons2)
  with EBin.IH EBin.prems have "walk_expr (advance c 1) (d + 1) a = Inr (advance c (1 + length (enc_expr e)))"
    "walk_expr (advance c (1 + length (enc_expr e))) (d + 1) a = Inr (advance c (length (enc_expr (EBin t e f))))"
    by simp_all
  with EBin.prems h(1) show ?case by (cases t) (simp_all add: walk_expr_step [of d c "bin_byte t"])
next
  case (ELet e f g)
  then have h: "has c [0x16]" "has (advance c 1) (enc_expr e)" "has (advance c (1 + length (enc_expr e))) (enc_expr f)"
    "has (advance c (1 + length (enc_expr e) + length (enc_expr f))) (enc_expr g)"
    by (simp_all add: has_cons3)
  with ELet.IH ELet.prems have "walk_expr (advance c 1) (d + 1) a = Inr (advance c (1 + length (enc_expr e)))"
    "walk_expr (advance c (1 + length (enc_expr e))) (d + 1) a = Inr (advance c (1 + length (enc_expr e) + length (enc_expr f)))"
    "walk_expr (advance c (1 + length (enc_expr e) + length (enc_expr f))) (d + 1) a =
       Inr (advance c (length (enc_expr (ELet e f g))))"
    by simp_all
  with ELet.prems h(1) show ?case by (simp add: walk_expr_step [of d c "0x16"])
next
  case (ELit l)
  then have "has c [0x17]" "walk_lit (advance c 1) = Inr (advance c (1 + length (enc_lit l)))"
    by (auto simp: has_Cons [of c _ "enc_lit l"] lit.walk_iff)
  with ELit show ?case by (simp add: walk_expr_step [of d c "0x17"])
next
  case (EProj n i e)
  then have h: "has c [0x18]" "walk_name (advance c 1) = Inr (advance c (1 + length (enc_name n)))"
    "read_u32_le (advance c (1 + length (enc_name n))) = Inr (i, advance c (5 + length (enc_name n)))"
    "has (advance c (5 + length (enc_name n))) (enc_expr e)"
    by (auto simp: has_cons3 name.walk_iff read_u32_le_iff add.commute)
  with EProj.IH EProj.prems have "walk_expr (advance c (5 + length (enc_name n))) (d + 1) a =
      Inr (advance c (length (enc_expr (EProj n i e))))" by (simp add: add.commute)
  with EProj.prems h(1,2,3) show ?case by (simp add: walk_expr_step [of d c "0x18"])
qed

lemma walk_expr_sound:
  "walk_expr c d a = Inr c' \<Longrightarrow> \<exists>e. expr_fits a d e \<and> has c (enc_expr e) \<and> c' = advance c (length (enc_expr e))"
proof (induction "Suc MAX_WALK_DEPTH - d" arbitrary: c d c' rule: less_induct)
  case less
  from walk_expr_tag [OF less.prems] obtain tag where d: "d \<le> MAX_WALK_DEPTH" and tag: "has c [tag]" by blast
  note step = less.prems [unfolded walk_expr_step [OF d tag] Let_def]
  let ?c1 = "advance c 1"
  have IH: "\<exists>e. expr_fits a (d + 1) e \<and> has x (enc_expr e) \<and> y = advance x (length (enc_expr e))"
    if "walk_expr x (d + 1) a = Inr y" for x y
    using that d by (intro less.hyps) auto
  have intro: ?case if "expr_fits a d e" "has c (enc_expr e)" "c' = advance c (length (enc_expr e))" for e
    using that by blast
  from step consider (var) i where "tag = 0x10" "read_u32_le ?c1 = Inr (i, c')"
    | (digest) "tag = 0x19" a "cursor_skip ?c1 32 = Inr c'"
    | (sort) "tag = 0x11" "walk_level ?c1 0 = Inr c'"
    | (const) c2 where "tag = 0x12" "walk_name ?c1 = Inr c2"
        "rbind (read_u32_le c2) (\<lambda>(k, c3). walk_times (unat k) (\<lambda>c. walk_level c 0) c3) = Inr c'"
    | (bin) c2 where "0x13 \<le> tag" "tag \<le> 0x15" "walk_expr ?c1 (d + 1) a = Inr c2" "walk_expr c2 (d + 1) a = Inr c'"
    | (lets) c2 c3 where "tag = 0x16" "walk_expr ?c1 (d + 1) a = Inr c2" "walk_expr c2 (d + 1) a = Inr c3"
        "walk_expr c3 (d + 1) a = Inr c'"
    | (lit) "tag = 0x17" "walk_lit ?c1 = Inr c'"
    | (proj) c2 i c3 where "tag = 0x18" "walk_name ?c1 = Inr c2" "read_u32_le c2 = Inr (i, c3)" "walk_expr c3 (d + 1) a = Inr c'"
    unfolding rbind_eq_Inr [of "walk_expr _ _ _"] rbind_eq_Inr [of "walk_name _"]
    by (auto simp: rbind_eq_Inr split: if_split_asm)
  then show ?case
  proof cases
    case (var i)
    with d tag show ?thesis
      by (intro intro [of "EVar i"]) (simp_all add: read_u32_le_iff has_Cons [of c _ "u32_to_le_bytes i"])
  next
    case digest
    from digest(3) obtain h where "length h = 32" "has ?c1 h" "c' = advance c 33" by (auto simp: cursor_skip_iff)
    with d tag digest show ?thesis by (intro intro [of "EDigest h"]) (simp_all add: has_Cons [of c _ h])
  next
    case sort
    from walk_level_sound [OF sort(2)] obtain l where "level_fits 0 l" "has ?c1 (enc_level l)"
      "c' = advance ?c1 (length (enc_level l))" by blast
    with d tag sort(1) show ?thesis by (intro intro [of "ESort l"]) (simp_all add: has_Cons [of c _ "enc_level l"])
  next
    case (const c2)
    from const(2) obtain n where n: "name_ok n" "has ?c1 (enc_name n)" "c2 = advance ?c1 (length (enc_name n))"
      by (auto simp: name.walk_iff)
    from const(3) obtain ls where "length ls < 2 ^ 32" "list_all (level_fits 0) ls" "has c2 (enc_levels ls)"
      "c' = advance c2 (length (enc_levels ls))" unfolding walk_levels_iff by blast
    with d tag const(1) n show ?thesis by (intro intro [of "EConst n ls"]) (simp_all add: has_cons2)
  next
    case (bin c2)
    from bin_byte_exists [OF bin(1,2)] obtain t where t: "tag = bin_byte t" ..
    from IH [OF bin(3)] IH [OF bin(4)] obtain e f where
      "expr_fits a (d + 1) e" "has ?c1 (enc_expr e)" "c2 = advance ?c1 (length (enc_expr e))"
      "expr_fits a (d + 1) f" "has c2 (enc_expr f)" "c' = advance c2 (length (enc_expr f))" by blast
    with d tag t show ?thesis by (intro intro [of "EBin t e f"]) (simp_all add: has_cons2)
  next
    case (lets c2 c3)
    from IH [OF lets(2)] IH [OF lets(3)] IH [OF lets(4)] obtain e f g where
      "expr_fits a (d + 1) e" "has ?c1 (enc_expr e)" "c2 = advance ?c1 (length (enc_expr e))"
      "expr_fits a (d + 1) f" "has c2 (enc_expr f)" "c3 = advance c2 (length (enc_expr f))"
      "expr_fits a (d + 1) g" "has c3 (enc_expr g)" "c' = advance c3 (length (enc_expr g))" by blast
    with d tag lets(1) show ?thesis by (intro intro [of "ELet e f g"]) (simp_all add: has_cons3)
  next
    case lit
    then obtain l where "lit_ok l" "has ?c1 (enc_lit l)" "c' = advance ?c1 (length (enc_lit l))"
      by (auto simp: lit.walk_iff)
    with d tag lit(1) show ?thesis by (intro intro [of "ELit l"]) (simp_all add: has_Cons [of c _ "enc_lit l"])
  next
    case (proj c2 i c3)
    from proj(2) obtain n where n: "name_ok n" "has ?c1 (enc_name n)" "c2 = advance ?c1 (length (enc_name n))"
      by (auto simp: name.walk_iff)
    from proj(3) have i: "has c2 (u32_to_le_bytes i)" "c3 = advance c2 4" by (simp_all add: read_u32_le_iff)
    from IH [OF proj(4)] obtain e where "expr_fits a (d + 1) e" "has c3 (enc_expr e)" "c' = advance c3 (length (enc_expr e))"
      by blast
    with d tag proj(1) n i show ?thesis by (intro intro [of "EProj n i e"]) (simp_all add: has_cons3)
  qed
qed

interpretation expr: walker "\<lambda>c. walk_expr c d a" enc_expr "expr_fits a d" for d a
  by unfold_locales (metis walk_expr_complete walk_expr_sound)

section \<open>Declarations and packages\<close>

type_synonym canon_decl = "canon_name \<times> canon_expr \<times> canon_expr"

definition enc_decl :: "canon_decl \<Rightarrow> u8 list" where
  "enc_decl = (\<lambda>(n, ty, body). enc_name n @ enc_expr ty @ enc_expr body)"

definition decl_ok :: "u32 \<Rightarrow> canon_decl \<Rightarrow> bool" where
  "decl_ok version = (\<lambda>(n, ty, body). name_ok n \<and>
     expr_fits (version = FORMAT_VERSION_V2) 0 ty \<and> expr_fits (version = FORMAT_VERSION_V2) 0 body)"

interpretation decl: walker "\<lambda>c. walk_decl c version" enc_decl "decl_ok version" for version
proof
  show "walk_decl c version = Inr c' \<longleftrightarrow>
      (\<exists>x. decl_ok version x \<and> has c (enc_decl x) \<and> c' = advance c (length (enc_decl x)))" for c c'
    unfolding walk_decl_def Let_def name.bind_iff expr.bind_iff expr.walk_iff
    by (simp add: split_paired_Ex enc_decl_def decl_ok_def has_append add.assoc) blast
qed

record canon_package =
  pk_version :: u32
  pk_universe_arity :: u32
  pk_name :: canon_name
  pk_statement :: canon_expr
  pk_proof :: canon_expr
  pk_decls :: "canon_decl list"

definition top_expr_ok :: "u32 \<Rightarrow> canon_expr \<Rightarrow> bool" where
  "top_expr_ok version e \<longleftrightarrow>
     (if version = FORMAT_VERSION_V1 then expr_fits False 0 e else (\<exists>h. e = EDigest h \<and> length h = 32))"

definition package_ok :: "canon_package \<Rightarrow> bool" where
  "package_ok p \<longleftrightarrow>
     (pk_version p = FORMAT_VERSION_V1 \<or> pk_version p = FORMAT_VERSION_V2) \<and> name_ok (pk_name p) \<and>
     top_expr_ok (pk_version p) (pk_statement p) \<and> top_expr_ok (pk_version p) (pk_proof p) \<and>
     length (pk_decls p) < 2 ^ 32 \<and> list_all (decl_ok (pk_version p)) (pk_decls p)"

definition enc_decls :: "canon_decl list \<Rightarrow> u8 list" where
  "enc_decls ds = u32_to_le_bytes (of_nat (length ds)) @ concat (map enc_decl ds)"

definition enc_package :: "canon_package \<Rightarrow> u8 list" where
  "enc_package p = MAGIC @ u32_to_le_bytes (pk_version p) @ u32_to_le_bytes (pk_universe_arity p) @
     enc_name (pk_name p) @ enc_expr (pk_statement p) @ enc_expr (pk_proof p) @ enc_decls (pk_decls p)"

definition walk_top :: "u32 \<Rightarrow> cursor \<Rightarrow> decode_detail + cursor" where
  "walk_top version c = (if version = FORMAT_VERSION_V1 then walk_expr c 0 False else walk_opaque_digest_expr c)"

lemma read_byte_bind:
  "rbind (read_byte c) f = Inr y \<longleftrightarrow> (\<exists>b. has c [b] \<and> f (b, advance c 1) = Inr y)"
  by (auto simp: rbind_eq_Inr read_byte_iff)

lemma opaque_tag:
  "(\<exists>b. has c [b] \<and> (case (b, c1) of (tag, c1) \<Rightarrow> if tag \<noteq> k then Err (e tag) else g c1) = Inr y) \<longleftrightarrow> has c [k] \<and> g c1 = Inr y"
  by auto

interpretation top: walker "walk_top version" enc_expr "top_expr_ok version" for version
proof
  fix c c'
  have "walk_opaque_digest_expr c = Inr c' \<longleftrightarrow> has c [0x19] \<and> cursor_skip (advance c 1) 32 = Inr c'"
    unfolding walk_opaque_digest_expr_def read_byte_bind by (rule opaque_tag)
  also have "\<dots> \<longleftrightarrow> (\<exists>h. length h = 32 \<and> has c ([0x19] @ h) \<and> c' = advance c 33)"
    unfolding cursor_skip_iff has_append by (simp del: append_Cons) blast
  also have "\<dots> \<longleftrightarrow> (\<exists>x. (\<exists>h. x = EDigest h \<and> length h = 32) \<and> has c (enc_expr x) \<and> c' = advance c (length (enc_expr x)))"
    by auto
  finally show "walk_top version c = Inr c' \<longleftrightarrow>
      (\<exists>x. top_expr_ok version x \<and> has c (enc_expr x) \<and> c' = advance c (length (enc_expr x)))"
    unfolding walk_top_def top_expr_ok_def by (simp add: expr.walk_iff)
qed

lemma has_all: "has (cursor_new bytes) bs \<and> length bs = length bytes \<longleftrightarrow> bytes = bs"
  by (auto simp: has_def cursor_new_def)

lemma read_u32_le_bind:
  "rbind (read_u32_le c) f = Inr y \<longleftrightarrow> (\<exists>k. has c (u32_to_le_bytes k) \<and> f (k, advance c 4) = Inr y)"
  by (auto simp: rbind_eq_Inr read_u32_le_iff)

lemma walk_decls_bind:
  "(\<exists>k. has c (u32_to_le_bytes k) \<and> rbind (walk_times (unat k) (\<lambda>c. walk_decl c v) (advance c 4)) (f k) = Inr y) \<longleftrightarrow>
   (\<exists>ds. length ds < 2 ^ 32 \<and> list_all (decl_ok v) ds \<and> has c (enc_decls ds) \<and>
      f (of_nat (length ds)) (advance c (length (enc_decls ds))) = Inr y)"
proof -
  have "rbind (walk_times (unat k) (\<lambda>c. walk_decl c v) (advance c 4)) (f k) = Inr y \<longleftrightarrow>
      (\<exists>ds. length ds = unat k \<and> list_all (decl_ok v) ds \<and> has (advance c 4) (concat (map enc_decl ds)) \<and>
        f k (advance c (4 + length (concat (map enc_decl ds)))) = Inr y)"
    if "has c (u32_to_le_bytes k)" for k :: u32
    using has_end [OF that] by (auto simp: rbind_eq_Inr decl.times_iff)
  then have "(\<exists>k. has c (u32_to_le_bytes k) \<and> rbind (walk_times (unat k) (\<lambda>c. walk_decl c v) (advance c 4)) (f k) = Inr y) \<longleftrightarrow>
      (\<exists>k ds. length ds = unat (k :: u32) \<and> list_all (decl_ok v) ds \<and> has c (u32_to_le_bytes k @ concat (map enc_decl ds)) \<and>
        f k (advance c (4 + length (concat (map enc_decl ds)))) = Inr y)"
    unfolding has_append by (simp cong: conj_cong) blast
  also have "\<dots> \<longleftrightarrow> (\<exists>ds. length ds < 2 ^ 32 \<and> list_all (decl_ok v) ds \<and> has c (enc_decls ds) \<and>
      f (of_nat (length ds)) (advance c (length (enc_decls ds))) = Inr y)"
    unfolding count_iff [of "\<lambda>k n. \<exists>ds. length ds = n \<and> Q k ds" for Q] by (auto simp: enc_decls_def)
  finally show ?thesis .
qed

lemma walk_tops:
  "(if version = FORMAT_VERSION_V1 then rbind (walk_expr c 0 False) (\<lambda>c. walk_expr c 0 False)
    else rbind (walk_opaque_digest_expr c) walk_opaque_digest_expr) = rbind (walk_top version c) (walk_top version)"
proof -
  have "walk_top version = (if version = FORMAT_VERSION_V1 then (\<lambda>c. walk_expr c 0 False) else walk_opaque_digest_expr)"
    by (simp add: fun_eq_iff walk_top_def)
  then show ?thesis by simp
qed

text \<open>\<^const>\<open>walk_package\<close> after its header check, with the two top-level walks through \<^const>\<open>walk_top\<close>.\<close>

definition walk_body :: "u8 list \<Rightarrow> decode_detail + walk_result" where
  "walk_body bytes =
     rbind (cursor_skip (cursor_new bytes) 4) (\<lambda>c.
     rbind (read_u32_le c) (\<lambda>(version, c).
     rbind (ensure (version = FORMAT_VERSION_V1 \<or> version = FORMAT_VERSION_V2) (UnsupportedVersion version)) (\<lambda>_.
     rbind (read_u32_le c) (\<lambda>(universe_arity, c).
     rbind (walk_name c) (\<lambda>c.
     rbind (walk_top version c) (\<lambda>c.
     rbind (walk_top version c) (\<lambda>c.
     rbind (read_u32_le c) (\<lambda>(decl_count, c).
     rbind (walk_times (unat decl_count) (\<lambda>c. walk_decl c version) c) (\<lambda>c.
     if cu_pos c \<noteq> length bytes then Err (TrailingBytes (cu_pos c) (length bytes))
     else Ok \<lparr>wr_decl_count = decl_count, wr_size = cu_pos c, wr_universe_arity = universe_arity\<rparr>)))))))))"

lemma walk_package_body:
  "walk_package bytes =
     (if length bytes < 12 then Err UnexpectedEof else if take 4 bytes \<noteq> MAGIC then Err BadMagic else walk_body bytes)"
  unfolding walk_package_def walk_body_def walk_tops rbind_assoc by (rule refl)

lemma ensure_bind: "rbind (ensure b e) f = Inr y \<longleftrightarrow> b \<and> f () = Inr y"
  by (simp add: ensure_def)

lemma guard_ok: "(if a \<noteq> b then Err e else Ok x) = Inr r \<longleftrightarrow> a = b \<and> r = x"
  by auto

lemma walk_package_parts:
  assumes "take 4 bytes = MAGIC" "12 \<le> length bytes"
  shows "walk_package bytes = Inr r \<longleftrightarrow>
    (\<exists>v a n s p ds. (v = FORMAT_VERSION_V1 \<or> v = FORMAT_VERSION_V2) \<and> name_ok n \<and> top_expr_ok v s \<and> top_expr_ok v p \<and>
       length ds < 2 ^ 32 \<and> list_all (decl_ok v) ds \<and>
       has (advance (cursor_new bytes) 4)
         (u32_to_le_bytes v @ u32_to_le_bytes a @ enc_name n @ enc_expr s @ enc_expr p @ enc_decls ds) \<and>
       12 + length (enc_name n) + length (enc_expr s) + length (enc_expr p) + length (enc_decls ds) = length bytes \<and>
       r = \<lparr>wr_decl_count = of_nat (length ds), wr_size = length bytes, wr_universe_arity = a\<rparr>)"
proof -
  have skip: "cursor_skip (cursor_new bytes) 4 = Inr (advance (cursor_new bytes) 4)"
    using assms by (simp add: cursor_skip_def cursor_ensure_def cursor_new_def advance_def)
  have "walk_package bytes = Inr r \<longleftrightarrow> walk_body bytes = Inr r"
    using assms by (simp add: walk_package_body)
  also have "\<dots> \<longleftrightarrow> (\<exists>v a n s p ds. (v = FORMAT_VERSION_V1 \<or> v = FORMAT_VERSION_V2) \<and> name_ok n \<and> top_expr_ok v s \<and> top_expr_ok v p \<and>
       length ds < 2 ^ 32 \<and> list_all (decl_ok v) ds \<and>
       has (advance (cursor_new bytes) 4)
         (u32_to_le_bytes v @ u32_to_le_bytes a @ enc_name n @ enc_expr s @ enc_expr p @ enc_decls ds) \<and>
       12 + length (enc_name n) + length (enc_expr s) + length (enc_expr p) + length (enc_decls ds) = length bytes \<and>
       r = \<lparr>wr_decl_count = of_nat (length ds), wr_size = length bytes, wr_universe_arity = a\<rparr>)"
    unfolding walk_body_def skip rbind_Inr read_u32_le_bind ensure_bind name.bind_iff top.bind_iff prod.case
    unfolding walk_decls_bind guard_ok has_append
    unfolding advance_simps length_le cursor_new_def cursor.simps ex_simps(1,2) [symmetric]
    by (simp add: add.assoc conj_ac ex_simps(1,2) [symmetric] del: ex_simps cong: conj_cong)
  finally show ?thesis .
qed

lemma has_prefix: "has (cursor_new bytes) bs \<longleftrightarrow> take (length bs) bytes = bs"
  by (auto simp: has_def cursor_new_def dest: arg_cong [of _ _ length])

lemma ex_package: "(\<exists>p. P p) \<longleftrightarrow>
    (\<exists>v a n s q ds. P \<lparr>pk_version = v, pk_universe_arity = a, pk_name = n, pk_statement = s, pk_proof = q, pk_decls = ds\<rparr>)"
proof
  assume "\<exists>p. P p"
  then obtain p where "P p" ..
  then show "\<exists>v a n s q ds. P \<lparr>pk_version = v, pk_universe_arity = a, pk_name = n, pk_statement = s, pk_proof = q, pk_decls = ds\<rparr>"
    by (cases p) blast
qed blast

lemma length_magic [simp]: "length MAGIC = 4"
  by (simp add: MAGIC_def)

lemma walk_package_header:
  assumes "walk_package bytes = Inr r"
  shows "take 4 bytes = MAGIC" "12 \<le> length bytes"
  using assms by (auto simp: walk_package_def split: if_split_asm)

lemma walk_package_iff:
  "walk_package bytes = Inr r \<longleftrightarrow>
     (\<exists>p. package_ok p \<and> bytes = enc_package p \<and>
        r = \<lparr>wr_decl_count = of_nat (length (pk_decls p)), wr_size = length bytes, wr_universe_arity = pk_universe_arity p\<rparr>)"
proof (cases "take 4 bytes = MAGIC \<and> 12 \<le> length bytes")
  case False
  moreover have "take 4 (enc_package p) = MAGIC \<and> 12 \<le> length (enc_package p)" for p
    by (simp add: enc_package_def)
  ultimately show ?thesis using walk_package_header by metis
next
  case True
  then have magic: "has (cursor_new bytes) MAGIC" by (simp add: has_prefix)
  have eq: "bytes = enc_package p \<longleftrightarrow> has (advance (cursor_new bytes) 4) (drop 4 (enc_package p)) \<and>
      length (enc_package p) = length bytes" for p
    using magic has_all [of bytes "enc_package p"] by (simp add: enc_package_def has_append [of _ MAGIC])
  show ?thesis
    unfolding ex_package walk_package_parts [OF conjunct1 [OF True] conjunct2 [OF True]] eq
    by (simp add: package_ok_def enc_package_def conj_ac add.assoc)
qed

section \<open>Walker errors\<close>

fun tag_ok :: "decode_detail \<Rightarrow> bool" where
  "tag_ok (RecursionLimit t n) = (t \<in> {''CanonLevel'', ''CanonLit'', ''CanonExpr''} \<and> n = MAX_WALK_DEPTH)"
| "tag_ok (UnknownTag t _) = (t \<in> {''CanonLevel'', ''CanonLit'', ''CanonExpr''})"
| "tag_ok (TrailingBytes _ _) = False"
| "tag_ok _ = True"

lemma tag_ok_cursor:
  "cursor_skip c n = Inl e \<Longrightarrow> tag_ok e" "read_byte c = Inl e \<Longrightarrow> tag_ok e" "read_u32_le c = Inl e \<Longrightarrow> tag_ok e"
  by (auto simp: cursor_skip_def read_byte_def read_u32_le_def cursor_ensure_def split: if_split_asm)

lemma tag_ok_times:
  assumes "walk_times n walk c = Inl e" "\<And>c e. walk c = Inl e \<Longrightarrow> tag_ok e"
  shows "tag_ok e"
  using assms(1) by (induction n arbitrary: c) (auto simp: rbind_eq_Inl intro: assms(2))

lemma tag_ok_part: "walk_name_part c = Inl e \<Longrightarrow> tag_ok e"
  by (auto simp: walk_name_part_def rbind_eq_Inl dest: tag_ok_cursor)

lemma tag_ok_names: "walk_name c = Inl e \<Longrightarrow> tag_ok e" "walk_lit c = Inl e \<Longrightarrow> tag_ok e"
  by (auto simp: walk_name_def walk_lit_def rbind_eq_Inl split: if_split_asm
      dest: tag_ok_cursor dest!: tag_ok_times [OF _ tag_ok_part])

lemma tag_ok_level: "walk_level c depth = Inl e \<Longrightarrow> tag_ok e"
proof (induction "Suc MAX_WALK_DEPTH - depth" arbitrary: c depth rule: less_induct)
  case less
  note step = less.prems [unfolded walk_level.simps [of c depth]]
  show ?case
  proof (cases "depth > MAX_WALK_DEPTH")
    case False
    then have "walk_level c1 (Suc depth) = Inl e \<Longrightarrow> tag_ok e" for c1
      by (intro less.hyps [of "Suc depth" c1]) simp_all
    with False step show ?thesis
      by (auto simp: rbind_eq_Inl split: if_split_asm sum.splits dest: tag_ok_cursor)
  qed (use step in auto)
qed

lemma tag_ok_expr: "walk_expr c depth allow = Inl e \<Longrightarrow> tag_ok e"
proof (induction "Suc MAX_WALK_DEPTH - depth" arbitrary: c depth rule: less_induct)
  case less
  note step = less.prems [unfolded walk_expr.simps [of c depth]]
  show ?case
  proof (cases "depth > MAX_WALK_DEPTH")
    case False
    then have "walk_expr c1 (Suc depth) allow = Inl e \<Longrightarrow> tag_ok e" for c1
      by (intro less.hyps [of "Suc depth" c1]) simp_all
    with False step show ?thesis
      by (auto simp: rbind_eq_Inl split: if_split_asm sum.splits
          dest: tag_ok_cursor tag_ok_names tag_ok_level dest!: tag_ok_times [OF _ tag_ok_level])
  qed (use step in auto)
qed

lemma tag_ok_decl: "walk_decl c v = Inl e \<Longrightarrow> tag_ok e"
  by (auto simp: walk_decl_def Let_def rbind_eq_Inl dest: tag_ok_names tag_ok_expr)

lemma tag_ok_opaque: "walk_opaque_digest_expr c = Inl e \<Longrightarrow> tag_ok e"
  by (auto simp: walk_opaque_digest_expr_def rbind_eq_Inl split: if_split_asm dest: tag_ok_cursor)

lemma tag_ok_top: "walk_top v c = Inl e \<Longrightarrow> tag_ok e"
  by (auto simp: walk_top_def split: if_split_asm dest: tag_ok_opaque tag_ok_expr)

definition within :: "u8 list \<Rightarrow> cursor \<Rightarrow> bool" where
  "within bytes c \<longleftrightarrow> cu_bytes c = bytes \<and> cu_pos c \<le> length bytes"

lemma within_has: "within bytes c \<Longrightarrow> has c bs \<Longrightarrow> within bytes (advance c (length bs))"
  by (auto simp: within_def has_def)

lemma within_walk:
  assumes "walker walk enc good" "walk c = Inr c'" "within bytes c"
  shows "within bytes c'"
  using assms(2,3) by (auto simp: walker.walk_iff [OF assms(1)] within_has)

lemma within_times:
  assumes "walker walk enc good" "walk_times n walk c = Inr c'" "within bytes c"
  shows "within bytes c'"
  using assms(2,3) by (induction n arbitrary: c) (auto simp: rbind_eq_Inr dest: within_walk [OF assms(1)])

lemma within_read: "read_u32_le c = Inr (k, c') \<Longrightarrow> within bytes c \<Longrightarrow> within bytes c'"
  using within_has [of bytes c "u32_to_le_bytes k"] by (simp add: read_u32_le_iff)

lemma within_skip: "cursor_skip (cursor_new bytes) n = Inr c \<Longrightarrow> within bytes c"
  by (auto simp: cursor_skip_def cursor_ensure_def cursor_new_def within_def rbind_eq_Inr split: if_split_asm)

definition error_ok :: "u8 list \<Rightarrow> decode_detail \<Rightarrow> bool" where
  "error_ok bytes e \<longleftrightarrow> tag_ok e \<or> (\<exists>at < length bytes. e = TrailingBytes at (length bytes))"

definition errs :: "('e \<Rightarrow> bool) \<Rightarrow> 'e + 'a \<Rightarrow> bool" where
  "errs P r \<longleftrightarrow> (\<forall>e. r = Inl e \<longrightarrow> P e)"

lemma errs_bind:
  fixes r :: "'e + 'a"
  shows "errs P r \<Longrightarrow> (\<And>x. r = Inr x \<Longrightarrow> errs P (f x)) \<Longrightarrow> errs P (rbind r f)"
  by (auto simp: errs_def rbind_eq_Inl)

lemma errs_bind_pair:
  "errs P r \<Longrightarrow> (\<And>x y. r = Inr (x, y) \<Longrightarrow> errs P (f x y)) \<Longrightarrow> errs P (rbind r (\<lambda>(x, y). f x y))"
  by (auto simp: errs_def rbind_eq_Inl)

lemma errs_walk:
  "errs (error_ok bytes) (cursor_skip c n)" "errs (error_ok bytes) (read_u32_le c)" "errs (error_ok bytes) (walk_name c)"
  "errs (error_ok bytes) (walk_top v c)" "errs (error_ok bytes) (walk_times n (\<lambda>c. walk_decl c v) c)"
  "errs (error_ok bytes) (ensure b (UnsupportedVersion v))"
  by (auto simp: errs_def error_ok_def ensure_def split: if_split_asm
      dest: tag_ok_cursor tag_ok_names tag_ok_top dest!: tag_ok_times [OF _ tag_ok_decl])

lemma errs_body: "errs (error_ok bytes) (walk_body bytes)"
  unfolding walk_body_def
proof (intro errs_bind_pair errs_bind [where 'a = unit] errs_bind [where 'a = cursor] errs_walk)
  fix c0 v c1 u a c2 c3 c4 c5 k c6 c7
  assume "cursor_skip (cursor_new bytes) 4 = Inr c0" "read_u32_le c0 = Inr (v, c1)" "read_u32_le c1 = Inr (a, c2)"
    "walk_name c2 = Inr c3" "walk_top v c3 = Inr c4" "walk_top v c4 = Inr c5" "read_u32_le c5 = Inr (k, c6)"
    "walk_times (unat k) (\<lambda>c. walk_decl c v) c6 = Inr c7"
  then have "within bytes c7"
    by (metis within_skip within_read within_walk [OF name.walker_axioms] within_walk [OF top.walker_axioms]
        within_times [OF decl.walker_axioms])
  then show "errs (error_ok bytes) (if cu_pos c7 \<noteq> length bytes then Err (TrailingBytes (cu_pos c7) (length bytes))
     else Ok \<lparr>wr_decl_count = k, wr_size = cu_pos c7, wr_universe_arity = a\<rparr>)"
    by (auto simp: errs_def error_ok_def within_def)
qed

lemma walk_package_error: "walk_package bytes = Inl e \<Longrightarrow> error_ok bytes e"
  using errs_body [of bytes] by (auto simp: walk_package_body errs_def error_ok_def split: if_split_asm)

section \<open>An example\<close>

definition ex_package :: canon_package where
  "ex_package = \<lparr>pk_version = 1, pk_universe_arity = 0, pk_name = [[0x61]], pk_statement = ESort LZero,
     pk_proof = EVar 0, pk_decls = [([[0x62]], ESort LZero, EVar 0)]\<rparr>"

lemma ex_package_ok: "package_ok ex_package"
  by (simp add: package_ok_def ex_package_def name_ok_def part_ok_def top_expr_ok_def decl_ok_def
      FORMAT_VERSION_V1_def FORMAT_VERSION_V2_def MAX_WALK_DEPTH_def)

lemma ex_package_length: "length (enc_package ex_package) = 48"
  by (simp add: ex_package_def enc_package_def enc_decls_def enc_decl_def enc_name_def enc_part_def)

end
