(* ===== verification/Validator_Theorems.thy ===== *)
theory Validator_Theorems
  imports Validator_Package
begin

text \<open>
  The validator's entry points against the package grammar: what is accepted, the limits enforced,
  and the JSON form of a rejection.
\<close>

section \<open>Acceptance and limits\<close>

text \<open>C10. The shape validator accepts a byte string exactly when it is the encoding of a package of the
  grammar: the magic, a supported version, the universe arity, the package name, the statement and
  proof expressions (opaque digests in version 2), and a counted list of declarations, each
  expression within the recursion limit. It reports the package's declaration count and arity and
  the length of the input.\<close>

theorem validator_accepts_grammar:
  "validate_proof_package_shape bytes = ValidationOk d s u \<longleftrightarrow>
     (\<exists>p. package_ok p \<and> bytes = enc_package p \<and>
        d = of_nat (length (pk_decls p)) \<and> s = length bytes \<and> u = pk_universe_arity p)"
proof -
  have "validate_proof_package_shape bytes = ValidationOk d s u \<longleftrightarrow>
      walk_package bytes = Inr \<lparr>wr_decl_count = d, wr_size = s, wr_universe_arity = u\<rparr>"
    by (cases "walk_package bytes") (auto simp: validate_proof_package_shape_def)
  then show ?thesis by (auto simp: walk_package_iff)
qed

text \<open>C20. For a declaration limit that fits 32 bits, validation under limits accepts exactly the encodings
  of grammar packages no longer than the byte limit and with no more declarations than the
  declaration limit.\<close>

theorem validator_enforces_limits:
  assumes "max_decls < 2 ^ 32"
  shows "validate_proof_package_with_limits bytes max_proof_bytes max_decls = ValidationOk d s u \<longleftrightarrow>
     (\<exists>p. package_ok p \<and> bytes = enc_package p \<and> length bytes \<le> max_proof_bytes \<and>
        length (pk_decls p) \<le> max_decls \<and>
        d = of_nat (length (pk_decls p)) \<and> s = length bytes \<and> u = pk_universe_arity p)"
proof -
  have small: "of_nat n > (of_nat max_decls :: u32) \<longleftrightarrow> n > max_decls" if "n < 2 ^ 32" for n
    using that assms by (simp add: word_less_nat_alt unat_of_nat)
  have "validate_proof_package_with_limits bytes max_proof_bytes max_decls = ValidationOk d s u \<longleftrightarrow>
      length bytes \<le> max_proof_bytes \<and> s \<le> max_proof_bytes \<and> \<not> d > of_nat max_decls \<and>
      walk_package bytes = Inr \<lparr>wr_decl_count = d, wr_size = s, wr_universe_arity = u\<rparr>"
    by (cases "walk_package bytes") (auto simp: validate_proof_package_with_limits_def usize_as_u32_def)
  also have "\<dots> \<longleftrightarrow> (\<exists>p. package_ok p \<and> bytes = enc_package p \<and> length bytes \<le> max_proof_bytes \<and>
        length (pk_decls p) \<le> max_decls \<and>
        d = of_nat (length (pk_decls p)) \<and> s = length bytes \<and> u = pk_universe_arity p)"
    unfolding walk_package_iff by (auto simp: package_ok_def small linorder_not_less [symmetric])
  finally show ?thesis .
qed

theorem validator_enforces_limits_witness:
  "(20 :: nat) < 2 ^ 32 \<and> validate_proof_package_with_limits (enc_package ex_package) 100 20 = ValidationOk 1 48 0"
  using validator_enforces_limits [of 20 "enc_package ex_package" 100 1 48 0] ex_package_ok ex_package_length
  by (auto simp: ex_package_def)

text \<open>The limit is cut to 32 bits before the comparison: a limit of 2^32 declarations rejects a package of one.\<close>

lemma decl_limit_truncated:
  "validate_proof_package_with_limits (enc_package ex_package) 100 (2 ^ 32) = ValidationErr (TooManyDecls 1 (2 ^ 32))"
proof -
  have "\<exists>u. walk_package (enc_package ex_package) = Inr \<lparr>wr_decl_count = 1, wr_size = 48, wr_universe_arity = u\<rparr>"
    unfolding walk_package_iff using ex_package_ok ex_package_length by auto (auto simp: ex_package_def)
  moreover have "usize_as_u32 (2 ^ 32) = 0" "usize_as_i64 (2 ^ 32) = 2 ^ 32" by (simp_all add: usize_as_u32_def usize_as_i64_def)
  ultimately show ?thesis using ex_package_length by (auto simp: validate_proof_package_with_limits_def)
qed

section \<open>JSON form of a rejection\<close>

lemma i64_roundtrip: "- (2 ^ 63) \<le> i \<Longrightarrow> i < 2 ^ 63 \<Longrightarrow> json_as_i64 (JI64 i) = Some i"
  by (auto simp: JI64_def unsigned_of_int take_bit_int_eq_self)

lemma usize_as_i64_bounds: "- (2 ^ 63) \<le> usize_as_i64 n" "usize_as_i64 n < 2 ^ 63"
  using sint_greater_eq [of "of_nat n :: u64"] sint_less [of "of_nat n :: u64"] by (simp_all add: usize_as_i64_def)

fun detail_fits :: "decode_detail \<Rightarrow> bool" where
  "detail_fits (TrailingBytes at sz) = (at < 2 ^ 64 \<and> sz < 2 ^ 64)"
| "detail_fits d = tag_ok d"

lemma widen_narrow [simp]: "ucast (ucast x :: u64) = (x :: u8)" "ucast (ucast y :: u64) = (y :: u32)"
  by (simp_all add: ucast_up_ucast_id is_up)

lemma decode_detail_roundtrip: "detail_fits d \<Longrightarrow> decode_detail_from_json (decode_detail_json d) = Ok d"
  by (cases d) (auto simp: decode_detail_from_json_def json_field_def ok_or_def JUsize_def unsigned_of_nat take_bit_nat_eq_self
      required_json_string_def intern_where_tag_def MAX_WALK_DEPTH_def)

lemma error_fits: "error_ok bytes e \<Longrightarrow> length bytes < 2 ^ 64 \<Longrightarrow> detail_fits e"
  by (cases e) (auto simp: error_ok_def)

text \<open>Every rejection that validation under limits returns for an input shorter than 2^64 bytes is
  recovered unchanged from its JSON form.\<close>

theorem rejection_json_roundtrip:
  assumes "validate_proof_package_with_limits bytes max_proof_bytes max_decls = ValidationErr reason"
    and "length bytes < 2 ^ 64"
  shows "validation_reason_from_json (validation_reason_json reason) = Ok reason"
proof -
  consider sz n where "reason = TooLarge sz (usize_as_i64 n)" "sz = length bytes"
    | count n where "reason = TooManyDecls count (usize_as_i64 n)"
    | e where "reason = Decode e" "error_ok bytes e"
    using assms(1) walk_package_error [of bytes]
    by (auto simp: validate_proof_package_with_limits_def walk_package_iff split: if_split_asm sum.splits)
  then show ?thesis
  proof cases
    case 1
    then show ?thesis
      using assms(2) by (simp add: validation_reason_from_json_def json_field_def ok_or_def JUsize_def unsigned_of_nat take_bit_nat_eq_self
          i64_roundtrip [OF usize_as_i64_bounds])
  next
    case 2
    then show ?thesis
      by (simp add: validation_reason_from_json_def json_field_def ok_or_def i64_roundtrip [OF usize_as_i64_bounds])
  next
    case 3
    then show ?thesis
      using decode_detail_roundtrip [OF error_fits [OF 3(2) assms(2)]]
      by (simp add: validation_reason_from_json_def json_field_def ok_or_def)
  qed
qed

theorem rejection_json_roundtrip_witness:
  "validate_proof_package_with_limits [0x50, 0x4f] 10 10 = ValidationErr (Decode UnexpectedEof) \<and>
   validation_reason_from_json (validation_reason_json (Decode UnexpectedEof)) = Ok (Decode UnexpectedEof)"
proof -
  have "validate_proof_package_with_limits [0x50, 0x4f] 10 10 = ValidationErr (Decode UnexpectedEof)"
    by (simp add: validate_proof_package_with_limits_def walk_package_def)
  moreover have "length [0x50 :: u8, 0x4f] < 2 ^ 64" by simp
  ultimately show ?thesis using rejection_json_roundtrip by blast
qed

end
