(* ===== verification/Block.thy ===== *)
theory Block
  imports Signed_Envelope
begin

text \<open>
  block.rs, the block hash of hash.rs and the share records of block_builder.rs that blocks carry:
  the persisted block, its shape check and its preimage.
\<close>

section \<open>Records\<close>

record promoted_bounty_share =
  pb_family_id :: string
  pb_bounty_id :: string
  pb_proof_hash :: string
  pb_prover :: string
  pb_reward :: string

record share_work_authorization =
  wa_schema :: string
  wa_payload :: json
  wa_pk :: string
  wa_signature :: string
  wa_network_id :: "string option"

record selected_share_evidence =
  ev_pk :: string
  ev_n :: string
  ev_j :: string
  ev_c :: string
  ev_canon_hash :: string
  ev_proof_package :: string
  ev_seed_hex :: string
  ev_signed_work :: "share_work_authorization option"

text \<open>The key that canonical share order compares, lexicographically.\<close>

type_synonym canonical_order_key = "string \<times> string \<times> string"

definition evidence_order_key :: "selected_share_evidence \<Rightarrow> canonical_order_key" where
  "evidence_order_key e = (ev_pk e, ev_n e, ev_j e)"

record persisted_block =
  bl_height :: u64
  bl_prev_c :: string
  bl_c :: string
  bl_proposer_pk :: string
  bl_selected_share_hashes :: "string list"
  bl_selected_share_pks :: "string list"
  bl_selected_share_reward_pks :: "string list"
  bl_proposer_reward_pk :: string
  bl_selected_share_evidence :: "selected_share_evidence list"
  bl_min_share_score :: string
  bl_min_share_score_multiplier_nanos :: u64
  bl_kmax_applied :: u64
  bl_difficulty_epoch :: u64
  bl_t_block :: string
  bl_t_share :: string
  bl_difficulty_weight :: string
  bl_dropped_below_min_score :: u64
  bl_dropped_kernel_reject :: u64
  bl_truncated_by_kmax :: u64
  bl_ts :: u64
  bl_promoted_bounty_shares :: "promoted_bounty_share list"

section \<open>Shape\<close>

datatype shape_error =
    ShapeHex hex_error
  | SharePksLength
  | RewardPksLength
  | KmaxApplied
  | ShapeNumber string
  | ShapeWeight weight_error
  | WeightMismatch
  | BountyReward string

definition validate_bounty_share_shape :: "ext \<Rightarrow> promoted_bounty_share \<Rightarrow> shape_error + unit" where
  "validate_bounty_share_shape E share =
     rbind (map_err ShapeHex (hex32_from_hex E (pb_proof_hash share))) (\<lambda>_.
     rbind (map_err ShapeHex (hex32_from_hex E (pb_prover share))) (\<lambda>_.
     ensure ((parse_word (pb_reward share) :: u128 option) \<noteq> None) (BountyReward (pb_bounty_id share))))"

definition hex32_ok :: "ext \<Rightarrow> string \<Rightarrow> shape_error + unit" where
  "hex32_ok E s = rbind (map_err ShapeHex (hex32_from_hex E s)) (\<lambda>_. Ok ())"

definition validate_shape :: "ext \<Rightarrow> persisted_block \<Rightarrow> shape_error + unit" where
  "validate_shape E b =
     rbind (hex32_ok E (bl_prev_c b)) (\<lambda>_.
     rbind (hex32_ok E (bl_c b)) (\<lambda>_.
     rbind (hex32_ok E (bl_proposer_pk b)) (\<lambda>_.
     rbind (try_for_each (hex32_ok E) (bl_selected_share_hashes b)) (\<lambda>_.
     rbind (try_for_each (hex32_ok E) (bl_selected_share_pks b)) (\<lambda>_.
     rbind (try_for_each (hex32_ok E) (bl_selected_share_reward_pks b)) (\<lambda>_.
     rbind (if bl_proposer_reward_pk b \<noteq> [] then hex32_ok E (bl_proposer_reward_pk b) else Ok ()) (\<lambda>_.
     rbind (ensure (length (bl_selected_share_hashes b) = length (bl_selected_share_pks b)) SharePksLength) (\<lambda>_.
     rbind (ensure (\<not> (bl_selected_share_reward_pks b \<noteq> [] \<and>
              length (bl_selected_share_reward_pks b) \<noteq> length (bl_selected_share_hashes b))) RewardPksLength) (\<lambda>_.
     rbind (ensure (unat (bl_kmax_applied b) = length (bl_selected_share_hashes b)) KmaxApplied) (\<lambda>_.
     rbind (ok_or (ext_biguint_parse E (bl_min_share_score b)) (ShapeNumber ''minShareScore'')) (\<lambda>_.
     rbind (ok_or (parse_biguint_hex E (bl_t_block b)) (ShapeNumber ''tBlock'')) (\<lambda>t_block.
     rbind (ok_or (parse_biguint_hex E (bl_t_share b)) (ShapeNumber ''tShare'')) (\<lambda>_.
     rbind (map_err ShapeWeight (difficulty_weight t_block)) (\<lambda>w.
     rbind (ensure (bl_difficulty_weight b = ext_biguint_to_string E w) WeightMismatch) (\<lambda>_.
     try_for_each (validate_bounty_share_shape E) (bl_promoted_bounty_shares b))))))))))))))))"

section \<open>Block hash\<close>

definition promoted_bounty_share_json :: "promoted_bounty_share \<Rightarrow> json" where
  "promoted_bounty_share_json s = JObject
     [(''familyId'', JString (pb_family_id s)), (''bountyId'', JString (pb_bounty_id s)),
      (''proofHash'', JString (pb_proof_hash s)), (''prover'', JString (pb_prover s)),
      (''reward'', JString (pb_reward s))]"

definition JStrings :: "string list \<Rightarrow> json" where
  "JStrings ss = JArray (map JString ss)"

text \<open>The committed fields; \<^const>\<open>canonicalize\<close> sorts them by key.\<close>

definition block_preimage :: "persisted_block \<Rightarrow> json" where
  "block_preimage b = JObject
     [(''height'', JU64 (bl_height b)), (''prevC'', JString (bl_prev_c b)),
      (''selectedShareHashes'', JStrings (bl_selected_share_hashes b)),
      (''selectedSharePks'', JStrings (bl_selected_share_pks b)),
      (''selectedShareRewardPks'', JStrings (bl_selected_share_reward_pks b)),
      (''proposerPk'', JString (bl_proposer_pk b)),
      (''proposerRewardPk'', JString (bl_proposer_reward_pk b)),
      (''promotedBountyShares'', JArray (map promoted_bounty_share_json (bl_promoted_bounty_shares b))),
      (''ts'', JU64 (bl_ts b)), (''tBlock'', JString (bl_t_block b)),
      (''difficultyEpoch'', JU64 (bl_difficulty_epoch b))]"

definition block_hash :: "ext \<Rightarrow> persisted_block \<Rightarrow> u8 list" where
  "block_hash E b = ext_blake3 E (as_bytes ''block.v3'' @ canonicalize E (block_preimage b))"

section \<open>What a valid shape gives\<close>

lemma validate_shape_weight:
  assumes "biguint_laws E" and "validate_shape E b = Ok ()"
  obtains t where "parse_biguint_hex E (bl_t_block b) = Some t" "0 < t"
    and "ext_biguint_parse E (bl_difficulty_weight b) = Some (2 ^ 256 div t)"
proof -
  from assms(2) obtain t w where "parse_biguint_hex E (bl_t_block b) = Some t" "difficulty_weight t = Inr w"
    "bl_difficulty_weight b = ext_biguint_to_string E w"
    unfolding validate_shape_def by (auto simp only: rbind_eq_Inr ok_or_eq_Inr map_err_eq_Inr ensure_eq_Inr)
  with assms(1) show thesis
    by (intro that [of t]) (auto simp: difficulty_weight_eq_Inr biguint_laws_def)
qed

end
