(* ===== verification/Difficulty.thy ===== *)
theory Difficulty
  imports Block
begin

text \<open>
  difficulty.rs: the retarget rule, the difficulty a block must carry, and the median-time-past rule
  on timestamps.
\<close>

section \<open>Retargeting\<close>

record difficulty_evidence =
  de_mode :: string
  de_retarget :: string
  de_difficulty_epoch :: u64
  de_t_block :: string
  de_t_share :: string
  de_difficulty_weight :: string

record difficulty_retarget_policy =
  rp_target_block_ms :: u64
  rp_retarget_every_blocks :: u64
  rp_max_adjustment_factor :: u64

definition retarget_policy_json :: "difficulty_retarget_policy \<Rightarrow> json" where
  "retarget_policy_json p = JObject
     [(''targetBlockMs'', JU64 (rp_target_block_ms p)), (''retargetEveryBlocks'', JU64 (rp_retarget_every_blocks p)),
      (''maxAdjustmentFactor'', JU64 (rp_max_adjustment_factor p))]"

datatype difficulty_error =
    TargetBlockMs
  | RetargetEveryBlocks
  | MaxAdjustmentFactor
  | CurrentTBlock
  | ExpectedSpan
  | MissingPrevious
  | BadTarget
  | BadWeight weight_error
  | EpochMismatch u64
  | TBlockMismatch u64
  | DifficultyWeightMismatch u64
  | TimestampNotAboveMedian nat

definition policy_validate :: "difficulty_retarget_policy \<Rightarrow> difficulty_error + unit" where
  "policy_validate p =
     (if rp_target_block_ms p = 0 then Err TargetBlockMs
      else if rp_retarget_every_blocks p < 2 then Err RetargetEveryBlocks
      else if rp_max_adjustment_factor p < 1 then Err MaxAdjustmentFactor
      else Ok ())"

text \<open>\<open>Ord::clamp\<close>; the lower bound never exceeds the upper one here.\<close>

definition clamp :: "'a::linorder \<Rightarrow> 'a \<Rightarrow> 'a \<Rightarrow> 'a" where
  "clamp x lo hi = (if x < lo then lo else if x > hi then hi else x)"

definition retarget_t_block ::
    "nat \<Rightarrow> u64 \<Rightarrow> u64 \<Rightarrow> difficulty_retarget_policy \<Rightarrow> difficulty_error + nat" where
  "retarget_t_block current_t_block actual_span_ms expected_span_ms policy =
     rbind (policy_validate policy) (\<lambda>_.
     if current_t_block = 0 then Err CurrentTBlock
     else if expected_span_ms = 0 then Err ExpectedSpan
     else
       let factor = rp_max_adjustment_factor policy;
           min_actual = max (expected_span_ms div factor) 1;
           max_actual = saturating_mul expected_span_ms factor;
           clamped_actual = clamp actual_span_ms min_actual max_actual;
           numerator = current_t_block * unat clamped_actual;
           next = numerator div unat expected_span_ms;
           next = (if next = 0 then 1 else next);
           max_target = 2 ^ 256 - 1
       in Ok (if next > max_target then max_target else next))"

definition find_difficulty_evidence :: "ext \<Rightarrow> string \<Rightarrow> u64 \<Rightarrow> bool \<Rightarrow> difficulty_error + difficulty_evidence" where
  "find_difficulty_evidence E t_block difficulty_epoch retarget_enabled =
     rbind (ok_or (parse_biguint_hex E t_block) BadTarget) (\<lambda>target.
     rbind (map_err BadWeight (difficulty_weight target)) (\<lambda>w.
     Ok \<lparr>de_mode = (if retarget_enabled then ''epoch-retarget-v0'' else ''static-calibrated''),
         de_retarget = (if retarget_enabled then ''enabled'' else ''not-enabled''),
         de_difficulty_epoch = difficulty_epoch,
         de_t_block = ''0x'' @ ext_biguint_fmt_064x E target,
         de_t_share = [],
         de_difficulty_weight = ext_biguint_to_string E w\<rparr>))"

text \<open>
  The window is the last \<open>retarget_every_blocks\<close> blocks, of which there are that many whenever it
  is read; \<open>height\<close> is the number of blocks, far below 2^64.
\<close>

definition expected_retarget_difficulty_for_height ::
    "ext \<Rightarrow> persisted_block list \<Rightarrow> string \<Rightarrow> difficulty_retarget_policy \<Rightarrow> difficulty_error + difficulty_evidence" where
  "expected_retarget_difficulty_for_height E existing_blocks initial_t_block policy =
     rbind (policy_validate policy) (\<lambda>_.
     let height = (of_nat (length existing_blocks) :: u64);
         every = rp_retarget_every_blocks policy in
     if height = 0 then find_difficulty_evidence E initial_t_block 0 False
     else if height < every \<or> height mod every \<noteq> 0 then
       (if existing_blocks = [] then Err MissingPrevious
        else let previous = last existing_blocks in
          find_difficulty_evidence E (bl_t_block previous) (bl_difficulty_epoch previous) True)
     else
       let start = length existing_blocks - unat every;
           window = drop start existing_blocks in
       if window = [] then Err MissingPrevious
       else
         let first = hd window; last = last window in
         rbind (ok_or (parse_biguint_hex E (bl_t_block last)) BadTarget) (\<lambda>current.
         let actual_span_ms = max (saturating_sub (bl_ts last) (bl_ts first)) 1;
             expected_span_ms = max (saturating_mul (rp_target_block_ms policy) (saturating_sub every 1)) 1 in
         rbind (retarget_t_block current actual_span_ms expected_span_ms policy) (\<lambda>next.
         find_difficulty_evidence E (''0x'' @ ext_biguint_fmt_064x E next) (height div every) True)))"

definition validate_retarget_step ::
    "ext \<Rightarrow> string \<Rightarrow> difficulty_retarget_policy \<Rightarrow> persisted_block list \<Rightarrow> persisted_block \<Rightarrow>
     difficulty_error + persisted_block list" where
  "validate_retarget_step E initial_t_block policy previous block =
     rbind (expected_retarget_difficulty_for_height E previous initial_t_block policy) (\<lambda>expected.
     if bl_difficulty_epoch block \<noteq> de_difficulty_epoch expected then Err (EpochMismatch (bl_height block))
     else if bl_t_block block \<noteq> de_t_block expected then Err (TBlockMismatch (bl_height block))
     else if bl_difficulty_weight block \<noteq> de_difficulty_weight expected
     then Err (DifficultyWeightMismatch (bl_height block))
     else Ok (previous @ [block]))"

definition validate_retargeted_difficulty ::
    "ext \<Rightarrow> persisted_block list \<Rightarrow> string \<Rightarrow> difficulty_retarget_policy \<Rightarrow> difficulty_error + unit" where
  "validate_retargeted_difficulty E blocks initial_t_block policy =
     rbind (try_fold (validate_retarget_step E initial_t_block policy) [] blocks) (\<lambda>_. Ok ())"

section \<open>Timestamps\<close>

definition MEDIAN_TIME_PAST_WINDOW :: nat where
  "MEDIAN_TIME_PAST_WINDOW = 11"

definition verify_block_ts_median_time_past :: "persisted_block list \<Rightarrow> difficulty_error + unit" where
  "verify_block_ts_median_time_past blocks =
     try_for_each (\<lambda>index.
       let start = index - MEDIAN_TIME_PAST_WINDOW;
           window = sort (map bl_ts (drop start (take index blocks)));
           median = window ! (length window div 2)
       in ensure (\<not> bl_ts (blocks ! index) \<le> median) (TimestampNotAboveMedian index))
     [1..<length blocks]"

end
