(* ===== verification/Difficulty_Theorems.thy ===== *)
theory Difficulty_Theorems
  imports Difficulty
begin

text \<open>
  The retarget rule keeps targets in range and moves them by a bounded factor; the median-time-past
  rule in terms of the preceding timestamps; the epochs of a chain with valid difficulty.
\<close>

section \<open>Retargeting\<close>

lemma policy_validate_Inr [result_simps]:
  "policy_validate p = Inr u \<longleftrightarrow>
     0 < unat (rp_target_block_ms p) \<and> 2 \<le> unat (rp_retarget_every_blocks p) \<and> 1 \<le> unat (rp_max_adjustment_factor p)"
  by (auto simp: policy_validate_def word_less_nat_alt unat_eq_0 Suc_le_eq unat_gt_0 split: if_split_asm)

lemma clamp_bounds: "lo \<le> hi \<Longrightarrow> lo \<le> clamp x lo hi \<and> clamp x lo hi \<le> hi"
  by (auto simp: clamp_def)

lemma clamp_id: "lo \<le> x \<Longrightarrow> x \<le> hi \<Longrightarrow> clamp x lo hi = x"
  by (auto simp: clamp_def)

lemma unat_max: "unat (max x (y :: 'a::len word)) = max (unat x) (unat y)"
  by (auto simp: max_def word_le_nat_alt)

definition clamped_span :: "u64 \<Rightarrow> u64 \<Rightarrow> u64 \<Rightarrow> nat" where
  "clamped_span actual expected factor =
     unat (clamp actual (max (expected div factor) 1) (saturating_mul expected factor))"

lemma retarget_Inr:
  "retarget_t_block cur actual expected p = Inr n \<longleftrightarrow>
     policy_validate p = Inr () \<and> 0 < cur \<and> 0 < unat expected \<and>
     n = min (max (cur * clamped_span actual expected (rp_max_adjustment_factor p) div unat expected) 1) (2 ^ 256 - 1)"
  by (auto simp: retarget_t_block_def rbind_eq_Inr clamped_span_def Let_def unat_gt_0 min_def max_def
      split: if_split_asm)

lemma span_facts:
  assumes "1 \<le> unat (factor :: u64)" "0 < unat (expected :: u64)"
  shows "unat expected div unat factor \<le> unat expected" "unat expected \<le> unat expected * unat factor"
    "unat expected \<le> 2 ^ 64 - 1" "unat expected div unat factor \<le> unat expected * unat factor"
    "unat expected div unat factor \<le> 2 ^ 64 - 1"
proof -
  show a: "unat expected div unat factor \<le> unat expected" by simp
  show b: "unat expected \<le> unat expected * unat factor" using assms by simp
  show c: "unat expected \<le> 2 ^ 64 - 1" using unat_u64_less [of expected] by simp
  show "unat expected div unat factor \<le> unat expected * unat factor" using a b by (rule order_trans)
  show "unat expected div unat factor \<le> 2 ^ 64 - 1" using a c by (rule order_trans)
qed

lemma clamped_span_bounds:
  assumes "1 \<le> unat factor" "0 < unat expected"
  shows "max (unat expected div unat factor) 1 \<le> clamped_span actual expected factor"
    and "clamped_span actual expected factor \<le> unat expected * unat factor"
proof -
  let ?lo = "max (expected div factor) 1" and ?hi = "saturating_mul expected factor"
  have lo: "unat ?lo = max (unat expected div unat factor) 1" by (simp add: unat_max unat_div)
  have hi: "unat ?hi = min (unat expected * unat factor) (2 ^ 64 - 1)" by (simp add: unat_saturating_mul)
  note span_facts [OF assms]
  then have "?lo \<le> ?hi" using assms by (simp add: word_le_nat_alt lo hi)
  from clamp_bounds [OF this, of actual]
  show "max (unat expected div unat factor) 1 \<le> clamped_span actual expected factor"
    and "clamped_span actual expected factor \<le> unat expected * unat factor"
    unfolding clamped_span_def word_le_nat_alt lo hi by simp_all
qed

lemma clamped_span_id:
  assumes "1 \<le> unat factor" "0 < unat expected"
  shows "clamped_span expected expected factor = unat expected"
proof -
  from span_facts [OF assms] show ?thesis
    using assms unfolding clamped_span_def
    by (subst clamp_id) (auto simp: word_le_nat_alt unat_max unat_div unat_saturating_mul)
qed

lemma span_lower:
  fixes e f s cur :: nat
  assumes "1 \<le> f" "0 < e" "max (e div f) 1 \<le> s"
  shows "cur div (2 * f) \<le> cur * s div e"
proof -
  have "e \<le> 2 * f * s"
  proof (cases "e < f")
    case True
    then have "e \<le> 2 * f * 1" by simp
    also have "\<dots> \<le> 2 * f * s" using assms by (intro mult_left_mono) auto
    finally show ?thesis .
  next
    case False
    have "e < f + f * (e div f)" using assms(1) by (metis dividend_less_div_times mult.commute One_nat_def less_le_trans zero_less_one)
    moreover have "f \<le> f * (e div f)" using False assms(1) by (simp add: Suc_le_eq div_greater_zero_iff)
    ultimately have "e \<le> 2 * f * (e div f)" by linarith
    also have "\<dots> \<le> 2 * f * s" using assms(3) by (intro mult_left_mono) auto
    finally show ?thesis .
  qed
  then have "cur div (2 * f) * e \<le> cur div (2 * f) * (2 * f) * s"
    by (metis mult.assoc mult_le_mono2)
  also have "\<dots> \<le> cur * s" by (intro mult_right_mono) simp_all
  finally show ?thesis using assms(2) by (simp add: less_eq_div_iff_mult_less_eq)
qed

lemma retarget_range:
  assumes "retarget_t_block cur actual expected p = Ok n" and "cur < 2 ^ 256"
  defines "f \<equiv> unat (rp_max_adjustment_factor p)"
  shows "1 \<le> n \<and> n < 2 ^ 256 \<and> n \<le> cur * f \<and> cur div (2 * f) \<le> n \<and> (actual = expected \<longrightarrow> n = cur)"
proof -
  let ?s = "clamped_span actual expected (rp_max_adjustment_factor p)" and ?e = "unat expected"
  from assms(1) have f: "1 \<le> f" and cur: "0 < cur" and e: "0 < ?e"
    and n: "n = min (max (cur * ?s div ?e) 1) (2 ^ 256 - 1)"
    by (auto simp: retarget_Inr policy_validate_Inr f_def)
  note s = clamped_span_bounds [OF f [unfolded f_def] e, of actual, folded f_def]
  have "cur * ?s div ?e \<le> cur * (?e * f) div ?e" using s(2) by (intro div_le_mono mult_left_mono) simp_all
  then have up: "cur * ?s div ?e \<le> cur * f" using e by simp
  have "1 \<le> cur * f" using cur f by (simp add: Suc_le_eq)
  with up have "n \<le> cur * f" unfolding n by (simp add: min_le_iff_disj)
  moreover have "cur div (2 * f) \<le> cur * ?s div ?e" using f e s(1) by (rule span_lower)
  moreover have "cur div (2 * f) \<le> cur" by simp
  ultimately have "n \<le> cur * f" "cur div (2 * f) \<le> n" using assms(2) unfolding n by linarith+
  moreover have "n = cur" if "actual = expected"
    unfolding n using clamped_span_id [OF f [unfolded f_def] e] that cur e assms(2) by simp
  moreover have "1 \<le> n" "n < 2 ^ 256" unfolding n by simp_all
  ultimately show ?thesis by blast
qed

lemma clamped_span_inside:
  assumes "1 \<le> unat factor" "0 < unat expected" "0 < unat actual"
    and "unat expected div unat factor \<le> unat actual" "unat actual \<le> unat expected * unat factor"
  shows "clamped_span actual expected factor = unat actual"
proof -
  have lo: "unat (max (expected div factor) 1) = max (unat expected div unat factor) 1" by (simp add: unat_max unat_div)
  have hi: "unat (saturating_mul expected factor) = min (unat expected * unat factor) (2 ^ 64 - 1)" by (simp add: unat_saturating_mul)
  have "unat actual \<le> 2 ^ 64 - 1" using unat_u64_less [of actual] by simp
  with assms have "\<not> actual < max (expected div factor) 1" "\<not> saturating_mul expected factor < actual"
    unfolding word_less_nat_alt lo hi by simp_all
  then show ?thesis by (simp add: clamped_span_def clamp_def)
qed



section \<open>Timestamps\<close>

lemma sorted_nth_less_iff:
  assumes "sorted xs" "k < length xs"
  shows "xs ! k < (t :: 'a::linorder) \<longleftrightarrow> k < length (filter (\<lambda>x. x < t) xs)"
  using assms
proof (induction xs arbitrary: k)
  case (Cons x xs)
  show ?case
  proof (cases "x < t")
    case True
    with Cons show ?thesis by (cases k) auto
  next
    case False
    with Cons.prems have "filter (\<lambda>x. x < t) (x # xs) = []" by (auto simp: filter_empty_conv)
    moreover have "\<not> (x # xs) ! k < t"
      using Cons.prems False nth_mem [of k "x # xs"] by auto
    ultimately show ?thesis by simp
  qed
qed simp

lemma median_less_iff:
  assumes "xs \<noteq> []"
  shows "sort xs ! (length xs div 2) < (t :: 'a::linorder) \<longleftrightarrow> length xs div 2 < length (filter (\<lambda>x. x < t) xs)"
proof -
  have "length (filter (\<lambda>x. x < t) (sort xs)) = length (filter (\<lambda>x. x < t) xs)"
    by (simp add: filter_sort)
  moreover have "length xs div 2 < length xs" using assms by simp
  ultimately show ?thesis using sorted_nth_less_iff [of "sort xs" "length xs div 2" t] by simp
qed

text \<open>C32. The median-time-past rule accepts a chain exactly when every block after the first is later than
  more than half of the at most eleven blocks before it.\<close>

theorem median_time_past_exact:
  "verify_block_ts_median_time_past blocks = Ok () \<longleftrightarrow>
     (\<forall>i \<in> {1..<length blocks}. let window = map bl_ts (drop (i - 11) (take i blocks)) in
        length window div 2 < length (filter (\<lambda>ts. ts < bl_ts (blocks ! i)) window))"
proof -
  have "\<not> bl_ts (blocks ! i) \<le> sort w ! (length (sort w) div 2) \<longleftrightarrow>
      length w div 2 < length (filter (\<lambda>ts. ts < bl_ts (blocks ! i)) w)"
    if "i \<in> {1..<length blocks}" and "w = map bl_ts (drop (i - 11) (take i blocks))" for i w
    using that median_less_iff [of w "bl_ts (blocks ! i)"] by (auto simp: not_le)
  then show ?thesis
    unfolding verify_block_ts_median_time_past_def MEDIAN_TIME_PAST_WINDOW_def Let_def
    by (simp add: try_for_each_eq_Inr ensure_eq_Inr)
qed

definition ex_block :: "u64 \<Rightarrow> persisted_block" where
  "ex_block ts = \<lparr>bl_height = 0, bl_prev_c = [], bl_c = [], bl_proposer_pk = [], bl_selected_share_hashes = [],
     bl_selected_share_pks = [], bl_selected_share_reward_pks = [], bl_proposer_reward_pk = [],
     bl_selected_share_evidence = [], bl_min_share_score = [], bl_min_share_score_multiplier_nanos = 0,
     bl_kmax_applied = 0, bl_difficulty_epoch = 0, bl_t_block = [], bl_t_share = [], bl_difficulty_weight = [],
     bl_dropped_below_min_score = 0, bl_dropped_kernel_reject = 0, bl_truncated_by_kmax = 0, bl_ts = ts,
     bl_promoted_bounty_shares = []\<rparr>"

theorem median_time_past_exact_witness:
  "verify_block_ts_median_time_past (map ex_block [5, 9, 12, 10]) = Ok () \<and>
   verify_block_ts_median_time_past (map ex_block [5, 9, 12, 9]) \<noteq> Ok ()"
proof -
  have [simp]: "bl_ts (ex_block t) = t" for t by (simp add: ex_block_def)
  have "{1..<length (map ex_block [a, b, c, d])} = {1, 2, 3}" for a b c d by auto
  then show ?thesis
    unfolding median_time_past_exact by (simp add: Let_def)
qed

section \<open>Epochs\<close>

lemma find_difficulty_evidence_Inr:
  assumes "find_difficulty_evidence E t epoch enabled = Inr d"
  obtains target where "parse_biguint_hex E t = Some target" "0 < target"
    "d = \<lparr>de_mode = (if enabled then ''epoch-retarget-v0'' else ''static-calibrated''),
       de_retarget = (if enabled then ''enabled'' else ''not-enabled''), de_difficulty_epoch = epoch,
       de_t_block = ''0x'' @ ext_biguint_fmt_064x E target, de_t_share = [],
       de_difficulty_weight = ext_biguint_to_string E (2 ^ 256 div target)\<rparr>"
  using assms
  by (auto simp: find_difficulty_evidence_def rbind_eq_Inr ok_or_eq_Inr map_err_eq_Inr difficulty_weight_eq_Inr)

lemma expected_epoch:
  assumes "expected_retarget_difficulty_for_height E bs t0 p = Inr d" and "length bs < 2 ^ 64"
    and "bs \<noteq> [] \<Longrightarrow> bl_difficulty_epoch (last bs) = of_nat ((length bs - 1) div unat (rp_retarget_every_blocks p))"
  shows "de_difficulty_epoch d = of_nat (length bs div unat (rp_retarget_every_blocks p))"
proof -
  let ?h = "of_nat (length bs) :: u64" and ?k = "rp_retarget_every_blocks p"
  have h: "unat ?h = length bs" using assms(2) by (simp add: unsigned_of_nat take_bit_nat_eq_self)
  from assms(1) have k: "2 \<le> unat ?k"
    by (auto simp: expected_retarget_difficulty_for_height_def rbind_eq_Inr policy_validate_Inr)
  consider "bs = []" | "bs \<noteq> []" "?h < ?k \<or> ?h mod ?k \<noteq> 0" | "bs \<noteq> []" "\<not> (?h < ?k \<or> ?h mod ?k \<noteq> 0)"
    by argo
  then show ?thesis
  proof cases
    case 1
    with assms(1) show ?thesis
      by (auto simp: expected_retarget_difficulty_for_height_def rbind_eq_Inr elim: find_difficulty_evidence_Inr)
  next
    case 2
    then have "?h \<noteq> 0" using h by (metis length_0_conv unat_0)
    with 2 assms(1) have "de_difficulty_epoch d = bl_difficulty_epoch (last bs)"
      by (auto simp: expected_retarget_difficulty_for_height_def rbind_eq_Inr Let_def elim!: find_difficulty_evidence_Inr)
    moreover have "(length bs - 1) div unat ?k = length bs div unat ?k"
    proof -
      have "unat (?h mod ?k) = length bs mod unat ?k" by (simp add: unat_mod h)
      then have "?h mod ?k \<noteq> 0 \<longleftrightarrow> length bs mod unat ?k \<noteq> 0" by (metis unat_eq_0)
      with 2 have "length bs mod unat ?k \<noteq> 0" by (auto simp: word_less_nat_alt h)
      moreover obtain m where "length bs = Suc m" using 2(1) by (cases bs) auto
      ultimately show ?thesis by (simp add: div_Suc)
    qed
    ultimately show ?thesis using assms(3) [OF 2(1)] by simp
  next
    case 3
    then have "?h \<noteq> 0" using h by (metis length_0_conv unat_0)
    with 3 assms(1) have "de_difficulty_epoch d = ?h div ?k"
      by (auto simp: expected_retarget_difficulty_for_height_def rbind_eq_Inr Let_def split: if_split_asm
          elim!: find_difficulty_evidence_Inr)
    then show ?thesis by (simp add: word_arith_nat_div h)
  qed
qed

lemma validate_retarget_step_Inr:
  "validate_retarget_step E t0 p bs b = Inr r \<longleftrightarrow> r = bs @ [b] \<and>
    (\<exists>d. expected_retarget_difficulty_for_height E bs t0 p = Inr d \<and>
       bl_difficulty_epoch b = de_difficulty_epoch d \<and> bl_t_block b = de_t_block d \<and>
       bl_difficulty_weight b = de_difficulty_weight d)"
  by (auto simp: validate_retarget_step_def rbind_eq_Inr)

lemma validate_fold: "try_fold (validate_retarget_step E t0 p) q bs = Inr r \<Longrightarrow> r = q @ bs"
  by (induction bs arbitrary: q) (fastforce simp: validate_retarget_step_Inr split: sum.splits)+

lemma validate_prefix:
  assumes "try_fold (validate_retarget_step E t0 p) [] (bs @ [b]) = Inr r"
  shows "try_fold (validate_retarget_step E t0 p) [] bs = Inr bs \<and>
    (\<exists>d. expected_retarget_difficulty_for_height E bs t0 p = Inr d \<and>
       bl_difficulty_epoch b = de_difficulty_epoch d \<and> bl_t_block b = de_t_block d \<and>
       bl_difficulty_weight b = de_difficulty_weight d)"
proof -
  from assms obtain q where q: "try_fold (validate_retarget_step E t0 p) [] bs = Inr q"
    and "validate_retarget_step E t0 p q b = Inr r"
    by (auto simp: try_fold_snoc rbind_eq_Inr)
  moreover have "q = bs" using validate_fold [OF q] by simp
  ultimately show ?thesis by (auto simp: validate_retarget_step_Inr)
qed

lemma expected_target:
  assumes "expected_retarget_difficulty_for_height E bs t0 p = Inr d"
  obtains t where "0 < t" "de_t_block d = ''0x'' @ ext_biguint_fmt_064x E t"
    "de_difficulty_weight d = ext_biguint_to_string E (2 ^ 256 div t)"
  using assms
  by (auto simp: expected_retarget_difficulty_for_height_def rbind_eq_Inr Let_def split: if_split_asm
      elim!: find_difficulty_evidence_Inr)

lemma expected_between:
  assumes "expected_retarget_difficulty_for_height E bs t0 p = Inr d" and "length bs < 2 ^ 64" and "biguint_laws E"
    and "bs \<noteq> []" and "length bs mod unat (rp_retarget_every_blocks p) \<noteq> 0"
    and "bl_t_block (last bs) = ''0x'' @ ext_biguint_fmt_064x E t"
  shows "de_t_block d = bl_t_block (last bs)"
proof -
  let ?h = "of_nat (length bs) :: u64" and ?k = "rp_retarget_every_blocks p"
  have h: "unat ?h = length bs" using assms(2) by (simp add: unsigned_of_nat take_bit_nat_eq_self)
  then have "unat (?h mod ?k) = length bs mod unat ?k" by (simp add: unat_mod)
  with assms(5) have "?h mod ?k \<noteq> 0" by (metis unat_0)
  moreover from this have "?h \<noteq> 0" by auto
  ultimately have "find_difficulty_evidence E (bl_t_block (last bs)) (bl_difficulty_epoch (last bs)) True = Inr d"
    using assms(1,4) by (auto simp: expected_retarget_difficulty_for_height_def rbind_eq_Inr Let_def)
  then show ?thesis
    using assms(3,6) by (elim find_difficulty_evidence_Inr) (simp add: parse_biguint_hex_def strip_0x_def biguint_laws_def)
qed

definition carries :: "ext \<Rightarrow> difficulty_retarget_policy \<Rightarrow> persisted_block list \<Rightarrow> nat \<Rightarrow> bool" where
  "carries E policy blocks i \<longleftrightarrow>
    bl_difficulty_epoch (blocks ! i) = of_nat (i div unat (rp_retarget_every_blocks policy)) \<and>
    (\<exists>t > 0. bl_t_block (blocks ! i) = ''0x'' @ ext_biguint_fmt_064x E t \<and>
       bl_difficulty_weight (blocks ! i) = ext_biguint_to_string E (2 ^ 256 div t)) \<and>
    (0 < i \<and> i mod unat (rp_retarget_every_blocks policy) \<noteq> 0 \<longrightarrow> bl_t_block (blocks ! i) = bl_t_block (blocks ! (i - 1)))"

lemma validate_carries:
  assumes "try_fold (validate_retarget_step E t0 p) [] blocks = Inr r" "length blocks < 2 ^ 64" "biguint_laws E"
    "i < length blocks"
  shows "carries E p blocks i"
  using assms
proof (induction blocks arbitrary: r i rule: rev_induct)
  case (snoc b bs)
  from validate_prefix [OF snoc.prems(1)] obtain d where fold: "try_fold (validate_retarget_step E t0 p) [] bs = Inr bs"
    and d: "expected_retarget_difficulty_for_height E bs t0 p = Inr d" "bl_difficulty_epoch b = de_difficulty_epoch d"
      "bl_t_block b = de_t_block d" "bl_difficulty_weight b = de_difficulty_weight d" by blast
  have len: "length bs < 2 ^ 64" using snoc.prems(2) by simp
  have IH: "carries E p bs j" if "j < length bs" for j using snoc.IH [OF fold len snoc.prems(3) that] .
  show ?case
  proof (cases "i < length bs")
    case True
    with IH [OF True] show ?thesis by (simp add: carries_def nth_append)
  next
    case False
    then have i: "i = length bs" using snoc.prems(4) by simp
    have last: "bs \<noteq> [] \<Longrightarrow> carries E p bs (length bs - 1)" using IH by simp
    then have "bs \<noteq> [] \<Longrightarrow> bl_difficulty_epoch (last bs) = of_nat ((length bs - 1) div unat (rp_retarget_every_blocks p))"
      by (simp add: carries_def last_conv_nth)
    note epoch = expected_epoch [OF d(1) len this]
    have "bl_t_block b = bl_t_block (last bs)" if "bs \<noteq> []" "length bs mod unat (rp_retarget_every_blocks p) \<noteq> 0"
      using expected_between [OF d(1) len snoc.prems(3) that] last [OF that(1)] that(1) d(3)
      by (auto simp: carries_def last_conv_nth)
    moreover obtain t where "0 < t" "de_t_block d = ''0x'' @ ext_biguint_fmt_064x E t"
      "de_difficulty_weight d = ext_biguint_to_string E (2 ^ 256 div t)" using expected_target [OF d(1)] .
    ultimately show ?thesis
      using epoch d(2,3,4) by (auto simp: carries_def i nth_append last_conv_nth)
  qed
qed simp

text \<open>C33. In a chain whose difficulty fields validate, the block at index i carries the epoch i divided by
  the retarget interval, a positive canonical target and the weight of that target; and the target
  changes from one block to the next only at a multiple of the interval.\<close>

theorem valid_difficulty_epochs:
  assumes "validate_retargeted_difficulty E blocks initial_t_block policy = Ok ()"
    and "length blocks < 2 ^ 64" and "i < length blocks" and "biguint_laws E"
  shows "bl_difficulty_epoch (blocks ! i) = of_nat (i div unat (rp_retarget_every_blocks policy)) \<and>
    (\<exists>t > 0. bl_t_block (blocks ! i) = ''0x'' @ ext_biguint_fmt_064x E t \<and>
       bl_difficulty_weight (blocks ! i) = ext_biguint_to_string E (2 ^ 256 div t)) \<and>
    (0 < i \<and> i mod unat (rp_retarget_every_blocks policy) \<noteq> 0 \<longrightarrow> bl_t_block (blocks ! i) = bl_t_block (blocks ! (i - 1)))"
  using validate_carries [of E initial_t_block policy blocks _ i] assms
  by (auto simp: validate_retargeted_difficulty_def rbind_eq_Inr carries_def)

definition ex_retarget_policy :: difficulty_retarget_policy where
  "ex_retarget_policy = \<lparr>rp_target_block_ms = 60000, rp_retarget_every_blocks = 2, rp_max_adjustment_factor = 4\<rparr>"

definition ex_target_text :: string where
  "ex_target_text = ''0x'' @ ext_biguint_fmt_064x ref_ext 16"

definition ex_difficulty_block :: persisted_block where
  "ex_difficulty_block = (ex_block 7)\<lparr>bl_t_block := ex_target_text,
     bl_difficulty_weight := ext_biguint_to_string ref_ext (2 ^ 256 div 16)\<rparr>"

lemma ex_difficulty_valid:
  "validate_retargeted_difficulty ref_ext [ex_difficulty_block, ex_difficulty_block] ex_target_text ex_retarget_policy = Ok ()"
proof -
  have "parse_biguint_hex ref_ext ex_target_text = Some 16"
    using biguint_laws_ref_ext by (simp add: parse_biguint_hex_def ex_target_text_def strip_0x_def biguint_laws_def)
  then have e: "find_difficulty_evidence ref_ext ex_target_text 0 b = Ok
      \<lparr>de_mode = (if b then ''epoch-retarget-v0'' else ''static-calibrated''),
       de_retarget = (if b then ''enabled'' else ''not-enabled''), de_difficulty_epoch = 0,
       de_t_block = ex_target_text, de_t_share = [], de_difficulty_weight = ext_biguint_to_string ref_ext (2 ^ 256 div 16)\<rparr>" for b
    by (simp add: find_difficulty_evidence_def difficulty_weight_def ex_target_text_def)
  have "bl_difficulty_epoch ex_difficulty_block = 0" "bl_t_block ex_difficulty_block = ex_target_text"
    "bl_difficulty_weight ex_difficulty_block = ext_biguint_to_string ref_ext (2 ^ 256 div 16)"
    by (simp_all add: ex_difficulty_block_def ex_block_def)
  then show ?thesis
    by (simp add: validate_retargeted_difficulty_def validate_retarget_step_def e
        expected_retarget_difficulty_for_height_def ex_retarget_policy_def policy_validate_def Let_def)
qed

theorem valid_difficulty_epochs_witness:
  "bl_difficulty_epoch ([ex_difficulty_block, ex_difficulty_block] ! 1) = 0"
  using valid_difficulty_epochs [OF ex_difficulty_valid _ _ biguint_laws_ref_ext, of 1]
  by (simp add: ex_retarget_policy_def)

end
