(* ===== verification/Native_Chain.thy ===== *)
theory Native_Chain
  imports Native_Ledger Difficulty
begin

text \<open>
  native_network.rs and native_chain.rs: the compiled test network, native blocks with their hash,
  authorization and mining, and the chain with its bounded undo cache. \<open>serde_json\<close> writes a struct's
  fields in declaration order, and \<open>to_value\<close> collects them into a sorted map; \<open>ChainPanic\<close> stands
  for a failed \<open>expect\<close> or an out-of-range index.
\<close>

section \<open>Network\<close>

record native_network =
  nn_schema :: string
  nn_rule_version :: u32
  nn_network_id :: string
  nn_symbol :: string
  nn_decimals :: u8
  nn_total_supply :: u128
  nn_initial_reward :: u128
  nn_halving_epoch :: u64
  nn_minimum_fee :: u128
  nn_reward_maturity :: u64
  nn_initial_target :: string
  nn_retarget :: difficulty_retarget_policy
  nn_median_time_past_window :: nat
  nn_max_transfers_per_block :: nat
  nn_max_transfer_bytes :: nat
  nn_max_block_bytes :: nat
  nn_useful_work_rewards :: bool
  nn_reward_allocation :: string
  nn_fee_allocation :: string
  nn_genesis_issuance :: u128

definition NATIVE_TESTNET_NETWORK_ID :: string where
  "NATIVE_TESTNET_NETWORK_ID = ''boole-native-testnet-1''"

definition NATIVE_COIN_UNIT :: u128 where
  "NATIVE_COIN_UNIT = 100000000"

definition native_testnet :: native_network where
  "native_testnet = \<lparr>
     nn_schema = ''boole.native.genesis.v1'',
     nn_rule_version = 1,
     nn_network_id = NATIVE_TESTNET_NETWORK_ID,
     nn_symbol = ''tBOOLE'',
     nn_decimals = 8,
     nn_total_supply = 1000000000 * NATIVE_COIN_UNIT,
     nn_initial_reward = 50000 * NATIVE_COIN_UNIT,
     nn_halving_epoch = 10000,
     nn_minimum_fee = 1000,
     nn_reward_maturity = 10,
     nn_initial_target = ''0000'' @ replicate 60 (CHR ''f''),
     nn_retarget = \<lparr>rp_target_block_ms = 60000, rp_retarget_every_blocks = 2, rp_max_adjustment_factor = 4\<rparr>,
     nn_median_time_past_window = MEDIAN_TIME_PAST_WINDOW,
     nn_max_transfers_per_block = 512,
     nn_max_transfer_bytes = 4096,
     nn_max_block_bytes = 524288,
     nn_useful_work_rewards = False,
     nn_reward_allocation = ''producer-only'',
     nn_fee_allocation = ''producer-no-burn'',
     nn_genesis_issuance = 0\<rparr>"

definition serialize_amount :: "u128 \<Rightarrow> json" where
  "serialize_amount amount = JString (word_to_string amount)"

definition native_network_json :: "native_network \<Rightarrow> json" where
  "native_network_json n = JObject
     [(''schema'', JString (nn_schema n)), (''ruleVersion'', JU64 (ucast (nn_rule_version n))),
      (''networkId'', JString (nn_network_id n)), (''symbol'', JString (nn_symbol n)),
      (''decimals'', JU64 (ucast (nn_decimals n))), (''totalSupply'', serialize_amount (nn_total_supply n)),
      (''initialReward'', serialize_amount (nn_initial_reward n)), (''halvingEpoch'', JU64 (nn_halving_epoch n)),
      (''minimumFee'', serialize_amount (nn_minimum_fee n)), (''rewardMaturity'', JU64 (nn_reward_maturity n)),
      (''initialTarget'', JString (nn_initial_target n)), (''retarget'', retarget_policy_json (nn_retarget n)),
      (''medianTimePastWindow'', JU64 (of_nat (nn_median_time_past_window n))),
      (''maxTransfersPerBlock'', JU64 (of_nat (nn_max_transfers_per_block n))),
      (''maxTransferBytes'', JU64 (of_nat (nn_max_transfer_bytes n))),
      (''maxBlockBytes'', JU64 (of_nat (nn_max_block_bytes n))),
      (''usefulWorkRewards'', JBool (nn_useful_work_rewards n)),
      (''rewardAllocation'', JString (nn_reward_allocation n)), (''feeAllocation'', JString (nn_fee_allocation n)),
      (''genesisIssuance'', serialize_amount (nn_genesis_issuance n))]"

definition genesis_hash :: "ext \<Rightarrow> native_network \<Rightarrow> u8 list" where
  "genesis_hash E n =
     ext_blake3 E (as_bytes ''boole.native.genesis.v1'' @ [0] @ canonicalize E (native_network_json n))"

definition network_ledger :: "native_network \<Rightarrow> native_ledger_error + native_ledger" where
  "network_ledger n =
     rbind (emission_schedule_new (nn_total_supply n) (nn_initial_reward n) (nn_halving_epoch n)) (\<lambda>schedule.
     new_with_rules (nn_network_id n) schedule (nn_minimum_fee n) (nn_reward_maturity n))"

section \<open>Transfers\<close>

datatype native_chain_error =
    EnvelopeSchema
  | NetworkRequired
  | PayloadDecode
  | TransferTooLarge
  | TooManyTransfers
  | LedgerErr native_ledger_error
  | EnvelopeErr envelope_error
  | HexErr hex_error
  | WeightErr weight_error
  | DifficultyErr difficulty_error
  | NonceParse
  | NoncanonicalNonce
  | AuthorizationMismatch
  | InvalidProducerSignature
  | ForkAboveHead
  | ForkNeedsReplay
  | UndoHeadMismatch
  | RetargetOverflow
  | TimestampOverflow
  | TimestampBelowMedian
  | HeightOverflow
  | BlockTooLarge
  | ForeignBlock
  | NotExtendingHead
  | UnexpectedTarget
  | InsufficientWork
  | TransfersRootMismatch
  | StalePrepared
  | ChainPanic

definition BLOCK_SCHEMA :: string where "BLOCK_SCHEMA = ''boole.native.block.v1''"
definition BLOCK_AUTH_SCHEMA :: string where "BLOCK_AUTH_SCHEMA = ''boole.native.block.authorization.v1''"
definition NATIVE_RECENT_FORK_BLOCKS :: nat where "NATIVE_RECENT_FORK_BLOCKS = 256"

record native_transfer =
  nt_schema :: string
  nt_payload :: native_transfer_payload
  nt_pk :: string
  nt_signature :: string
  nt_network_id :: string

definition transfer_payload_json :: "native_transfer_payload \<Rightarrow> json" where
  "transfer_payload_json p = JObject
     [(''schema'', JString (tp_schema p)), (''from'', JString (tp_from p)), (''to'', JString (tp_to p)),
      (''amount'', JString (tp_amount p)), (''fee'', JString (tp_fee p)), (''nonce'', JString (tp_nonce p)),
      (''validBefore'', JString (tp_valid_before p))]"

definition native_transfer_json :: "native_transfer \<Rightarrow> json" where
  "native_transfer_json t = JObject
     [(''schema'', JString (nt_schema t)), (''payload'', transfer_payload_json (nt_payload t)),
      (''pk'', JString (nt_pk t)), (''signature'', JString (nt_signature t)),
      (''network_id'', JString (nt_network_id t))]"

definition transfer_try_from :: "ext \<Rightarrow> signed_envelope \<Rightarrow> native_chain_error + native_transfer" where
  "transfer_try_from E envelope =
     rbind (ensure (se_schema envelope = SIGNED_ENVELOPE_SCHEMA) EnvelopeSchema) (\<lambda>_.
     rbind (ok_or (ext_transfer_payload_from_value E (se_payload envelope)) PayloadDecode) (\<lambda>payload.
     rbind (ok_or (se_network_id envelope) NetworkRequired) (\<lambda>network_id.
     Ok \<lparr>nt_schema = se_schema envelope, nt_payload = payload, nt_pk = se_pk envelope,
         nt_signature = se_signature envelope, nt_network_id = network_id\<rparr>)))"

definition transfer_envelope :: "native_transfer \<Rightarrow> native_chain_error + signed_envelope" where
  "transfer_envelope t =
     rbind (ensure (nt_schema t = SIGNED_ENVELOPE_SCHEMA) EnvelopeSchema) (\<lambda>_.
     Ok \<lparr>se_schema = SIGNED_ENVELOPE_SCHEMA, se_payload = sort_keys (transfer_payload_json (nt_payload t)),
         se_pk = nt_pk t, se_signature = nt_signature t, se_network_id = Some (nt_network_id t)\<rparr>)"

definition validated_fields :: "ext \<Rightarrow> native_transfer \<Rightarrow> native_chain_error + native_transfer_fields" where
  "validated_fields E t =
     (let network = native_testnet in
      rbind (ensure (length (ext_json_to_vec E (native_transfer_json t)) \<le> nn_max_transfer_bytes network) TransferTooLarge) (\<lambda>_.
      rbind (transfer_envelope t) (\<lambda>envelope.
      map_err LedgerErr (validate_native_transfer E envelope (nn_network_id network) (nn_minimum_fee network)))))"

definition transfer_id :: "ext \<Rightarrow> native_transfer \<Rightarrow> u8 list" where
  "transfer_id E t =
     ext_blake3 E (as_bytes ''boole.native.transfer.id.v1'' @ [0] @ canonicalize E (native_transfer_json t))"

section \<open>Blocks\<close>

record native_block_header =
  nh_schema :: string
  nh_network_id :: string
  nh_genesis_hash :: string
  nh_height :: u64
  nh_previous_hash :: string
  nh_producer_pk :: string
  nh_reward_pk :: string
  nh_timestamp_ms :: u64
  nh_target :: string
  nh_transfers_root :: string

record native_block =
  nb_header :: native_block_header
  nb_nonce :: string
  nb_transfers :: "native_transfer list"
  nb_producer_signature :: string

definition native_header_json :: "native_block_header \<Rightarrow> json" where
  "native_header_json h = JObject
     [(''schema'', JString (nh_schema h)), (''networkId'', JString (nh_network_id h)),
      (''genesisHash'', JString (nh_genesis_hash h)), (''height'', JU64 (nh_height h)),
      (''previousHash'', JString (nh_previous_hash h)), (''producerPk'', JString (nh_producer_pk h)),
      (''rewardPk'', JString (nh_reward_pk h)), (''timestampMs'', JU64 (nh_timestamp_ms h)),
      (''target'', JString (nh_target h)), (''transfersRoot'', JString (nh_transfers_root h))]"

definition native_block_json :: "native_block \<Rightarrow> json" where
  "native_block_json b = JObject
     [(''header'', native_header_json (nb_header b)), (''nonce'', JString (nb_nonce b)),
      (''transfers'', JArray (map native_transfer_json (nb_transfers b))),
      (''producerSignature'', JString (nb_producer_signature b))]"

text \<open>A hasher is the bytes it was fed.\<close>

definition header_hasher :: "ext \<Rightarrow> native_block_header \<Rightarrow> u8 list" where
  "header_hasher E h = as_bytes ''boole.native.block.v1'' @ [0] @ canonicalize E (native_header_json h)"

definition u64_to_le_bytes :: "u64 \<Rightarrow> u8 list" where
  "u64_to_le_bytes w = map (\<lambda>i. ucast (drop_bit (8 * i) w)) [0..<8]"

definition hash_nonce :: "ext \<Rightarrow> u8 list \<Rightarrow> u64 \<Rightarrow> u8 list" where
  "hash_nonce E prefix nonce = ext_blake3 E (prefix @ u64_to_le_bytes nonce)"

definition transfers_root :: "ext \<Rightarrow> native_transfer list \<Rightarrow> string" where
  "transfers_root E transfers =
     hex32_to_hex E (ext_blake3 E (as_bytes ''boole.native.transfers.v1'' @ [0] @
       canonicalize E (JArray (map native_transfer_json transfers))))"

definition native_block_hash :: "ext \<Rightarrow> native_block \<Rightarrow> native_chain_error + u8 list" where
  "native_block_hash E b =
     rbind (ok_or (parse_word (nb_nonce b)) NonceParse) (\<lambda>nonce.
     rbind (ensure (word_to_string (nonce :: u64) = nb_nonce b) NoncanonicalNonce) (\<lambda>_.
     Ok (hash_nonce E (header_hasher E (nb_header b)) nonce)))"

definition authorization_payload :: "ext \<Rightarrow> native_block \<Rightarrow> native_chain_error + json" where
  "authorization_payload E b =
     rbind (native_block_hash E b) (\<lambda>hash.
     Ok (JObject [(''blockHash'', JString (hex32_to_hex E hash)), (''schema'', JString BLOCK_AUTH_SCHEMA)]))"

definition authorize :: "ext \<Rightarrow> native_block \<Rightarrow> signed_envelope \<Rightarrow> native_chain_error + native_block" where
  "authorize E b envelope =
     rbind (if se_schema envelope = SIGNED_ENVELOPE_SCHEMA \<and> se_network_id envelope = Some (nh_network_id (nb_header b)) \<and>
               se_pk envelope = nh_producer_pk (nb_header b)
            then rbind (authorization_payload E b) (\<lambda>payload. Ok (se_payload envelope = payload))
            else Ok False) (\<lambda>matches.
     rbind (ensure matches AuthorizationMismatch) (\<lambda>_.
     rbind (map_err EnvelopeErr (verify_strict E envelope)) (\<lambda>verified.
     rbind (ensure verified InvalidProducerSignature) (\<lambda>_.
     Ok (b\<lparr>nb_producer_signature := se_signature envelope\<rparr>)))))"

definition verify_authorization :: "ext \<Rightarrow> native_block \<Rightarrow> native_chain_error + unit" where
  "verify_authorization E b =
     rbind (authorization_payload E b) (\<lambda>payload.
     rbind (authorize E b \<lparr>se_schema = SIGNED_ENVELOPE_SCHEMA, se_payload = payload,
       se_pk = nh_producer_pk (nb_header b), se_signature = nb_producer_signature b,
       se_network_id = Some (nh_network_id (nb_header b))\<rparr>) (\<lambda>_. Ok ()))"

record native_block_template =
  tm_header :: native_block_header
  tm_transfers :: "native_transfer list"

text \<open>The loop over the attempts, which stops at a nonce that does not fit.\<close>

fun mine_loop :: "ext \<Rightarrow> native_block_template \<Rightarrow> u8 list \<Rightarrow> u64 \<Rightarrow> u64 list \<Rightarrow> native_block option" where
  "mine_loop E t target start_nonce [] = None"
| "mine_loop E t target start_nonce (offset # offsets) =
     (case checked_add start_nonce offset of
        None \<Rightarrow> None
      | Some nonce \<Rightarrow>
          if hash_nonce E (header_hasher E (tm_header t)) nonce < target
          then Some \<lparr>nb_header = tm_header t, nb_nonce = word_to_string nonce, nb_transfers = tm_transfers t,
                     nb_producer_signature = []\<rparr>
          else mine_loop E t target start_nonce offsets)"

definition mine :: "ext \<Rightarrow> native_block_template \<Rightarrow> u64 \<Rightarrow> u64 \<Rightarrow> native_chain_error + native_block option" where
  "mine E t start_nonce attempts =
     rbind (map_err HexErr (hex32_from_hex E (nh_target (tm_header t)))) (\<lambda>target.
     Ok (mine_loop E t target start_nonce (map of_nat [0..<unat attempts])))"

section \<open>Chain\<close>

record verified_block_undo =
  vu_post_hash :: "u8 list"
  vu_previous_work :: nat
  vu_ledger :: native_ledger_undo

record native_chain =
  nc_network :: native_network
  nc_blocks :: "native_block list"
  nc_ledger :: native_ledger
  nc_cumulative_work :: nat
  nc_recent_undo :: "verified_block_undo list"

definition chain_eq :: "native_chain \<Rightarrow> native_chain \<Rightarrow> bool" where
  "chain_eq a b \<longleftrightarrow> nc_network a = nc_network b \<and> nc_blocks a = nc_blocks b \<and> nc_ledger a = nc_ledger b \<and>
     nc_cumulative_work a = nc_cumulative_work b"

record prepared_native_block =
  pn_block :: native_block
  pn_ledger :: native_ledger
  pn_cumulative_work :: nat
  pn_undo :: native_ledger_undo

definition chain_new :: "native_chain_error + native_chain" where
  "chain_new =
     (let network = native_testnet in
      rbind (map_err LedgerErr (network_ledger network)) (\<lambda>ledger.
      Ok \<lparr>nc_network = network, nc_blocks = [], nc_ledger = ledger, nc_cumulative_work = 0, nc_recent_undo = []\<rparr>))"

definition head_hash :: "ext \<Rightarrow> native_chain \<Rightarrow> native_chain_error + u8 list" where
  "head_hash E c =
     (if nc_blocks c = [] then Ok (genesis_hash E (nc_network c))
      else map_err (\<lambda>_. ChainPanic) (native_block_hash E (last (nc_blocks c))))"

definition earliest_recent_fork_height :: "native_chain \<Rightarrow> u64 option" where
  "earliest_recent_fork_height c = checked_sub (nl_height (nc_ledger c)) (of_nat (length (nc_recent_undo c)))"

definition fork_step :: "ext \<Rightarrow> native_chain \<Rightarrow> native_chain_error + native_chain" where
  "fork_step E c =
     rbind (ensure (nc_recent_undo c \<noteq> []) ChainPanic) (\<lambda>_.
     let undo = last (nc_recent_undo c) in
     rbind (head_hash E c) (\<lambda>head.
     rbind (ensure (vu_post_hash undo = head) UndoHeadMismatch) (\<lambda>_.
     rbind (map_err LedgerErr (undo_block (nc_ledger c) (vu_ledger undo))) (\<lambda>ledger.
     rbind (ensure (nc_blocks c \<noteq> []) ChainPanic) (\<lambda>_.
     Ok (c\<lparr>nc_recent_undo := butlast (nc_recent_undo c), nc_ledger := ledger,
           nc_cumulative_work := vu_previous_work undo, nc_blocks := butlast (nc_blocks c)\<rparr>))))))"

fun fork_loop :: "ext \<Rightarrow> nat \<Rightarrow> native_chain \<Rightarrow> native_chain_error + native_chain" where
  "fork_loop E 0 c = Ok c"
| "fork_loop E (Suc n) c = rbind (fork_step E c) (fork_loop E n)"

definition fork_at :: "ext \<Rightarrow> native_chain \<Rightarrow> u64 \<Rightarrow> native_chain_error + native_chain" where
  "fork_at E c height =
     rbind (ensure (unat height \<le> length (nc_blocks c)) ForkAboveHead) (\<lambda>_.
     let depth = length (nc_blocks c) - unat height in
     rbind (ensure (depth \<le> length (nc_recent_undo c)) ForkNeedsReplay) (\<lambda>_.
     fork_loop E depth c))"

definition outranks :: "ext \<Rightarrow> native_chain \<Rightarrow> native_chain \<Rightarrow> native_chain_error + bool" where
  "outranks E a b =
     (if nc_cumulative_work a > nc_cumulative_work b then Ok True
      else if nc_cumulative_work a = nc_cumulative_work b
      then rbind (head_hash E a) (\<lambda>ha. rbind (head_hash E b) (\<lambda>hb. Ok (ha < hb)))
      else Ok False)"

definition next_target :: "ext \<Rightarrow> native_chain \<Rightarrow> native_chain_error + string" where
  "next_target E c =
     (if nc_blocks c = [] then Ok (nn_initial_target (nc_network c))
      else
        let last = last (nc_blocks c); policy = nn_retarget (nc_network c); completed = nl_height (nc_ledger c);
            every = rp_retarget_every_blocks policy in
        if completed < every \<or> completed mod every \<noteq> 0 then Ok (nh_target (nb_header last))
        else
          let window_len = unat every in
          rbind (ensure (0 < window_len \<and> window_len \<le> length (nc_blocks c)) ChainPanic) (\<lambda>_.
          let first = nc_blocks c ! (length (nc_blocks c) - window_len) in
          rbind (map_err HexErr (hex32_from_hex E (nh_target (nb_header last)))) (\<lambda>current_bytes.
          let current = digest_to_biguint current_bytes;
              actual = max (saturating_sub (nh_timestamp_ms (nb_header last)) (nh_timestamp_ms (nb_header first))) 1 in
          rbind (ok_or (checked_sub every 1) ChainPanic) (\<lambda>gaps.
          rbind (ok_or (checked_mul (rp_target_block_ms policy) gaps) RetargetOverflow) (\<lambda>expected.
          rbind (map_err DifficultyErr (retarget_t_block current actual expected policy)) (\<lambda>target.
          rbind (map_err HexErr (hex32_from_hex E (nn_initial_target (nc_network c)))) (\<lambda>limit.
          Ok (ext_biguint_fmt_064x E (min target (digest_to_biguint limit))))))))))"

definition minimum_timestamp_ms :: "native_chain \<Rightarrow> native_chain_error + u64" where
  "minimum_timestamp_ms c =
     (let start = length (nc_blocks c) - nn_median_time_past_window (nc_network c);
          timestamps = sort (map (\<lambda>block. nh_timestamp_ms (nb_header block)) (drop start (nc_blocks c)));
          middle = length timestamps div 2;
          median = (if middle < length timestamps then timestamps ! middle else 0)
      in ok_or (checked_add median 1) TimestampOverflow)"

definition transfer_envelopes :: "ext \<Rightarrow> native_chain \<Rightarrow> native_transfer list \<Rightarrow> native_chain_error + signed_envelope list" where
  "transfer_envelopes E c transfers =
     rbind (ensure (length transfers \<le> nn_max_transfers_per_block (nc_network c)) TooManyTransfers) (\<lambda>_.
     try_map (\<lambda>transfer.
       rbind (ensure (length (ext_json_to_vec E (native_transfer_json transfer)) \<le> nn_max_transfer_bytes (nc_network c))
                TransferTooLarge) (\<lambda>_.
       transfer_envelope transfer)) transfers)"

definition template ::
    "ext \<Rightarrow> native_chain \<Rightarrow> string \<Rightarrow> string \<Rightarrow> u64 \<Rightarrow> native_transfer list \<Rightarrow> native_chain_error + native_block_template" where
  "template E c producer_pk reward_pk timestamp_ms transfers =
     rbind (minimum_timestamp_ms c) (\<lambda>minimum.
     rbind (ensure (timestamp_ms \<ge> minimum) TimestampBelowMedian) (\<lambda>_.
     rbind (map_err HexErr (hex32_from_hex E producer_pk)) (\<lambda>_.
     rbind (map_err HexErr (hex32_from_hex E reward_pk)) (\<lambda>_.
     rbind (ok_or (checked_add (nl_height (nc_ledger c)) 1) HeightOverflow) (\<lambda>height.
     rbind (transfer_envelopes E c transfers) (\<lambda>envelopes.
     rbind (map_err LedgerErr (fst (apply_block E (nc_ledger c) height reward_pk envelopes))) (\<lambda>_.
     rbind (head_hash E c) (\<lambda>head.
     rbind (next_target E c) (\<lambda>target.
     Ok \<lparr>tm_header = \<lparr>nh_schema = BLOCK_SCHEMA, nh_network_id = nn_network_id (nc_network c),
           nh_genesis_hash = hex32_to_hex E (genesis_hash E (nc_network c)), nh_height = height,
           nh_previous_hash = hex32_to_hex E head, nh_producer_pk = producer_pk, nh_reward_pk = reward_pk,
           nh_timestamp_ms = timestamp_ms, nh_target = target, nh_transfers_root = transfers_root E transfers\<rparr>,
         tm_transfers = transfers\<rparr>)))))))))"

definition extends_head :: "ext \<Rightarrow> native_chain \<Rightarrow> native_block_header \<Rightarrow> native_chain_error + bool" where
  "extends_head E c header =
     rbind (ok_or (checked_add (nl_height (nc_ledger c)) 1) HeightOverflow) (\<lambda>height.
     if nh_height header = height
     then rbind (head_hash E c) (\<lambda>head. Ok (nh_previous_hash header = hex32_to_hex E head))
     else Ok False)"

definition prepare :: "ext \<Rightarrow> native_chain \<Rightarrow> native_block \<Rightarrow> native_chain_error + prepared_native_block" where
  "prepare E c block =
     (let header = nb_header block; network = nc_network c in
      rbind (ensure (length (ext_json_to_vec E (native_block_json block)) \<le> nn_max_block_bytes network) BlockTooLarge) (\<lambda>_.
      rbind (ensure (nh_schema header = BLOCK_SCHEMA \<and> nh_network_id header = nn_network_id network \<and>
               nh_genesis_hash header = hex32_to_hex E (genesis_hash E network)) ForeignBlock) (\<lambda>_.
      rbind (extends_head E c header) (\<lambda>extends.
      rbind (ensure extends NotExtendingHead) (\<lambda>_.
      rbind (map_err HexErr (hex32_from_hex E (nh_producer_pk header))) (\<lambda>_.
      rbind (map_err HexErr (hex32_from_hex E (nh_reward_pk header))) (\<lambda>_.
      rbind (minimum_timestamp_ms c) (\<lambda>minimum.
      rbind (ensure (nh_timestamp_ms header \<ge> minimum) TimestampBelowMedian) (\<lambda>_.
      rbind (next_target E c) (\<lambda>expected_target.
      rbind (ensure (nh_target header = expected_target) UnexpectedTarget) (\<lambda>_.
      rbind (map_err HexErr (hex32_from_hex E (nh_target header))) (\<lambda>target.
      rbind (native_block_hash E block) (\<lambda>hash.
      rbind (ensure (hash < target) InsufficientWork) (\<lambda>_.
      rbind (ensure (nh_transfers_root header = transfers_root E (nb_transfers block)) TransfersRootMismatch) (\<lambda>_.
      rbind (verify_authorization E block) (\<lambda>_.
      rbind (transfer_envelopes E c (nb_transfers block)) (\<lambda>envelopes.
      rbind (map_err WeightErr (difficulty_weight (digest_to_biguint target))) (\<lambda>work.
      rbind (map_err LedgerErr (prepare_block E (nc_ledger c) (nh_height header) (nh_reward_pk header) envelopes)) (\<lambda>(ledger, undo).
      Ok \<lparr>pn_block = block, pn_ledger = ledger, pn_cumulative_work = nc_cumulative_work c + work,
          pn_undo = undo\<rparr>)))))))))))))))))))"

definition chain_commit :: "ext \<Rightarrow> native_chain \<Rightarrow> prepared_native_block \<Rightarrow> native_chain_error + native_chain" where
  "chain_commit E c prepared =
     rbind (head_hash E c) (\<lambda>head.
     rbind (ensure (nh_previous_hash (nb_header (pn_block prepared)) = hex32_to_hex E head) StalePrepared) (\<lambda>_.
     rbind (native_block_hash E (pn_block prepared)) (\<lambda>post_hash.
     let pushed = nc_recent_undo c @ [\<lparr>vu_post_hash = post_hash, vu_previous_work = nc_cumulative_work c,
                                       vu_ledger = pn_undo prepared\<rparr>];
         recent = (if length pushed > NATIVE_RECENT_FORK_BLOCKS then tl pushed else pushed) in
     Ok (c\<lparr>nc_recent_undo := recent, nc_ledger := pn_ledger prepared,
           nc_cumulative_work := pn_cumulative_work prepared, nc_blocks := nc_blocks c @ [pn_block prepared]\<rparr>))))"

definition append_block :: "ext \<Rightarrow> native_chain \<Rightarrow> native_block \<Rightarrow> native_chain_error + native_chain" where
  "append_block E c block = rbind (prepare E c block) (chain_commit E c)"

definition replay :: "ext \<Rightarrow> native_block list \<Rightarrow> native_chain_error + native_chain" where
  "replay E blocks = rbind chain_new (\<lambda>c. try_fold (append_block E) c blocks)"

end
