(* ===== verification/Native_Chain_Invariant.thy ===== *)
theory Native_Chain_Invariant
  imports Native_Chain Ledger_Undo
begin

text \<open>
  What every chain built from the genesis by appending and forking satisfies: its state is that of a
  replay of its blocks, and every cached undo entry leads back to the replay of a shorter prefix.
\<close>

section \<open>Reachable chains\<close>

inductive chain_reach :: "ext \<Rightarrow> native_chain \<Rightarrow> bool" for E where
  start: "chain_new = Ok c \<Longrightarrow> chain_reach E c"
| extend: "chain_reach E c \<Longrightarrow> append_block E c b = Ok c' \<Longrightarrow> chain_reach E c'"
| fork: "chain_reach E c \<Longrightarrow> fork_at E c height = Ok c' \<Longrightarrow> chain_reach E c'"

section \<open>Validation does not read the undo cache\<close>

lemma head_hash_cong: "chain_eq a b \<Longrightarrow> head_hash E a = head_hash E b"
  by (simp add: head_hash_def chain_eq_def)

lemma part_congs:
  assumes "chain_eq a b"
  shows "extends_head E a h = extends_head E b h" "minimum_timestamp_ms a = minimum_timestamp_ms b"
    "next_target E a = next_target E b" "transfer_envelopes E a ts = transfer_envelopes E b ts"
    "nc_network a = nc_network b" "nc_ledger a = nc_ledger b" "nc_cumulative_work a = nc_cumulative_work b"
proof -
  from assms have e: "nc_network a = nc_network b" "nc_ledger a = nc_ledger b" "nc_blocks a = nc_blocks b"
    "nc_cumulative_work a = nc_cumulative_work b" by (simp_all add: chain_eq_def)
  show "extends_head E a h = extends_head E b h" unfolding extends_head_def e head_hash_cong [OF assms] ..
  show "minimum_timestamp_ms a = minimum_timestamp_ms b" unfolding minimum_timestamp_ms_def e ..
  show "next_target E a = next_target E b" unfolding next_target_def e ..
  show "transfer_envelopes E a ts = transfer_envelopes E b ts" unfolding transfer_envelopes_def e ..
qed (use assms in \<open>simp_all add: chain_eq_def\<close>)

lemma prepare_cong:
  assumes "chain_eq a b" shows "prepare E a block = prepare E b block"
  unfolding prepare_def part_congs [OF assms] ..

text \<open>What \<^const>\<open>prepare\<close> checked, as far as the chain's state is concerned.\<close>

lemma prepare_Inr:
  assumes "prepare E c block = Inr p"
  obtains height head target hash envelopes where
    "checked_add (nl_height (nc_ledger c)) 1 = Some height" "nh_height (nb_header block) = height"
    "head_hash E c = Inr head" "nh_previous_hash (nb_header block) = hex32_to_hex E head"
    "next_target E c = Inr (nh_target (nb_header block))"
    "hex32_from_hex E (nh_target (nb_header block)) = Inr target" "native_block_hash E block = Inr hash" "hash < target"
    "0 < digest_to_biguint target" "transfer_envelopes E c (nb_transfers block) = Inr envelopes"
    "prepare_block E (nc_ledger c) height (nh_reward_pk (nb_header block)) envelopes = Inr (pn_ledger p, pn_undo p)"
    "pn_block p = block" "pn_cumulative_work p = nc_cumulative_work c + 2 ^ 256 div digest_to_biguint target"
proof -
  from assms obtain target hash envelopes ledger undo where
    a: "extends_head E c (nb_header block) = Inr True" "next_target E c = Inr (nh_target (nb_header block))"
    "hex32_from_hex E (nh_target (nb_header block)) = Inr target" "native_block_hash E block = Inr hash" "hash < target"
    "difficulty_weight (digest_to_biguint target) = Inr (2 ^ 256 div digest_to_biguint target)"
    "0 < digest_to_biguint target" "transfer_envelopes E c (nb_transfers block) = Inr envelopes"
    "prepare_block E (nc_ledger c) (nh_height (nb_header block)) (nh_reward_pk (nb_header block)) envelopes = Inr (ledger, undo)"
    "p = \<lparr>pn_block = block, pn_ledger = ledger,
       pn_cumulative_work = nc_cumulative_work c + 2 ^ 256 div digest_to_biguint target, pn_undo = undo\<rparr>"
    unfolding prepare_def Let_def
    by (auto simp only: rbind_eq_Inr map_err_eq_Inr ensure_eq_Inr difficulty_weight_eq_Inr split_paired_Ex prod.case
        Inr_inject simp_thms)
  from a(1) obtain head where "checked_add (nl_height (nc_ledger c)) 1 = Some (nh_height (nb_header block))"
    "head_hash E c = Inr head" "nh_previous_hash (nb_header block) = hex32_to_hex E head"
    by (auto simp: extends_head_def rbind_eq_Inr ok_or_eq_Inr split: if_split_asm)
  with a show thesis by (intro that [of "nh_height (nb_header block)" head target hash envelopes]) simp_all
qed

lemma append_Inr:
  assumes "append_block E c block = Inr c'"
  obtains p hash where "prepare E c block = Inr p" "native_block_hash E block = Inr hash"
    "c' = c\<lparr>nc_recent_undo := (let pushed = nc_recent_undo c @ [\<lparr>vu_post_hash = hash,
                vu_previous_work = nc_cumulative_work c, vu_ledger = pn_undo p\<rparr>]
              in if length pushed > NATIVE_RECENT_FORK_BLOCKS then tl pushed else pushed),
            nc_ledger := pn_ledger p, nc_cumulative_work := pn_cumulative_work p, nc_blocks := nc_blocks c @ [block]\<rparr>"
proof -
  from assms obtain p where p: "prepare E c block = Inr p" and c: "chain_commit E c p = Inr c'"
    by (auto simp: append_block_def rbind_eq_Inr)
  have "pn_block p = block" using p by (elim prepare_Inr) simp
  with c p show thesis
    by (auto simp: chain_commit_def rbind_eq_Inr Let_def intro: that)
qed

lemma append_cong:
  assumes "append_block E a block = Inr a'" and "chain_eq a b"
  obtains b' where "append_block E b block = Inr b'" "chain_eq a' b'"
proof -
  from assms(1) obtain p hash where p: "prepare E a block = Inr p" "native_block_hash E block = Inr hash"
    and a': "nc_network a' = nc_network a" "nc_ledger a' = pn_ledger p"
      "nc_cumulative_work a' = pn_cumulative_work p" "nc_blocks a' = nc_blocks a @ [block]"
    by (elim append_Inr) simp
  from p(1) obtain head where h: "head_hash E a = Inr head" "nh_previous_hash (nb_header block) = hex32_to_hex E head"
    and blk: "pn_block p = block"
    by (elim prepare_Inr) simp
  have "prepare E b block = Inr p" "head_hash E b = Inr head"
    using p(1) h(1) prepare_cong [OF assms(2)] head_hash_cong [OF assms(2)] by simp_all
  with p(2) h(2) blk obtain b' where "append_block E b block = Inr b'" "nc_network b' = nc_network b"
    "nc_ledger b' = pn_ledger p" "nc_cumulative_work b' = pn_cumulative_work p" "nc_blocks b' = nc_blocks b @ [block]"
    by (simp add: append_block_def chain_commit_def Let_def)
  with a' assms(2) show thesis by (intro that [of b']) (simp_all add: chain_eq_def)
qed

section \<open>Replays\<close>

lemma replay_snoc: "replay E (bs @ [b]) = rbind (replay E bs) (\<lambda>c. append_block E c b)"
  by (simp add: replay_def try_fold_snoc rbind_assoc)

lemma replay_blocks: "replay E bs = Inr c \<Longrightarrow> nc_blocks c = bs"
proof (induction bs arbitrary: c rule: rev_induct)
  case Nil
  then show ?case by (auto simp: replay_def chain_new_def rbind_eq_Inr Let_def)
next
  case (snoc b bs)
  then obtain a where "replay E bs = Inr a" "append_block E a b = Inr c"
    by (auto simp: replay_snoc rbind_eq_Inr)
  with snoc.IH show ?case by (elim append_Inr) simp
qed

lemma append_ledger:
  assumes "append_block E c b = Inr c'" and "ledger_inv (nc_ledger c)"
  shows "ledger_inv (nc_ledger c')" "unat (nl_height (nc_ledger c')) = unat (nl_height (nc_ledger c)) + 1"
proof -
  from assms(1) obtain p where p: "prepare E c b = Inr p" and l: "nc_ledger c' = pn_ledger p"
    by (elim append_Inr) simp
  from p obtain height envelopes where
    "prepare_block E (nc_ledger c) height (nh_reward_pk (nb_header b)) envelopes = Inr (pn_ledger p, pn_undo p)"
    by (elim prepare_Inr) blast
  from prepare_block_inv [OF this assms(2)]
  show "ledger_inv (nc_ledger c')" "unat (nl_height (nc_ledger c')) = unat (nl_height (nc_ledger c)) + 1"
    by (simp_all add: l)
qed

section \<open>The undo cache\<close>

definition undo_leads_back :: "ext \<Rightarrow> native_block list \<Rightarrow> nat \<Rightarrow> verified_block_undo \<Rightarrow> bool" where
  "undo_leads_back E bs n u \<longleftrightarrow>
     (\<exists>r r'. replay E (take (Suc n) bs) = Inr r \<and> replay E (take n bs) = Inr r' \<and>
        undo_block (nc_ledger r) (vu_ledger u) = Inr (nc_ledger r') \<and> head_hash E r = Inr (vu_post_hash u) \<and>
        vu_previous_work u = nc_cumulative_work r')"

definition chain_ok :: "ext \<Rightarrow> native_chain \<Rightarrow> bool" where
  "chain_ok E c \<longleftrightarrow>
     (\<exists>r. replay E (nc_blocks c) = Inr r \<and> chain_eq r c) \<and>
     length (nc_recent_undo c) \<le> length (nc_blocks c) \<and> length (nc_recent_undo c) \<le> NATIVE_RECENT_FORK_BLOCKS \<and>
     (\<forall>i < length (nc_recent_undo c).
        undo_leads_back E (nc_blocks c) (length (nc_blocks c) - Suc i) (rev (nc_recent_undo c) ! i))"

lemma chain_eq_sym: "chain_eq a b \<Longrightarrow> chain_eq b a"
  by (simp add: chain_eq_def)

lemma replay_state:
  "replay E bs = Inr c \<Longrightarrow> ledger_inv (nc_ledger c) \<and> unat (nl_height (nc_ledger c)) = length bs \<and> nc_network c = native_testnet"
proof (induction bs arbitrary: c rule: rev_induct)
  case Nil
  then obtain l where c: "nc_ledger c = l" "nc_network c = native_testnet" and "network_ledger native_testnet = Inr l"
    by (auto simp: replay_def chain_new_def rbind_eq_Inr map_err_eq_Inr Let_def)
  then obtain s where l: "new_with_rules (nn_network_id native_testnet) s (nn_minimum_fee native_testnet)
      (nn_reward_maturity native_testnet) = Inr l" by (auto simp: network_ledger_def rbind_eq_Inr)
  have "nl_height l = 0" using l by (auto simp: new_with_rules_def split: if_split_asm)
  with c new_with_rules_inv [OF l] show ?case by simp
next
  case (snoc b bs)
  then obtain a where a: "replay E bs = Inr a" "append_block E a b = Inr c"
    by (auto simp: replay_snoc rbind_eq_Inr)
  moreover have "nc_network c = nc_network a" using a(2) by (elim append_Inr) simp
  ultimately show ?case using snoc.IH [OF a(1)] append_ledger [OF a(2)] by simp
qed

lemma chain_ok_new: "chain_new = Inr c \<Longrightarrow> chain_ok E c"
  by (auto simp: chain_ok_def replay_def chain_new_def rbind_eq_Inr Let_def chain_eq_def)

lemma undo_leads_back_mono: "n < length bs \<Longrightarrow> undo_leads_back E (bs @ xs) n u \<longleftrightarrow> undo_leads_back E bs n u"
  by (simp add: undo_leads_back_def)

lemma append_undo:
  assumes "append_block E a b = Inr c" "replay E bs = Inr a" "prepare E a b = Inr p" "native_block_hash E b = Inr hash"
  shows "undo_leads_back E (bs @ [b]) (length bs)
    \<lparr>vu_post_hash = hash, vu_previous_work = nc_cumulative_work a, vu_ledger = pn_undo p\<rparr>"
proof -
  have blocks: "nc_blocks c = bs @ [b]" and ledger: "nc_ledger c = pn_ledger p"
    using assms(1,3) replay_blocks [OF assms(2)] by (auto elim!: append_Inr)
  have wf: "ledger_wf (nc_ledger a)" using replay_state [OF assms(2)] by (simp add: ledger_inv_def accounts_ok_def)
  from assms(3) obtain height envelopes where
    "prepare_block E (nc_ledger a) height (nh_reward_pk (nb_header b)) envelopes = Inr (pn_ledger p, pn_undo p)"
    by (elim prepare_Inr) blast
  from undo_prepare_block [OF this wf] have "undo_block (nc_ledger c) (pn_undo p) = Inr (nc_ledger a)"
    unfolding ledger .
  moreover have "replay E (bs @ [b]) = Inr c" using assms(1,2) by (simp add: replay_snoc)
  moreover have "head_hash E c = Inr hash" using assms(4) by (simp add: head_hash_def blocks)
  ultimately show ?thesis using assms(2) by (auto simp: undo_leads_back_def)
qed

lemma rev_tl_nth: "i < length (tl xs) \<Longrightarrow> rev (tl xs) ! i = rev xs ! i"
  by (cases xs) (simp_all add: nth_append)

lemma chain_ok_append:
  assumes "chain_ok E c" "append_block E c b = Inr c'"
  shows "chain_ok E c'"
proof -
  let ?bs = "nc_blocks c"
  from assms(1) obtain r where r: "replay E ?bs = Inr r" "chain_eq r c" by (auto simp: chain_ok_def)
  from append_Inr [OF assms(2)] obtain p hash where p: "prepare E c b = Inr p" "native_block_hash E b = Inr hash"
    and c': "c' = c\<lparr>nc_recent_undo := (let pushed = nc_recent_undo c @ [\<lparr>vu_post_hash = hash,
                vu_previous_work = nc_cumulative_work c, vu_ledger = pn_undo p\<rparr>]
              in if length pushed > NATIVE_RECENT_FORK_BLOCKS then tl pushed else pushed),
            nc_ledger := pn_ledger p, nc_cumulative_work := pn_cumulative_work p, nc_blocks := ?bs @ [b]\<rparr>" .
  let ?u = "\<lparr>vu_post_hash = hash, vu_previous_work = nc_cumulative_work c, vu_ledger = pn_undo p\<rparr>"
  have eq: "chain_eq c r" using r(2) by (simp add: chain_eq_def)
  from append_cong [OF assms(2) eq] obtain r' where r': "append_block E r b = Inr r'" "chain_eq c' r'" .
  have pr: "prepare E r b = Inr p" using p(1) prepare_cong [OF eq] by simp
  have new: "undo_leads_back E (?bs @ [b]) (length ?bs) ?u"
    using append_undo [OF r'(1) r(1) pr p(2)] eq by (simp add: chain_eq_def)
  have old: "undo_leads_back E (?bs @ [b]) (length ?bs - Suc i) (rev (nc_recent_undo c) ! i)"
    if "i < length (nc_recent_undo c)" for i
    using assms(1) that by (subst undo_leads_back_mono) (auto simp: chain_ok_def)
  let ?pushed = "nc_recent_undo c @ [?u]"
  have pushed: "undo_leads_back E (?bs @ [b]) (length (?bs @ [b]) - Suc i) (rev ?pushed ! i)" if "i < length ?pushed" for i
    using that new old by (cases i) simp_all
  have "\<forall>i < length (nc_recent_undo c'). undo_leads_back E (nc_blocks c') (length (nc_blocks c') - Suc i) (rev (nc_recent_undo c') ! i)"
  proof (intro allI impI)
    fix i assume i: "i < length (nc_recent_undo c')"
    have "nc_recent_undo c' = ?pushed \<or> nc_recent_undo c' = tl ?pushed" by (simp add: c' Let_def)
    with i have "rev (nc_recent_undo c') ! i = rev ?pushed ! i" "i < length ?pushed"
      using rev_tl_nth [of i ?pushed] by fastforce+
    then show "undo_leads_back E (nc_blocks c') (length (nc_blocks c') - Suc i) (rev (nc_recent_undo c') ! i)"
      using pushed by (simp add: c')
  qed
  moreover have "replay E (nc_blocks c') = Inr r'" using r r' by (simp add: c' replay_snoc)
  moreover have "chain_eq r' c'" using r'(2) by (simp add: chain_eq_def)
  moreover have "length (nc_recent_undo c') \<le> length (nc_blocks c')" "length (nc_recent_undo c') \<le> NATIVE_RECENT_FORK_BLOCKS"
    using assms(1) by (auto simp: chain_ok_def c' Let_def)
  ultimately show ?thesis unfolding chain_ok_def by blast
qed

lemma chain_ok_fork_step:
  assumes "chain_ok E c" "nc_recent_undo c \<noteq> []"
  obtains c' where "fork_step E c = Inr c'" "chain_ok E c'" "nc_blocks c' = butlast (nc_blocks c)"
    "length (nc_recent_undo c') = length (nc_recent_undo c) - 1"
proof -
  let ?bs = "nc_blocks c" and ?u = "last (nc_recent_undo c)"
  from assms obtain r where r: "replay E ?bs = Inr r" "chain_eq r c"
    and len: "length (nc_recent_undo c) \<le> length ?bs" "length (nc_recent_undo c) \<le> NATIVE_RECENT_FORK_BLOCKS"
    and lead: "\<And>i. i < length (nc_recent_undo c) \<Longrightarrow> undo_leads_back E ?bs (length ?bs - Suc i) (rev (nc_recent_undo c) ! i)"
    by (auto simp: chain_ok_def)
  have ne: "?bs \<noteq> []" using len assms(2) by auto
  have "rev (nc_recent_undo c) ! 0 = ?u" using assms(2) by (simp add: rev_nth last_conv_nth)
  then have "undo_leads_back E ?bs (length ?bs - 1) ?u" using lead [of 0] assms(2) by simp
  moreover have "take (Suc (length ?bs - 1)) ?bs = ?bs" "take (length ?bs - 1) ?bs = butlast ?bs"
    using ne by (simp_all add: butlast_conv_take)
  ultimately obtain r' where r': "replay E (butlast ?bs) = Inr r'"
    "undo_block (nc_ledger r) (vu_ledger ?u) = Inr (nc_ledger r')" "head_hash E r = Inr (vu_post_hash ?u)"
    "vu_previous_work ?u = nc_cumulative_work r'" using r(1) by (auto simp: undo_leads_back_def)
  define c' where "c' = c\<lparr>nc_recent_undo := butlast (nc_recent_undo c), nc_ledger := nc_ledger r',
           nc_cumulative_work := vu_previous_work ?u, nc_blocks := butlast ?bs\<rparr>"
  have eq: "nc_ledger r = nc_ledger c" "nc_network r = nc_network c" using r(2) by (simp_all add: chain_eq_def)
  have step: "fork_step E c = Inr c'"
    using assms(2) ne r' head_hash_cong [OF r(2), of E] by (simp add: fork_step_def c'_def eq)
  have net: "nc_network r' = nc_network c" using replay_state [OF r(1)] replay_state [OF r'(1)] eq by simp
  have "undo_leads_back E (butlast ?bs) (length (butlast ?bs) - Suc i) (rev (butlast (nc_recent_undo c)) ! i)"
    if "i < length (butlast (nc_recent_undo c))" for i
  proof -
    have i: "Suc i < length (nc_recent_undo c)" using that by simp
    then have "rev (butlast (nc_recent_undo c)) ! i = rev (nc_recent_undo c) ! Suc i"
      by (simp add: rev_nth nth_butlast)
    moreover have "length (butlast ?bs) - Suc i = length ?bs - Suc (Suc i)" by simp
    moreover have "length ?bs - Suc (Suc i) < length (butlast ?bs)" using i len by simp
    ultimately show ?thesis
      using lead [OF i] undo_leads_back_mono [of _ "butlast ?bs" E "[last ?bs]"] ne by simp
  qed
  then have "chain_ok E c'"
    unfolding chain_ok_def using r'(1,4) net len by (auto simp: c'_def chain_eq_def replay_blocks [OF r'(1)])
  with step show thesis by (intro that [of c']) (simp_all add: c'_def)
qed

lemma chain_ok_fork_loop:
  assumes "chain_ok E c" "n \<le> length (nc_recent_undo c)"
  obtains c' where "fork_loop E n c = Inr c'" "chain_ok E c'" "nc_blocks c' = take (length (nc_blocks c) - n) (nc_blocks c)"
    "length (nc_recent_undo c') = length (nc_recent_undo c) - n"
proof -
  have "\<exists>c'. fork_loop E n c = Inr c' \<and> chain_ok E c' \<and> nc_blocks c' = take (length (nc_blocks c) - n) (nc_blocks c) \<and>
    length (nc_recent_undo c') = length (nc_recent_undo c) - n"
    using assms
  proof (induction n arbitrary: c)
    case (Suc n)
    then have "nc_recent_undo c \<noteq> []" by auto
    from chain_ok_fork_step [OF Suc.prems(1) this] obtain c1 where
      c1: "fork_step E c = Inr c1" "chain_ok E c1" "nc_blocks c1 = butlast (nc_blocks c)"
        "length (nc_recent_undo c1) = length (nc_recent_undo c) - 1" .
    with Suc obtain c' where "fork_loop E n c1 = Inr c'" "chain_ok E c'"
      "nc_blocks c' = take (length (nc_blocks c1) - n) (nc_blocks c1)"
      "length (nc_recent_undo c') = length (nc_recent_undo c1) - n" by fastforce
    with c1 show ?case by (simp add: butlast_conv_take min_def)
  qed simp
  then show thesis using that by blast
qed

lemma fork_at_ok:
  assumes "chain_ok E c" "unat h \<le> length (nc_blocks c)" "length (nc_blocks c) - unat h \<le> length (nc_recent_undo c)"
  obtains c' where "fork_at E c h = Inr c'" "chain_ok E c'" "nc_blocks c' = take (unat h) (nc_blocks c)"
  using chain_ok_fork_loop [OF assms(1,3)] assms(2,3) by (simp add: fork_at_def) blast

lemma chain_reach_ok: "chain_reach E c \<Longrightarrow> chain_ok E c"
proof (induction rule: chain_reach.induct)
  case (fork c h c')
  then have "unat h \<le> length (nc_blocks c)" "length (nc_blocks c) - unat h \<le> length (nc_recent_undo c)"
    by (auto simp: fork_at_def rbind_eq_Inr ensure_eq_Inr Let_def)
  from fork_at_ok [OF fork.IH this] fork.hyps(2) show ?case by auto
qed (auto intro: chain_ok_new chain_ok_append)

end
