(* ===== verification/Native_Chain_Mining.thy ===== *)
theory Native_Chain_Mining
  imports Native_Chain_Invariant Difficulty_Theorems
begin

text \<open>
  Blocks of a reachable chain are linked and carry the work they claim; mining finds the first winning
  nonce; an authorized block mined from a template is accepted. A concrete block is built this way.
\<close>

section \<open>Linked blocks\<close>

definition block_work :: "ext \<Rightarrow> native_block \<Rightarrow> nat" where
  "block_work E b =
     (case hex32_from_hex E (nh_target (nb_header b)) of Inl _ \<Rightarrow> 0 | Inr t \<Rightarrow> 2 ^ 256 div digest_to_biguint t)"

definition linked :: "ext \<Rightarrow> native_block list \<Rightarrow> nat \<Rightarrow> bool" where
  "linked E bs i \<longleftrightarrow>
     unat (nh_height (nb_header (bs ! i))) = i + 1 \<and>
     (\<exists>prev. (if i = 0 then Ok (genesis_hash E native_testnet) else native_block_hash E (bs ! (i - 1))) = Ok prev \<and>
        nh_previous_hash (nb_header (bs ! i)) = hex32_to_hex E prev) \<and>
     (\<exists>target hash. hex32_from_hex E (nh_target (nb_header (bs ! i))) = Ok target \<and>
        native_block_hash E (bs ! i) = Ok hash \<and> hash < target \<and> 0 < digest_to_biguint target)"

lemma append_work:
  assumes "append_block E c b = Inr c'"
  shows "nc_cumulative_work c' = nc_cumulative_work c + block_work E b"
  using assms by (elim append_Inr prepare_Inr) (simp add: block_work_def)

lemma append_linked:
  assumes "replay E bs = Inr c" "append_block E c b = Inr c'"
  shows "linked E (bs @ [b]) (length bs)"
proof -
  note st = replay_state [OF assms(1)] and bs = replay_blocks [OF assms(1)]
  from assms(2) obtain p where "prepare E c b = Inr p" by (elim append_Inr)
  then obtain height head target hash where
    h: "checked_add (nl_height (nc_ledger c)) 1 = Some height" "nh_height (nb_header b) = height"
    and prev: "head_hash E c = Inr head" "nh_previous_hash (nb_header b) = hex32_to_hex E head"
    and t: "hex32_from_hex E (nh_target (nb_header b)) = Inr target" "native_block_hash E b = Inr hash" "hash < target"
      "0 < digest_to_biguint target"
    by (elim prepare_Inr)
  have "unat (nh_height (nb_header b)) = length bs + 1" using h st by (simp add: checked_add_eq_Some)
  moreover have "(if length bs = 0 then Ok (genesis_hash E native_testnet) else native_block_hash E ((bs @ [b]) ! (length bs - 1))) = Ok head"
    using prev(1) st bs by (auto simp: head_hash_def map_err_eq_Inr last_conv_nth nth_append split: if_split_asm)
  ultimately show ?thesis using prev(2) t by (auto simp: linked_def)
qed

lemma linked_append: "i < length bs \<Longrightarrow> linked E (bs @ [b]) i \<longleftrightarrow> linked E bs i"
  by (auto simp: linked_def nth_append)

lemma replay_linked:
  "replay E bs = Inr c \<Longrightarrow>
     (\<forall>i < length bs. linked E bs i) \<and> nc_cumulative_work c = sum_list (map (block_work E) bs)"
proof (induction bs arbitrary: c rule: rev_induct)
  case Nil
  then show ?case by (auto simp: replay_def chain_new_def rbind_eq_Inr Let_def)
next
  case (snoc b bs)
  then obtain a where a: "replay E bs = Inr a" "append_block E a b = Inr c"
    by (auto simp: replay_snoc rbind_eq_Inr)
  from snoc.IH [OF a(1)] append_work [OF a(2)] append_linked [OF a] show ?case
    by (auto simp: less_Suc_eq linked_append)
qed

lemma chain_ok_state:
  assumes "chain_ok E c"
  shows "ledger_inv (nc_ledger c)" "unat (nl_height (nc_ledger c)) = length (nc_blocks c)" "nc_network c = native_testnet"
    "\<And>i. i < length (nc_blocks c) \<Longrightarrow> linked E (nc_blocks c) i"
    "nc_cumulative_work c = sum_list (map (block_work E) (nc_blocks c))"
proof -
  from assms obtain r where r: "replay E (nc_blocks c) = Inr r" "chain_eq r c" by (auto simp: chain_ok_def)
  show "ledger_inv (nc_ledger c)" "unat (nl_height (nc_ledger c)) = length (nc_blocks c)" "nc_network c = native_testnet"
    "\<And>i. i < length (nc_blocks c) \<Longrightarrow> linked E (nc_blocks c) i"
    "nc_cumulative_work c = sum_list (map (block_work E) (nc_blocks c))"
    using replay_state [OF r(1)] replay_linked [OF r(1)] r(2) by (auto simp: chain_eq_def)
qed

lemma chain_ok_head:
  assumes "chain_ok E c" obtains h where "head_hash E c = Inr h"
proof (cases "nc_blocks c = []")
  case True
  then show thesis by (intro that) (simp add: head_hash_def)
next
  case False
  then have "linked E (nc_blocks c) (length (nc_blocks c) - 1)" using chain_ok_state(4) [OF assms] by simp
  with False that show thesis by (auto simp: linked_def head_hash_def last_conv_nth)
qed

section \<open>Examples\<close>

definition ex_chain0 :: native_chain where
  "ex_chain0 = \<lparr>nc_network = native_testnet, nc_blocks = [],
     nc_ledger = \<lparr>nl_network_id = NATIVE_TESTNET_NETWORK_ID,
       nl_schedule = \<lparr>es_total_supply = 100000000000000000, es_initial_reward = 5000000000000, es_halving_epoch = 10000\<rparr>,
       nl_height = 0, nl_issued = 0, nl_balances = [], nl_next_nonces = [], nl_minimum_fee = 1000,
       nl_reward_maturity = 10, nl_locked_balances = [], nl_pending_rewards = []\<rparr>,
     nc_cumulative_work = 0, nc_recent_undo = []\<rparr>"

lemma ex_chain0_new: "chain_new = Ok ex_chain0"
  by (simp add: ex_chain0_def chain_new_def network_ledger_def emission_schedule_new_def new_with_rules_def
      native_testnet_def NATIVE_TESTNET_NETWORK_ID_def NATIVE_COIN_UNIT_def Let_def)

lemma ex_chain0_empty: "nc_blocks ex_chain0 = []" "nc_recent_undo ex_chain0 = []"
  by (simp_all add: ex_chain0_def)

lemma ex_chain0_reach: "chain_reach E ex_chain0"
  using ex_chain0_new by (rule chain_reach.start)

section \<open>A concrete block\<close>

definition ex_pk :: string where
  "ex_pk = replicate 64 (CHR ''0'')"

definition ex_native_header :: native_block_header where
  "ex_native_header = \<lparr>nh_schema = BLOCK_SCHEMA, nh_network_id = NATIVE_TESTNET_NETWORK_ID,
     nh_genesis_hash = hex32_to_hex ref_ext (genesis_hash ref_ext native_testnet), nh_height = 1,
     nh_previous_hash = hex32_to_hex ref_ext (genesis_hash ref_ext native_testnet), nh_producer_pk = ex_pk,
     nh_reward_pk = ex_pk, nh_timestamp_ms = 7, nh_target = nn_initial_target native_testnet,
     nh_transfers_root = transfers_root ref_ext []\<rparr>"

definition ex_template :: native_block_template where
  "ex_template = \<lparr>tm_header = ex_native_header, tm_transfers = []\<rparr>"

definition ex_unsigned :: native_block where
  "ex_unsigned = \<lparr>nb_header = ex_native_header, nb_nonce = word_to_string (5 :: u64), nb_transfers = [],
     nb_producer_signature = []\<rparr>"

lemma ex_pk_hex: "hex32_from_hex ref_ext ex_pk = Inr (replicate 32 0)"
  by (simp add: hex32_from_hex_def ex_pk_def ref_ext_def ref_hex_decode_to_slice_def hex_digit_def is_lower_hex_def
      numeral_nat)

lemma ex_target_hex: "hex32_from_hex ref_ext (nn_initial_target native_testnet) = Inr (0 # 0 # replicate 30 0xff)"
proof -
  have "nn_initial_target native_testnet = ''0000'' @ replicate 60 (CHR ''f'')" by (simp add: native_testnet_def)
  moreover have "hex32_from_hex ref_ext (''0000'' @ replicate 60 (CHR ''f'')) = Inr (0 # 0 # replicate 30 0xff)"
    by (simp add: hex32_from_hex_def ref_ext_def ref_hex_decode_to_slice_def hex_digit_def is_lower_hex_def numeral_nat)
  ultimately show ?thesis by (simp only:)
qed

lemma ex_hash: "hash_nonce ref_ext (header_hasher ref_ext h) nonce < 0 # 0 # replicate 30 0xff"
proof -
  have "replicate 30 (0 :: u8) = 0 # 0 # 0 # replicate 27 0" "replicate 30 (0xff :: u8) = 0xff # replicate 29 0xff"
    by (simp_all add: numeral_nat)
  moreover have "ext_blake3 ref_ext bs = replicate 30 0 @ [of_nat (length bs), sum_list bs]" for bs
    by (simp add: ref_ext_def ref_digest_def)
  ultimately show ?thesis by (simp add: hash_nonce_def)
qed

lemma ex_template_ok: "template ref_ext ex_chain0 ex_pk ex_pk 7 [] = Ok ex_template"
  by (simp add: template_def minimum_timestamp_ms_def checked_add_def ex_pk_hex transfer_envelopes_def apply_block_def
      prepare_block_def apply_block_inner_def ensure_def Let_def
      unlock_rewards_def settle_emission_def lock_emission_def credit_def emission_def balance_def locked_balance_def
      undo_balance_def undo_locked_balance_def bt_or_insert_def record_unlocks_def undo_new_def bt_get_or_def
      checked_sub_def ex_chain0_def head_hash_def next_target_def ex_template_def ex_native_header_def native_testnet_def)

lemma ex_mine: "mine ref_ext ex_template 5 1 = Ok (Some ex_unsigned)"
proof -
  have "nh_target (tm_header ex_template) = nn_initial_target native_testnet"
    by (simp add: ex_template_def ex_native_header_def)
  then show ?thesis
    using ex_hash by (simp add: mine_def ex_target_hex checked_add_def ex_template_def ex_unsigned_def)
qed

definition ex_authorization :: signed_envelope where
  "ex_authorization = (let payload = JObject
       [(''blockHash'', JString (hex32_to_hex ref_ext (hash_nonce ref_ext (header_hasher ref_ext ex_native_header) 5))),
        (''schema'', JString BLOCK_AUTH_SCHEMA)] in
     \<lparr>se_schema = SIGNED_ENVELOPE_SCHEMA, se_payload = payload, se_pk = ex_pk,
      se_signature = ext_hex_encode ref_ext (replicate 32 0 @ digest_for ref_ext payload (Some NATIVE_TESTNET_NETWORK_ID)),
      se_network_id = Some NATIVE_TESTNET_NETWORK_ID\<rparr>)"

definition ex_signed :: native_block where
  "ex_signed = ex_unsigned\<lparr>nb_producer_signature := se_signature ex_authorization\<rparr>"

lemma ex_authorize: "authorize ref_ext ex_unsigned ex_authorization = Ok ex_signed"
proof -
  have hash: "native_block_hash ref_ext ex_unsigned = Ok (hash_nonce ref_ext (header_hasher ref_ext ex_native_header) 5)"
    by (simp add: native_block_hash_def ex_unsigned_def)
  let ?d = "digest_for ref_ext (se_payload ex_authorization) (Some NATIVE_TESTNET_NETWORK_ID)"
  have len: "length ?d = 32" using digest32_ref_ext by (simp add: digest_for_def digest32_def)
  then have sig: "hex64_from_hex ref_ext (se_signature ex_authorization) = Inr (replicate 32 0 @ ?d)"
    using hex64_from_encode [OF hex_laws_ref_ext] by (simp add: ex_authorization_def Let_def)
  moreover have "length (se_signature ex_authorization) = 128"
    using sig by (auto simp: hex64_from_hex_def split: if_split_asm)
  moreover have "length ex_pk = 64" by (simp add: ex_pk_def)
  moreover have "ext_ed25519_point_ok ref_ext pk" "ext_ed25519_verify_strict ref_ext pk d (pk @ d)" for pk d
    by (simp_all add: ref_ext_def)
  moreover have "se_pk ex_authorization = ex_pk" "se_network_id ex_authorization = Some NATIVE_TESTNET_NETWORK_ID"
    "se_schema ex_authorization = SIGNED_ENVELOPE_SCHEMA"
    by (simp_all add: ex_authorization_def Let_def)
  ultimately have "verify_strict ref_ext ex_authorization = Inr True"
    by (simp add: verify_strict_def decode_hex32_def decode_hex64_def ex_pk_hex)
  moreover have "authorization_payload ref_ext ex_unsigned = Ok (se_payload ex_authorization)"
    by (simp add: authorization_payload_def hash ex_authorization_def Let_def)
  moreover have "nb_header ex_unsigned = ex_native_header" by (simp add: ex_unsigned_def)
  ultimately show ?thesis
    by (simp add: authorize_def ex_signed_def ex_authorization_def Let_def ex_native_header_def)
qed

section \<open>Mining\<close>

definition nonce_wins :: "ext \<Rightarrow> native_block_template \<Rightarrow> u8 list \<Rightarrow> nat \<Rightarrow> bool" where
  "nonce_wins E t target n \<longleftrightarrow> n < 2 ^ 64 \<and> hash_nonce E (header_hasher E (tm_header t)) (of_nat n) < target"

definition mined_block :: "native_block_template \<Rightarrow> nat \<Rightarrow> native_block" where
  "mined_block t n = \<lparr>nb_header = tm_header t, nb_nonce = word_to_string (of_nat n :: u64),
     nb_transfers = tm_transfers t, nb_producer_signature = []\<rparr>"

lemma find_none_beyond: "\<forall>n \<in> set ns. 2 ^ 64 \<le> unat start + n \<Longrightarrow> List.find (\<lambda>n. nonce_wins E t target (unat (start :: u64) + n)) ns = None"
  by (auto simp: find_None_iff nonce_wins_def)

lemma mine_loop_find:
  assumes "sorted ns" "\<forall>n \<in> set ns. n < 2 ^ 64"
  shows "mine_loop E t target start (map of_nat ns) =
    map_option (\<lambda>n. mined_block t (unat start + n)) (List.find (\<lambda>n. nonce_wins E t target (unat start + n)) ns)"
  using assms
proof (induction ns)
  case (Cons n ns)
  have n: "unat (of_nat n :: u64) = n" using Cons.prems by (simp add: unsigned_of_nat take_bit_nat_eq_self)
  show ?case
  proof (cases "unat start + n < 2 ^ 64")
    case True
    then have "checked_add start (of_nat n) = Some (of_nat (unat start + n))" by (simp add: checked_add_def n)
    with True Cons show ?thesis by (simp add: nonce_wins_def mined_block_def)
  next
    case False
    with Cons.prems have "\<forall>m \<in> set (n # ns). 2 ^ 64 \<le> unat start + m" by fastforce
    from find_none_beyond [OF this] have "List.find (\<lambda>n. nonce_wins E t target (unat start + n)) (n # ns) = None" .
    moreover have "checked_add start (of_nat n) = None" using False by (simp add: checked_add_def n)
    ultimately show ?thesis by (simp del: find.simps)
  qed
qed simp

lemma mine_find:
  assumes "hex32_from_hex E (nh_target (tm_header t)) = Inr target"
  shows "mine E t start attempts = Ok (map_option (\<lambda>k. mined_block t (unat start + k))
      (List.find (\<lambda>k. nonce_wins E t target (unat start + k)) [0..<unat attempts]))"
proof -
  have "\<forall>n \<in> set [0..<unat attempts]. n < 2 ^ 64" using unat_u64_less [of attempts] by auto
  then show ?thesis using mine_loop_find [of "[0..<unat attempts]" E t target start] by (simp add: mine_def assms)
qed

section \<open>Acceptance\<close>

lemma template_Inr:
  assumes "template E c producer_pk reward_pk ts transfers = Inr t"
  obtains minimum height envelopes staged undo head target where
    "minimum_timestamp_ms c = Inr minimum" "minimum \<le> ts" "is_ok (hex32_from_hex E producer_pk)" "is_ok (hex32_from_hex E reward_pk)"
    "checked_add (nl_height (nc_ledger c)) 1 = Some height" "transfer_envelopes E c transfers = Inr envelopes"
    "prepare_block E (nc_ledger c) height reward_pk envelopes = Inr (staged, undo)"
    "head_hash E c = Inr head" "next_target E c = Inr target"
    "t = \<lparr>tm_header = \<lparr>nh_schema = BLOCK_SCHEMA, nh_network_id = nn_network_id (nc_network c),
           nh_genesis_hash = hex32_to_hex E (genesis_hash E (nc_network c)), nh_height = height,
           nh_previous_hash = hex32_to_hex E head, nh_producer_pk = producer_pk, nh_reward_pk = reward_pk,
           nh_timestamp_ms = ts, nh_target = target, nh_transfers_root = transfers_root E transfers\<rparr>,
         tm_transfers = transfers\<rparr>"
proof -
  from assms obtain minimum height envelopes u head target where
    f: "minimum_timestamp_ms c = Inr minimum" "minimum \<le> ts" "is_ok (hex32_from_hex E producer_pk)" "is_ok (hex32_from_hex E reward_pk)"
    "checked_add (nl_height (nc_ledger c)) 1 = Some height" "transfer_envelopes E c transfers = Inr envelopes"
    "fst (apply_block E (nc_ledger c) height reward_pk envelopes) = Inr u"
    "head_hash E c = Inr head" "next_target E c = Inr target"
    "t = \<lparr>tm_header = \<lparr>nh_schema = BLOCK_SCHEMA, nh_network_id = nn_network_id (nc_network c),
           nh_genesis_hash = hex32_to_hex E (genesis_hash E (nc_network c)), nh_height = height,
           nh_previous_hash = hex32_to_hex E head, nh_producer_pk = producer_pk, nh_reward_pk = reward_pk,
           nh_timestamp_ms = ts, nh_target = target, nh_transfers_root = transfers_root E transfers\<rparr>,
         tm_transfers = transfers\<rparr>"
    unfolding template_def rbind_eq_Inr map_err_eq_Inr ensure_eq_Inr ok_or_eq_Inr sum.inject
    by (elim exE conjE) (rule that, assumption+, simp_all add: is_ok_iff, erule sym)
  then obtain staged undo where "prepare_block E (nc_ledger c) height reward_pk envelopes = Inr (staged, undo)"
    by (auto simp: apply_block_def split: sum.splits)
  with f show thesis by (intro that [of minimum height envelopes staged undo head target])
qed

lemma authorize_Inr:
  assumes "authorize E b envelope = Inr b'"
  obtains payload where "b' = b\<lparr>nb_producer_signature := se_signature envelope\<rparr>" "authorization_payload E b = Inr payload"
    "verify_strict E \<lparr>se_schema = SIGNED_ENVELOPE_SCHEMA, se_payload = payload, se_pk = nh_producer_pk (nb_header b),
       se_signature = se_signature envelope, se_network_id = Some (nh_network_id (nb_header b))\<rparr> = Inr True"
  using assms
  by (cases envelope) (auto simp: authorize_def rbind_eq_Inr map_err_eq_Inr ensure_eq_Inr split: if_split_asm intro: that)

lemma authorize_verifies:
  assumes "authorize E b envelope = Inr b'" shows "verify_authorization E b' = Inr ()"
proof -
  from assms obtain payload where b': "b' = b\<lparr>nb_producer_signature := se_signature envelope\<rparr>"
    and payload: "authorization_payload E b = Inr payload"
    and verified: "verify_strict E \<lparr>se_schema = SIGNED_ENVELOPE_SCHEMA, se_payload = payload, se_pk = nh_producer_pk (nb_header b),
       se_signature = se_signature envelope, se_network_id = Some (nh_network_id (nb_header b))\<rparr> = Inr True" by (rule authorize_Inr)
  have "authorization_payload E b' = Inr payload"
    using payload by (simp add: b' authorization_payload_def native_block_hash_def)
  moreover have "authorize E b' \<lparr>se_schema = SIGNED_ENVELOPE_SCHEMA, se_payload = payload,
       se_pk = nh_producer_pk (nb_header b'), se_signature = nb_producer_signature b',
       se_network_id = Some (nh_network_id (nb_header b'))\<rparr> = Inr b'"
    using calculation verified by (simp add: b' authorize_def)
  ultimately show ?thesis by (simp add: verify_authorization_def)
qed

lemma mined_accepted:
  assumes "template E c producer_pk reward_pk ts transfers = Ok t" and "mine E t start attempts = Ok (Some b)"
    and "authorize E b envelope = Ok b'" and "length (ext_json_to_vec E (native_block_json b')) \<le> nn_max_block_bytes (nc_network c)"
    and "digest32 E" and "hex_laws E"
  shows "\<exists>c'. append_block E c b' = Ok c' \<and> nc_blocks c' = nc_blocks c @ [b'] \<and>
    nc_cumulative_work c' = nc_cumulative_work c + block_work E b'"
proof -
  from assms(1) obtain minimum height envelopes staged undo head target where
    f: "minimum_timestamp_ms c = Inr minimum" "minimum \<le> ts" "is_ok (hex32_from_hex E producer_pk)" "is_ok (hex32_from_hex E reward_pk)"
    "checked_add (nl_height (nc_ledger c)) 1 = Some height" "transfer_envelopes E c transfers = Inr envelopes"
    "prepare_block E (nc_ledger c) height reward_pk envelopes = Inr (staged, undo)"
    "head_hash E c = Inr head" "next_target E c = Inr target"
    and t: "t = \<lparr>tm_header = \<lparr>nh_schema = BLOCK_SCHEMA, nh_network_id = nn_network_id (nc_network c),
           nh_genesis_hash = hex32_to_hex E (genesis_hash E (nc_network c)), nh_height = height,
           nh_previous_hash = hex32_to_hex E head, nh_producer_pk = producer_pk, nh_reward_pk = reward_pk,
           nh_timestamp_ms = ts, nh_target = target, nh_transfers_root = transfers_root E transfers\<rparr>,
         tm_transfers = transfers\<rparr>" by (rule template_Inr)
  from assms(2) obtain tb where tb: "hex32_from_hex E (nh_target (tm_header t)) = Inr tb"
    by (auto simp: mine_def rbind_eq_Inr map_err_eq_Inr)
  from assms(2) obtain n where n: "nonce_wins E t tb n" and b: "b = mined_block t n"
    by (auto simp: mine_find [OF tb] find_Some_iff)
  have b': "nb_header b' = tm_header t" "nb_transfers b' = transfers" "nb_nonce b' = word_to_string (of_nat n :: u64)"
    using assms(3) by (auto elim!: authorize_Inr simp: b mined_block_def t)
  let ?hash = "hash_nonce E (header_hasher E (tm_header t)) (of_nat n)"
  have hash: "native_block_hash E b' = Inr ?hash" "?hash < tb" using n b' by (simp_all add: native_block_hash_def nonce_wins_def)
  have "length ?hash = length tb" using assms(5) hex32_from_hex_length [OF assms(6) tb] by (simp add: hash_nonce_def digest32_def)
  then have pos: "0 < digest_to_biguint tb" using hash(2) less_iff_digest_less [of ?hash tb] by simp
  obtain x y where keys: "hex32_from_hex E producer_pk = Inr x" "hex32_from_hex E reward_pk = Inr y"
    using f(3,4) by (auto simp: is_ok_iff)
  have extends: "extends_head E c (tm_header t) = Inr True" by (simp add: extends_head_def f t)
  have "prepare E c b' = Inr \<lparr>pn_block = b', pn_ledger = staged,
      pn_cumulative_work = nc_cumulative_work c + 2 ^ 256 div digest_to_biguint tb, pn_undo = undo\<rparr>"
    using assms(4) tb authorize_verifies [OF assms(3)] f pos hash keys extends
    by (simp add: prepare_def b' t Let_def difficulty_weight_def)
  then show ?thesis
    using hash f(8) tb by (simp add: append_block_def chain_commit_def b' t Let_def block_work_def)
qed

section \<open>A concrete chain\<close>

lemma ex_append: "\<exists>c'. append_block ref_ext ex_chain0 ex_signed = Ok c' \<and> nc_blocks c' = [ex_signed]"
proof -
  have "length (ext_json_to_vec ref_ext (native_block_json ex_signed)) \<le> nn_max_block_bytes (nc_network ex_chain0)"
    by (simp add: ref_ext_def)
  from mined_accepted [OF ex_template_ok ex_mine ex_authorize this digest32_ref_ext hex_laws_ref_ext]
  show ?thesis by (auto simp: ex_chain0_empty)
qed

definition ex_chain1 :: native_chain where
  "ex_chain1 = projr (append_block ref_ext ex_chain0 ex_signed)"

lemma ex_chain1_eq: "append_block ref_ext ex_chain0 ex_signed = Ok ex_chain1" "nc_blocks ex_chain1 = [ex_signed]"
  using ex_append by (auto simp: ex_chain1_def)

lemma ex_chain1_undo: "length (nc_recent_undo ex_chain1) = 1"
  using ex_chain1_eq(1)
  by (elim append_Inr)
    (drule arg_cong [of ex_chain1 _ nc_recent_undo], simp add: ex_chain0_empty Let_def NATIVE_RECENT_FORK_BLOCKS_def)

lemma ex_chain1_reach: "chain_reach ref_ext ex_chain1"
  using ex_chain0_reach ex_chain1_eq(1) by (rule chain_reach.extend)

end
