(* ===== verification/Native_Chain_Targets.thy ===== *)
theory Native_Chain_Targets
  imports Native_Chain_Mining
begin

text \<open>
  The targets of a reachable chain: every block's target, and the one the next block must carry, lies
  between one and the network's initial target.
\<close>

section \<open>The initial target\<close>

definition MAX_NATIVE_TARGET :: nat where
  "MAX_NATIVE_TARGET = 2 ^ 240 - 1"

lemma hex_value_fs: "hex_value a (replicate k (CHR ''f'')) = Some (16 ^ k * (a + 1) - 1)"
proof (induction k arbitrary: a)
  case (Suc k)
  have "hex_digit CHR ''f'' = Some 15" by (simp add: hex_digit_def)
  with Suc show ?case by (simp add: algebra_simps)
qed simp

lemma hex_value_initial_target: "hex_value 0 (nn_initial_target native_testnet) = Some MAX_NATIVE_TARGET"
proof -
  have "nn_initial_target native_testnet = ''0000'' @ replicate 60 (CHR ''f'')" by (simp add: native_testnet_def)
  moreover have "hex_value 0 (''0000'' @ replicate 60 (CHR ''f'')) = Some MAX_NATIVE_TARGET"
    by (simp add: hex_digit_def hex_value_fs MAX_NATIVE_TARGET_def)
  ultimately show ?thesis by (simp only:)
qed

lemma initial_target_hex:
  assumes "hex_laws E" "hex_value_laws E"
  obtains bs where "hex32_from_hex E (nn_initial_target native_testnet) = Inr bs" "digest_to_biguint bs = MAX_NATIVE_TARGET"
proof -
  have t: "nn_initial_target native_testnet = ''0000'' @ replicate 60 (CHR ''f'')" by (simp add: native_testnet_def)
  have shape: "length (nn_initial_target native_testnet) = 2 * 32" "\<forall>ch \<in> set (nn_initial_target native_testnet). is_lower_hex ch"
    unfolding t by (auto simp: is_lower_hex_def)
  with assms(1) obtain bs where bs: "ext_hex_decode_to_slice E (nn_initial_target native_testnet) 32 = Some bs"
    unfolding hex_laws_def by blast
  with assms(2) hex_value_initial_target have "digest_to_biguint bs = MAX_NATIVE_TARGET"
    by (auto simp: hex_value_laws_def digest_to_biguint_def)
  with bs shape show thesis by (intro that [of bs]) (simp_all add: hex32_from_hex_def list_all_iff)
qed

section \<open>The next target\<close>

definition target_in :: "ext \<Rightarrow> string \<Rightarrow> nat \<Rightarrow> bool" where
  "target_in E s t \<longleftrightarrow> (\<exists>bs. hex32_from_hex E s = Inr bs \<and> digest_to_biguint bs = t) \<and> 1 \<le> t \<and> t \<le> MAX_NATIVE_TARGET"

lemma next_target_first:
  assumes "hex_laws E" "hex_value_laws E" "nc_network c = native_testnet" "nc_blocks c = []"
  shows "\<exists>s. next_target E c = Inr s \<and> target_in E s MAX_NATIVE_TARGET"
proof -
  obtain bs where "hex32_from_hex E (nn_initial_target native_testnet) = Inr bs" "digest_to_biguint bs = MAX_NATIVE_TARGET"
    using initial_target_hex [OF assms(1,2)] .
  then show ?thesis using assms(3,4) by (auto simp: next_target_def target_in_def MAX_NATIVE_TARGET_def)
qed

lemma testnet_policy [simp]:
  "nn_retarget native_testnet = \<lparr>rp_target_block_ms = 60000, rp_retarget_every_blocks = 2, rp_max_adjustment_factor = 4\<rparr>"
  by (simp add: native_testnet_def)

text \<open>The policy retargets after every second block, on the span between the last two timestamps.\<close>

definition span_ms :: "native_block list \<Rightarrow> nat" where
  "span_ms bs = max (unat (nh_timestamp_ms (nb_header (last bs))) - unat (nh_timestamp_ms (nb_header (bs ! (length bs - 2))))) 1"

lemma height_parity:
  assumes "unat (h :: u64) = n" shows "h < 2 \<or> h mod 2 \<noteq> 0 \<longleftrightarrow> n < 2 \<or> odd n"
proof -
  have "h mod 2 = 0 \<longleftrightarrow> unat (h mod 2) = 0" by (simp add: unat_eq_0)
  also have "\<dots> \<longleftrightarrow> even n" using assms by (simp add: unat_mod dvd_eq_mod_eq_0)
  finally show ?thesis using assms by (auto simp: word_less_nat_alt)
qed

lemma next_target_kept:
  assumes "nc_network c = native_testnet" "nc_blocks c \<noteq> []" "unat (nl_height (nc_ledger c)) = length (nc_blocks c)"
    and "odd (length (nc_blocks c))"
  shows "next_target E c = Inr (nh_target (nb_header (last (nc_blocks c))))"
  using assms height_parity [OF assms(3)] by (simp add: next_target_def Let_def)

lemma clamped_span_ms:
  "clamped_span (max (saturating_sub a b) 1) 60000 4 = clamp (max (unat a - unat b) 1) 15000 240000"
proof -
  have "(60000 :: u64) div 4 = 15000" by simp
  moreover have "saturating_mul 60000 (4 :: u64) = 240000" by (simp add: saturating_mul_def)
  moreover have "unat (max (saturating_sub a b) 1) = max (unat a - unat b) 1" by (simp add: unat_max unat_saturating_sub)
  ultimately show ?thesis
    by (simp add: clamped_span_def clamp_def word_less_nat_alt unat_max unat_saturating_sub)
qed

lemma next_target_retargeted:
  assumes "hex_laws E" "hex_value_laws E" "fmt_laws E" "nc_network c = native_testnet" "nc_blocks c \<noteq> []"
    and height: "unat (nl_height (nc_ledger c)) = length (nc_blocks c)" and even: "even (length (nc_blocks c))"
    and last: "target_in E (nh_target (nb_header (last (nc_blocks c)))) t"
  shows "\<exists>s. next_target E c = Inr s \<and>
    target_in E s (min (max (t * clamp (span_ms (nc_blocks c)) 15000 240000 div 60000) 1) MAX_NATIVE_TARGET)"
proof -
  let ?c = "nc_blocks c" and ?p = "\<lparr>rp_target_block_ms = 60000, rp_retarget_every_blocks = 2, rp_max_adjustment_factor = 4 :: u64\<rparr>"
  let ?ts = "\<lambda>b. nh_timestamp_ms (nb_header b)"
  let ?actual = "max (saturating_sub (?ts (List.last ?c)) (?ts (?c ! (length ?c - 2)))) 1"
  let ?n = "max (t * clamp (span_ms ?c) 15000 240000 div 60000) 1"
  from last obtain bs where bs: "hex32_from_hex E (nh_target (nb_header (List.last ?c))) = Inr bs" "digest_to_biguint bs = t"
    and t: "1 \<le> t" by (auto simp: target_in_def)
  obtain lim where lim: "hex32_from_hex E (nn_initial_target native_testnet) = Inr lim" "digest_to_biguint lim = MAX_NATIVE_TARGET"
    using initial_target_hex [OF assms(1,2)] .
  have len: "2 \<le> length ?c" using even assms(5) length_0_conv [of ?c] by presburger
  then have not_kept: "\<not> (nl_height (nc_ledger c) < 2 \<or> nl_height (nc_ledger c) mod 2 \<noteq> 0)"
    using height_parity [OF height] even by simp
  have "policy_validate ?p = Inr ()" by (simp add: policy_validate_def)
  then have n: "retarget_t_block t ?actual 60000 ?p = Inr (min ?n (2 ^ 256 - 1))"
    using t by (simp add: retarget_Inr clamped_span_ms span_ms_def)
  have cut: "min (min ?n (2 ^ 256 - 1)) MAX_NATIVE_TARGET = min ?n MAX_NATIVE_TARGET" by (simp add: MAX_NATIVE_TARGET_def)
  have fmt: "min ?n MAX_NATIVE_TARGET < 2 ^ 256" by (simp add: MAX_NATIVE_TARGET_def)
  from fmt_064x_hex32 [OF assms(3) fmt] obtain out where
    out: "hex32_from_hex E (ext_biguint_fmt_064x E (min ?n MAX_NATIVE_TARGET)) = Inr out"
      "digest_to_biguint out = min ?n MAX_NATIVE_TARGET" .
  have checked: "checked_sub (2 :: u64) 1 = Some 1" "checked_mul (60000 :: u64) 1 = Some 60000"
    by (simp_all add: checked_sub_def checked_mul_def)
  have "next_target E c = Inr (ext_biguint_fmt_064x E (min ?n MAX_NATIVE_TARGET))"
    using assms(4,5) not_kept len bs lim n cut by (simp add: next_target_def Let_def checked)
  moreover have "target_in E (ext_biguint_fmt_064x E (min ?n MAX_NATIVE_TARGET)) (min ?n MAX_NATIVE_TARGET)"
    using out by (simp add: target_in_def MAX_NATIVE_TARGET_def)
  ultimately show ?thesis by blast
qed

lemma scaled_bounds:
  assumes "1 \<le> t" "t \<le> MAX_NATIVE_TARGET"
  shows "min (max (t * clamp s 15000 240000 div 60000) 1) MAX_NATIVE_TARGET \<le> 4 * t"
    and "t div 4 \<le> min (max (t * clamp s 15000 240000 div 60000) 1) MAX_NATIVE_TARGET"
proof -
  have c: "15000 \<le> clamp s 15000 240000" "clamp s 15000 240000 \<le> (240000 :: nat)" by (simp_all add: clamp_def)
  have "t * clamp s 15000 240000 div 60000 \<le> t * 240000 div 60000" using c(2) by (intro div_le_mono mult_left_mono) simp_all
  then show "min (max (t * clamp s 15000 240000 div 60000) 1) MAX_NATIVE_TARGET \<le> 4 * t" using assms(1) by simp
  have "t * 15000 div 60000 \<le> t * clamp s 15000 240000 div 60000" using c(1) by (intro div_le_mono mult_left_mono) simp_all
  moreover have "t * 15000 div 60000 = t div 4" using div_mult_mult2 [of 15000 t 4] by simp
  moreover have "t div 4 \<le> MAX_NATIVE_TARGET" using assms(2) div_le_dividend [of t 4] by (rule order_trans [rotated])
  ultimately show "t div 4 \<le> min (max (t * clamp s 15000 240000 div 60000) 1) MAX_NATIVE_TARGET" by (simp add: le_max_iff_disj)
qed

lemma next_target_later:
  assumes "hex_laws E" "hex_value_laws E" "fmt_laws E" "nc_network c = native_testnet" "nc_blocks c \<noteq> []"
    and "unat (nl_height (nc_ledger c)) = length (nc_blocks c)"
    and last: "target_in E (nh_target (nb_header (last (nc_blocks c)))) t"
  obtains s t' where "next_target E c = Inr s" "target_in E s t'"
proof (cases "even (length (nc_blocks c))")
  case True
  from next_target_retargeted [OF assms(1-6) True last] that show thesis by blast
next
  case False
  from next_target_kept [OF assms(4-6) False] last that show thesis by blast
qed

section \<open>Every block\<close>

lemma replay_targets:
  assumes "hex_laws E" "hex_value_laws E" "fmt_laws E"
  shows "replay E bs = Inr c \<Longrightarrow> \<forall>b \<in> set bs. \<exists>t. target_in E (nh_target (nb_header b)) t"
proof (induction bs arbitrary: c rule: rev_induct)
  case (snoc b bs)
  then obtain a where a: "replay E bs = Inr a" "append_block E a b = Inr c"
    by (auto simp: replay_snoc rbind_eq_Inr)
  note IH = snoc.IH [OF a(1)] and st = replay_state [OF a(1)] and blocks = replay_blocks [OF a(1)]
  from a(2) have nt: "next_target E a = Inr (nh_target (nb_header b))" by (elim append_Inr prepare_Inr)
  have "\<exists>t. target_in E (nh_target (nb_header b)) t"
  proof (cases "bs = []")
    case True
    then show ?thesis using next_target_first [OF assms(1,2), of a] st nt blocks by auto
  next
    case False
    with IH obtain t where "target_in E (nh_target (nb_header (last bs))) t" using last_in_set by blast
    then show ?thesis using next_target_later [OF assms, of a t] st nt blocks False by auto
  qed
  with IH show ?case by auto
qed simp

end
