(* ===== verification/Native_Chain_Theorems.thy ===== *)
theory Native_Chain_Theorems
  imports Native_Chain_Targets
begin

text \<open>
  The native chain: forks are replays of a prefix, blocks are linked and carry the work they claim,
  mining, acceptance of a mined and authorized template, the ranking of chains, and targets.
\<close>

section \<open>Checks that every block passed\<close>

lemma prepare_checks:
  "prepare E c b = Inr p \<Longrightarrow> verify_authorization E b = Inr () \<and> nh_transfers_root (nb_header b) = transfers_root E (nb_transfers b)"
  by (auto simp: prepare_def Let_def rbind_eq_Inr ensure_eq_Inr)

lemma replay_checks:
  "replay E bs = Inr c \<Longrightarrow>
     \<forall>b \<in> set bs. verify_authorization E b = Inr () \<and> nh_transfers_root (nb_header b) = transfers_root E (nb_transfers b)"
proof (induction bs arbitrary: c rule: rev_induct)
  case (snoc b bs)
  then obtain a where a: "replay E bs = Inr a" "append_block E a b = Inr c"
    by (auto simp: replay_snoc rbind_eq_Inr)
  from a(2) obtain p where "prepare E a b = Inr p" by (elim append_Inr)
  with prepare_checks snoc.IH [OF a(1)] show ?case by auto
qed simp

section \<open>Properties\<close>

text \<open>C11. Forking a reachable chain at a height covered by its undo cache succeeds and gives the chain that
  an independent replay of the block prefix gives; the cache never holds more than 256 entries, and
  the earliest height it covers is computed without underflow.\<close>

theorem fork_is_replayed_prefix:
  assumes "chain_reach E c" and "unat h \<le> length (nc_blocks c)"
    and "length (nc_blocks c) - unat h \<le> length (nc_recent_undo c)"
  shows "(\<exists>c' r. fork_at E c h = Ok c' \<and> replay E (take (unat h) (nc_blocks c)) = Ok r \<and> chain_eq c' r) \<and>
    length (nc_recent_undo c) \<le> 256 \<and>
    map_option unat (earliest_recent_fork_height c) = Some (length (nc_blocks c) - length (nc_recent_undo c))"
proof -
  have ok: "chain_ok E c" using assms(1) by (rule chain_reach_ok)
  from fork_at_ok [OF ok assms(2,3)] obtain c' where
    c': "fork_at E c h = Inr c'" "chain_ok E c'" "nc_blocks c' = take (unat h) (nc_blocks c)" .
  then obtain r where "replay E (take (unat h) (nc_blocks c)) = Inr r" "chain_eq c' r"
    by (auto simp: chain_ok_def dest: chain_eq_sym)
  moreover have len: "length (nc_recent_undo c) \<le> length (nc_blocks c)" "length (nc_recent_undo c) \<le> 256"
    using ok by (simp_all add: chain_ok_def NATIVE_RECENT_FORK_BLOCKS_def)
  moreover have "map_option unat (earliest_recent_fork_height c) = Some (length (nc_blocks c) - length (nc_recent_undo c))"
  proof -
    have h: "unat (nl_height (nc_ledger c)) = length (nc_blocks c)" using chain_ok_state(2) [OF ok] .
    then have "length (nc_blocks c) < 2 ^ 64" using unat_u64_less [of "nl_height (nc_ledger c)"] by simp
    with h len show ?thesis
      by (simp add: earliest_recent_fork_height_def checked_sub_def word_le_nat_alt unat_sub unsigned_of_nat
          take_bit_nat_eq_self)
  qed
  ultimately show ?thesis using c'(1) by blast
qed

theorem fork_is_replayed_prefix_witness:
  "\<exists>c' r. fork_at ref_ext ex_chain1 0 = Ok c' \<and> replay ref_ext [] = Ok r \<and> chain_eq c' r"
  using fork_is_replayed_prefix [OF ex_chain1_reach, of 0] by (simp add: ex_chain1_eq ex_chain1_undo)

text \<open>C25. In a reachable chain the ledger satisfies its accounting invariant at the height of the block
  list, the cumulative work is the sum of the blocks' work, and the undo cache holds at most 256 entries. Every
  block has its height, names the hash of its predecessor (the genesis hash for the first), has a hash below
  its own target, commits to its transfers, and carries a valid signature of its producer.\<close>

theorem reachable_chain_linked:
  assumes "chain_reach E c" and "i < length (nc_blocks c)" and "digest32 E" and "hex_laws E"
  shows "ledger_inv (nc_ledger c) \<and> unat (nl_height (nc_ledger c)) = length (nc_blocks c) \<and>
    nc_cumulative_work c = sum_list (map (block_work E) (nc_blocks c)) \<and> length (nc_recent_undo c) \<le> 256 \<and>
    unat (nh_height (nb_header (nc_blocks c ! i))) = i + 1 \<and>
    (\<exists>prev. (if i = 0 then Ok (genesis_hash E native_testnet) else native_block_hash E (nc_blocks c ! (i - 1))) = Ok prev \<and>
        nh_previous_hash (nb_header (nc_blocks c ! i)) = hex32_to_hex E prev) \<and>
    (\<exists>target hash. hex32_from_hex E (nh_target (nb_header (nc_blocks c ! i))) = Ok target \<and>
        native_block_hash E (nc_blocks c ! i) = Ok hash \<and> digest_to_biguint hash < digest_to_biguint target) \<and>
    nh_transfers_root (nb_header (nc_blocks c ! i)) = transfers_root E (nb_transfers (nc_blocks c ! i)) \<and>
    verify_authorization E (nc_blocks c ! i) = Ok ()"
proof -
  have ok: "chain_ok E c" using assms(1) by (rule chain_reach_ok)
  note st = chain_ok_state [OF ok]
  from st(4) [OF assms(2)] obtain target hash where
    th: "hex32_from_hex E (nh_target (nb_header (nc_blocks c ! i))) = Ok target"
    "native_block_hash E (nc_blocks c ! i) = Ok hash" "hash < target" by (auto simp: linked_def)
  have "length hash = 32" using th(2) assms(3)
    by (auto simp: native_block_hash_def rbind_eq_Inr hash_nonce_def digest32_def)
  then have work: "digest_to_biguint hash < digest_to_biguint target"
    using th(3) hex32_from_hex_length [OF assms(4) th(1)] less_iff_digest_less [of hash target] by simp
  from ok obtain r where "replay E (nc_blocks c) = Inr r" by (auto simp: chain_ok_def)
  from replay_checks [OF this] assms(2) have checks: "verify_authorization E (nc_blocks c ! i) = Inr ()"
    "nh_transfers_root (nb_header (nc_blocks c ! i)) = transfers_root E (nb_transfers (nc_blocks c ! i))" by simp_all
  have "length (nc_recent_undo c) \<le> 256" using ok by (simp add: chain_ok_def NATIVE_RECENT_FORK_BLOCKS_def)
  with th work checks st(1,2,5) st(4) [OF assms(2)] show ?thesis unfolding linked_def by blast
qed

theorem reachable_chain_linked_witness:
  "unat (nh_height (nb_header ([ex_signed] ! 0))) = 1 \<and> unat (nl_height (nc_ledger ex_chain1)) = 1 \<and>
   verify_authorization ref_ext ex_signed = Ok ()"
  using reachable_chain_linked [OF ex_chain1_reach _ digest32_ref_ext hex_laws_ref_ext, of 0] by (simp add: ex_chain1_eq)

text \<open>C26. Mining returns the block with the first nonce, from the start nonce on and within the allowed
  number of attempts, whose hash is below the target; it returns nothing exactly when no nonce in that
  range, up to the largest 64-bit value, has such a hash. The hash of the returned block is then below
  its target.\<close>

theorem mine_first_winning_nonce:
  assumes "hex32_from_hex E (nh_target (tm_header t)) = Ok target"
  shows "(mine E t start attempts = Ok None \<longleftrightarrow>
      (\<forall>k < unat attempts. unat start + k < 2 ^ 64 \<longrightarrow> \<not> hash_nonce E (header_hasher E (tm_header t)) (start + of_nat k) < target)) \<and>
    (mine E t start attempts = Ok (Some b) \<longrightarrow>
      (\<exists>k < unat attempts. unat start + k < 2 ^ 64 \<and>
         (\<forall>j < k. \<not> hash_nonce E (header_hasher E (tm_header t)) (start + of_nat j) < target) \<and>
         nb_nonce b = word_to_string (start + of_nat k) \<and> nb_header b = tm_header t \<and> nb_transfers b = tm_transfers t \<and>
         native_block_hash E b = Ok (hash_nonce E (header_hasher E (tm_header t)) (start + of_nat k)) \<and>
         hash_nonce E (header_hasher E (tm_header t)) (start + of_nat k) < target))"
proof -
  note eq = mine_find [OF assms, of start attempts]
  have none: "mine E t start attempts = Ok None \<longleftrightarrow> (\<forall>k < unat attempts. \<not> nonce_wins E t target (unat start + k))"
    unfolding eq by (auto simp: find_None_iff)
  have some: "\<exists>k < unat attempts. nonce_wins E t target (unat start + k) \<and> (\<forall>j < k. \<not> nonce_wins E t target (unat start + j)) \<and>
      b = mined_block t (unat start + k)" if "mine E t start attempts = Ok (Some b)"
    using that unfolding eq by (auto simp: find_Some_iff)
  have "unat start + j < 2 ^ 64" if "unat start + k < 2 ^ 64" "j < k" for j k using that by simp
  then show ?thesis
    using none some by (fastforce simp: nonce_wins_def mined_block_def native_block_hash_def)
qed

theorem mine_first_winning_nonce_witness:
  "hash_nonce ref_ext (header_hasher ref_ext (tm_header ex_template)) 5 < 0 # 0 # replicate 30 0xff"
proof -
  have "hex32_from_hex ref_ext (nh_target (tm_header ex_template)) = Ok (0 # 0 # replicate 30 0xff)"
    by (simp add: ex_template_def ex_native_header_def ex_target_hex)
  from mine_first_winning_nonce [OF this, of 5 1 ex_unsigned] ex_mine show ?thesis by auto
qed




section \<open>Ranking\<close>

lemma outranks_eq:
  assumes "head_hash E a = Inr ha" "head_hash E b = Inr hb"
  shows "outranks E a b = Ok (nc_cumulative_work a > nc_cumulative_work b \<or>
    nc_cumulative_work a = nc_cumulative_work b \<and> ha < hb)"
  using assms by (auto simp: outranks_def)

text \<open>C27. Ranking reachable chains never fails and is a strict order by cumulative work and then by lower
  head hash: it is irreflexive and transitive, and two chains of which neither outranks the other have
  the same work and the same head, so nodes that compare the same chains agree on the best head.\<close>

theorem outranks_strict_order:
  assumes "chain_reach E a" and "chain_reach E b" and "chain_reach E c"
  shows "(\<exists>r. outranks E a b = Ok r) \<and> outranks E a a = Ok False \<and>
    (outranks E a b = Ok True \<and> outranks E b c = Ok True \<longrightarrow> outranks E a c = Ok True) \<and>
    (outranks E a b = Ok False \<and> outranks E b a = Ok False \<longrightarrow>
       nc_cumulative_work a = nc_cumulative_work b \<and> head_hash E a = head_hash E b)"
proof -
  obtain ha hb hc where h: "head_hash E a = Inr ha" "head_hash E b = Inr hb" "head_hash E c = Inr hc"
    using assms chain_reach_ok chain_ok_head by metis
  show ?thesis
    unfolding outranks_eq [OF h(1,1)] outranks_eq [OF h(1,2)] outranks_eq [OF h(2,3)] outranks_eq [OF h(1,3)]
      outranks_eq [OF h(2,1)] h
    by auto
qed

theorem outranks_strict_order_witness:
  "outranks ref_ext ex_chain1 ex_chain1 = Ok False \<and> (\<exists>r. outranks ref_ext ex_chain1 ex_chain0 = Ok r)"
  using outranks_strict_order [OF ex_chain1_reach ex_chain0_reach ex_chain0_reach] by blast

text \<open>C28. Appending a block to a reachable chain adds positive work, so the extended chain always outranks
  the chain it extends and is never outranked by it.\<close>

theorem extension_outranks:
  assumes "chain_reach E c" and "append_block E c b = Ok c'" and "hex_laws E"
  shows "nc_cumulative_work c < nc_cumulative_work c' \<and> outranks E c' c = Ok True \<and> outranks E c c' = Ok False"
proof -
  have reach': "chain_reach E c'" using assms(1,2) by (rule chain_reach.extend)
  obtain h h' where h: "head_hash E c = Inr h" "head_hash E c' = Inr h'"
    using chain_ok_head [OF chain_reach_ok [OF assms(1)]] chain_ok_head [OF chain_reach_ok [OF reach']] by metis
  from assms(2) obtain target where t: "hex32_from_hex E (nh_target (nb_header b)) = Inr target" "0 < digest_to_biguint target"
    by (elim append_Inr prepare_Inr)
  have "digest_to_biguint target < 2 ^ 256"
    using digest_to_biguint_bound [of target] hex32_from_hex_length [OF assms(3) t(1)] by simp
  with t have "0 < block_work E b" by (simp add: block_work_def div_greater_zero_iff)
  with append_work [OF assms(2)] show ?thesis
    unfolding outranks_eq [OF h] outranks_eq [OF h(2,1)] by auto
qed

theorem extension_outranks_witness: "outranks ref_ext ex_chain1 ex_chain0 = Ok True"
  using extension_outranks [OF ex_chain0_reach ex_chain1_eq(1) hex_laws_ref_ext] by blast

section \<open>Targets\<close>

text \<open>C29. The target that the next block of a reachable chain must carry is always defined and, read as a
  number, lies between one and 2^240 - 1. It is the network's initial target on the empty chain. After an odd number of
  blocks it is the last block's target unchanged. After an even number of blocks it is the last target scaled by the span
  between the last two timestamps over one minute, the span taken between 15 and 240 seconds, and the result cut to the range;
  so it is at most four times the last target and at least a quarter of it, rounded down.\<close>

theorem next_target_in_range:
  assumes "chain_reach E c" and "hex_laws E" and "hex_value_laws E" and "fmt_laws E"
  shows "\<exists>s bs. next_target E c = Ok s \<and> hex32_from_hex E s = Ok bs \<and>
    1 \<le> digest_to_biguint bs \<and> digest_to_biguint bs \<le> 2 ^ 240 - 1 \<and>
    (nc_blocks c = [] \<longrightarrow> s = nn_initial_target native_testnet) \<and>
    (odd (length (nc_blocks c)) \<longrightarrow> s = nh_target (nb_header (last (nc_blocks c)))) \<and>
    (nc_blocks c \<noteq> [] \<and> even (length (nc_blocks c)) \<longrightarrow>
       (\<exists>last_bs. hex32_from_hex E (nh_target (nb_header (last (nc_blocks c)))) = Ok last_bs \<and>
          digest_to_biguint bs = min (max (digest_to_biguint last_bs * clamp (span_ms (nc_blocks c)) 15000 240000 div 60000) 1) (2 ^ 240 - 1) \<and>
          digest_to_biguint bs \<le> 4 * digest_to_biguint last_bs \<and> digest_to_biguint last_bs div 4 \<le> digest_to_biguint bs))"
proof -
  have ok: "chain_ok E c" using assms(1) by (rule chain_reach_ok)
  note st = chain_ok_state [OF ok]
  show ?thesis
  proof (cases "nc_blocks c = []")
    case True
    with next_target_first [OF assms(2,3) st(3)] st(3) show ?thesis
      by (auto simp: target_in_def MAX_NATIVE_TARGET_def next_target_def)
  next
    case False
    from ok obtain r where "replay E (nc_blocks c) = Inr r" by (auto simp: chain_ok_def)
    from replay_targets [OF assms(2,3,4) this] False
    obtain t where t: "target_in E (nh_target (nb_header (last (nc_blocks c)))) t" using last_in_set by blast
    from t obtain lbs where lbs: "hex32_from_hex E (nh_target (nb_header (last (nc_blocks c)))) = Inr lbs" "digest_to_biguint lbs = t"
      by (auto simp: target_in_def)
    show ?thesis
    proof (cases "odd (length (nc_blocks c))")
      case True
      with next_target_kept [OF st(3) False st(2)] t False show ?thesis by (auto simp: target_in_def MAX_NATIVE_TARGET_def)
    next
      case even: False
      from next_target_retargeted [OF assms(2,3,4) st(3) False st(2) _ t] even obtain s where
        s: "next_target E c = Inr s" "target_in E s (min (max (t * clamp (span_ms (nc_blocks c)) 15000 240000 div 60000) 1) MAX_NATIVE_TARGET)"
        by blast
      note bound = scaled_bounds [of t "span_ms (nc_blocks c)"]
      have "t \<le> MAX_NATIVE_TARGET" "1 \<le> t" using t by (auto simp: target_in_def)
      with s bound lbs even False show ?thesis by (auto simp: target_in_def MAX_NATIVE_TARGET_def)
    qed
  qed
qed

theorem next_target_in_range_witness:
  "\<exists>bs. next_target ref_ext ex_chain1 = Ok (nh_target (nb_header ex_signed)) \<and>
     hex32_from_hex ref_ext (nh_target (nb_header ex_signed)) = Ok bs \<and> 1 \<le> digest_to_biguint bs \<and> digest_to_biguint bs \<le> 2 ^ 240 - 1"
  using next_target_in_range [OF ex_chain1_reach hex_laws_ref_ext hex_value_laws_ref_ext fmt_laws_ref_ext]
  by (auto simp: ex_chain1_eq)

end
