(* ===== verification/Fork_Choice.thy ===== *)
theory Fork_Choice
  imports Block
begin

text \<open>
  fork_choice.rs and accounting.rs: the work of a persisted chain, the choice of the canonical head
  among candidate chains, and checked crediting of a balance map.
\<close>

section \<open>Fork choice\<close>

datatype fork_choice_error = UnparseableWeight u64 | EmptyCandidate | NoCandidates

definition cumulative_difficulty_weight :: "ext \<Rightarrow> persisted_block list \<Rightarrow> fork_choice_error + nat" where
  "cumulative_difficulty_weight E blocks =
     try_fold (\<lambda>total block.
       rbind (ok_or (ext_biguint_parse E (bl_difficulty_weight block)) (UnparseableWeight (bl_height block))) (\<lambda>weight.
       Ok (total + weight))) 0 blocks"

definition head_block_hash :: "ext \<Rightarrow> persisted_block \<Rightarrow> fork_choice_error + u8 list" where
  "head_block_hash E head = Ok (block_hash E head)"

definition choose_step ::
    "ext \<Rightarrow> (nat \<times> u8 list) option \<Rightarrow> persisted_block list \<Rightarrow> fork_choice_error + (nat \<times> u8 list) option" where
  "choose_step E best chain =
     rbind (ensure (chain \<noteq> []) EmptyCandidate) (\<lambda>_.
     rbind (cumulative_difficulty_weight E chain) (\<lambda>weight.
     rbind (head_block_hash E (last chain)) (\<lambda>hash.
     let wins = (case best of
           None \<Rightarrow> True
         | Some (best_weight, best_hash) \<Rightarrow> weight > best_weight \<or> (weight = best_weight \<and> hash < best_hash))
     in Ok (if wins then Some (weight, hash) else best))))"

definition choose_canonical_head :: "ext \<Rightarrow> persisted_block list list \<Rightarrow> fork_choice_error + u8 list" where
  "choose_canonical_head E candidates =
     rbind (try_fold (choose_step E) None candidates) (\<lambda>best.
     ok_or (map_option snd best) NoCandidates)"

section \<open>Accounting\<close>

datatype accounting_error = CreditOverflow string

text \<open>
  On an overflow the entry keeps its value, which is then nonzero and present, so the caller's map is
  unchanged and the error carries none.
\<close>

definition checked_credit ::
    "(string, u128) btree \<Rightarrow> string \<Rightarrow> u128 \<Rightarrow> accounting_error + (string, u128) btree" where
  "checked_credit m key amount =
     rbind (ok_or (checked_add (bt_get_or 0 m key) amount) (CreditOverflow key)) (\<lambda>v.
     Ok (bt_insert key v m))"

section \<open>Choice of the head\<close>

definition chain_key :: "ext \<Rightarrow> persisted_block list \<Rightarrow> (nat \<times> u8 list) option" where
  "chain_key E chain =
     (if chain = [] then None
      else case cumulative_difficulty_weight E chain of
        Inl _ \<Rightarrow> None | Inr w \<Rightarrow> Some (w, block_hash E (last chain)))"

text \<open>\<open>beats\<close> is the strict order of the candidates: more work, then the lower hash.\<close>

definition beats :: "nat \<times> u8 list \<Rightarrow> nat \<times> u8 list \<Rightarrow> bool" where
  "beats a b \<longleftrightarrow> fst a > fst b \<or> fst a = fst b \<and> snd a < snd b"

lemma choose_step_Inr:
  "choose_step E best chain = Inr best' \<longleftrightarrow>
     (\<exists>k. chain_key E chain = Some k \<and> best' = Some (case best of None \<Rightarrow> k | Some b \<Rightarrow> if beats k b then k else b))"
  by (auto simp: choose_step_def chain_key_def head_block_hash_def rbind_eq_Inr ensure_eq_Inr beats_def Let_def
      split: option.splits sum.splits prod.splits)

lemma beats_not_trans: "\<not> beats k b \<Longrightarrow> \<not> beats b c \<Longrightarrow> \<not> beats k c"
  by (auto simp: beats_def)

lemma beats_irrefl: "\<not> beats k k"
  by (simp add: beats_def)

lemma beats_antisym: "\<not> beats a b \<Longrightarrow> \<not> beats b a \<Longrightarrow> a = b"
  by (auto simp: beats_def prod_eq_iff)

definition keys :: "ext \<Rightarrow> persisted_block list list \<Rightarrow> (nat \<times> u8 list) set" where
  "keys E cs = {k. \<exists>c \<in> set cs. chain_key E c = Some k}"

definition best_of :: "nat \<times> u8 list \<Rightarrow> (nat \<times> u8 list) set \<Rightarrow> bool" where
  "best_of k S \<longleftrightarrow> k \<in> S \<and> (\<forall>k' \<in> S. \<not> beats k' k)"

lemma keys_Cons: "chain_key E c = Some k \<Longrightarrow> keys E (c # cs) = insert k (keys E cs)"
  by (auto simp: keys_def)

lemma best_of_pair: "best_of k (insert (if beats a b then a else b) S) \<longleftrightarrow> best_of k (insert b (insert a S))"
proof -
  have "\<not> beats b k \<and> \<not> beats a k \<longleftrightarrow> \<not> beats (if beats a b then a else b) k"
    using beats_not_trans [of b a k] beats_not_trans [of a b k] by (auto simp: beats_def)
  moreover have "\<not> beats a b \<Longrightarrow> \<not> beats b a \<Longrightarrow> a = b" by (rule beats_antisym)
  ultimately show ?thesis by (auto simp: best_of_def)
qed

lemma choose_fold:
  "try_fold (choose_step E) (Some b) cs = Inr best \<longleftrightarrow>
     (\<forall>c \<in> set cs. chain_key E c \<noteq> None) \<and> (\<exists>k. best = Some k \<and> best_of k (insert b (keys E cs)))"
proof (induction cs arbitrary: b)
  case Nil
  have "best_of k {b} \<longleftrightarrow> k = b" for k by (auto simp: best_of_def beats_irrefl)
  then show ?case by (auto simp: keys_def simp del: split_paired_Ex)
next
  case (Cons c cs)
  show ?case
  proof (cases "chain_key E c")
    case None
    then have "\<nexists>s. choose_step E (Some b) c = Inr s" by (simp add: choose_step_Inr)
    then show ?thesis using None by (auto split: sum.splits)
  next
    case (Some k0)
    then have step: "choose_step E (Some b) c = Inr (Some (if beats k0 b then k0 else b))" by (simp add: choose_step_Inr)
    show ?thesis
      unfolding try_fold.simps step sum.case Cons.IH best_of_pair keys_Cons [OF Some] using Some by simp
  qed
qed

text \<open>The chosen head, by the keys of the candidates alone.\<close>

lemma choose_Inr:
  "choose_canonical_head E cs = Inr h \<longleftrightarrow>
     cs \<noteq> [] \<and> (\<forall>c \<in> set cs. chain_key E c \<noteq> None) \<and> (\<exists>k. best_of k (keys E cs) \<and> h = snd k)"
proof (cases cs)
  case Nil
  then show ?thesis by (simp add: choose_canonical_head_def)
next
  case (Cons c cs')
  show ?thesis
  proof (cases "chain_key E c")
    case None
    then have "\<nexists>s. choose_step E None c = Inr s" by (simp add: choose_step_Inr)
    then show ?thesis using None Cons by (auto simp: choose_canonical_head_def rbind_eq_Inr split: sum.splits)
  next
    case (Some k0)
    then have step: "choose_step E None c = Inr (Some k0)" by (simp add: choose_step_Inr)
    have "choose_canonical_head E cs = Inr h \<longleftrightarrow>
        (\<exists>best. try_fold (choose_step E) (Some k0) cs' = Inr best \<and> map_option snd best = Some h)"
      unfolding choose_canonical_head_def Cons try_fold.simps step sum.case rbind_eq_Inr ok_or_eq_Inr ..
    then show ?thesis
      unfolding choose_fold Cons keys_Cons [OF Some] using Some by (auto simp del: split_paired_Ex)
  qed
qed

section \<open>Properties\<close>

text \<open>C30. The canonical head among well-formed candidate chains is the head of a candidate with the greatest
  total work and, among those, the lowest head hash; the choice depends only on the set of candidates,
  not on the order in which they are listed, so nodes that know the same candidates agree.\<close>

theorem canonical_head_is_heaviest:
  assumes "choose_canonical_head E candidates = Ok h"
  shows "(\<exists>chain \<in> set candidates. \<exists>w. chain \<noteq> [] \<and> cumulative_difficulty_weight E chain = Ok w \<and> block_hash E (last chain) = h \<and>
      (\<forall>other \<in> set candidates. \<exists>w'. cumulative_difficulty_weight E other = Ok w' \<and>
         (w' < w \<or> w' = w \<and> h \<le> block_hash E (last other)))) \<and>
    (set permuted = set candidates \<longrightarrow> choose_canonical_head E permuted = Ok h)"
proof -
  from assms obtain k where k: "best_of k (keys E candidates)" "h = snd k" and all: "\<forall>c \<in> set candidates. chain_key E c \<noteq> None"
    by (auto simp: choose_Inr)
  from k obtain chain where chain: "chain \<in> set candidates" "chain_key E chain = Some k" by (auto simp: best_of_def keys_def)
  have parts: "c \<noteq> [] \<and> cumulative_difficulty_weight E c = Inr (fst k') \<and> block_hash E (last c) = snd k'"
    if "chain_key E c = Some k'" for c k'
    using that by (auto simp: chain_key_def split: if_split_asm sum.splits)
  have "\<exists>w'. cumulative_difficulty_weight E other = Inr w' \<and> (w' < fst k \<or> w' = fst k \<and> h \<le> block_hash E (last other))"
    if other: "other \<in> set candidates" for other
  proof -
    from all other obtain k' where k': "chain_key E other = Some k'" by blast
    with other have "k' \<in> keys E candidates" by (auto simp: keys_def)
    then have "\<not> beats k' k" using k(1) by (simp add: best_of_def)
    with parts [OF k'] k(2) show ?thesis by (auto simp: beats_def not_less)
  qed
  moreover have "choose_canonical_head E permuted = Ok h" if "set permuted = set candidates"
  proof -
    have "keys E permuted = keys E candidates" using that by (simp add: keys_def)
    moreover have "permuted \<noteq> []" using that chain by auto
    ultimately show ?thesis using k all that unfolding choose_Inr by (auto simp del: split_paired_Ex)
  qed
  ultimately show ?thesis using chain parts [OF chain(2)] k(2) by blast
qed

definition ex_fork_block :: "string \<Rightarrow> persisted_block" where
  "ex_fork_block weight = \<lparr>bl_height = 0, bl_prev_c = [], bl_c = [], bl_proposer_pk = [], bl_selected_share_hashes = [],
     bl_selected_share_pks = [], bl_selected_share_reward_pks = [], bl_proposer_reward_pk = [],
     bl_selected_share_evidence = [], bl_min_share_score = [], bl_min_share_score_multiplier_nanos = 0,
     bl_kmax_applied = 0, bl_difficulty_epoch = 0, bl_t_block = [], bl_t_share = [], bl_difficulty_weight = weight,
     bl_dropped_below_min_score = 0, bl_dropped_kernel_reject = 0, bl_truncated_by_kmax = 0, bl_ts = 0,
     bl_promoted_bounty_shares = []\<rparr>"

theorem canonical_head_is_heaviest_witness:
  "\<exists>h. choose_canonical_head ref_ext [[ex_fork_block ''7''], [ex_fork_block ''9'']] = Ok h \<and>
     choose_canonical_head ref_ext [[ex_fork_block ''9''], [ex_fork_block ''7'']] = Ok h"
proof -
  have w: "cumulative_difficulty_weight ref_ext [ex_fork_block ''7''] = Ok 7"
    "cumulative_difficulty_weight ref_ext [ex_fork_block ''9''] = Ok 9"
    by (simp_all add: cumulative_difficulty_weight_def ex_fork_block_def ref_ext_def is_ascii_digit_def)
  then obtain h where h: "choose_canonical_head ref_ext [[ex_fork_block ''7''], [ex_fork_block ''9'']] = Ok h"
    by (simp add: choose_canonical_head_def choose_step_def head_block_hash_def Let_def)
  from canonical_head_is_heaviest [OF this, of "[[ex_fork_block ''9''], [ex_fork_block ''7'']]"] h
  show ?thesis by auto
qed

end
