(* ===== verification/Family_Manifest.thy ===== *)
theory Family_Manifest
  imports Block
begin

text \<open>
  family_manifest.rs and family_manifest_registry.rs: the signed manifest of a bounty family, its
  parser with the error strings of the code, its signature check, and the registry with its root.
\<close>

section \<open>Records\<close>

definition HEX32_FIELDS :: "string list" where
  "HEX32_FIELDS = [''generatorHash'', ''verifierHash'', ''canonicalizerHash'', ''promptSpecHash'',
     ''calibrationReportHash'', ''testVectorsHash'']"

record family_caps =
  fc_max_shares_per_block :: u64
  fc_max_score_multiplier_bps :: u64
  fc_max_reward_credit_per_block :: string

record family_resource_limits =
  fr_max_proof_bytes :: u64
  fr_verify_timeout_ms :: u64
  fr_max_decls :: u64
  fr_max_heartbeats :: u64
  fr_max_rec_depth :: u64

record family_reward_policy =
  fp_mode :: string
  fp_max_block_reward_share_bps :: u64

record family_manifest =
  fm_version :: string
  fm_family_id :: string
  fm_generator_hash :: string
  fm_verifier_hash :: string
  fm_canonicalizer_hash :: string
  fm_prompt_spec_hash :: string
  fm_calibration_report_hash :: string
  fm_test_vectors_hash :: string
  fm_resource_limits :: family_resource_limits
  fm_reward_policy :: family_reward_policy
  fm_activation_height :: u64
  fm_status :: string
  fm_caps :: "family_caps option"
  fm_signature :: "string option"

section \<open>Parsing\<close>

definition positive_u64 :: "json option \<Rightarrow> u64 option" where
  "positive_u64 value = Option.bind value (\<lambda>v. Option.bind (json_as_u64 v) (\<lambda>n. if n > 0 then Some n else None))"

definition obj_str :: "(string \<times> json) list \<Rightarrow> string \<Rightarrow> string option" where
  "obj_str obj field = Option.bind (map_of obj field) json_as_str"

definition obj_u64 :: "(string \<times> json) list \<Rightarrow> string \<Rightarrow> u64 option" where
  "obj_u64 obj field = Option.bind (map_of obj field) json_as_u64"

definition parse_caps :: "json option \<Rightarrow> string + family_caps option" where
  "parse_caps value =
     (case value of
        None \<Rightarrow> Ok None
      | Some raw \<Rightarrow>
          rbind (ok_or (json_as_object raw) ''bad_caps'') (\<lambda>obj.
          rbind (ok_or (obj_u64 obj ''maxSharesPerBlock'') ''bad_caps:maxSharesPerBlock'') (\<lambda>max_shares_per_block.
          rbind (ok_or (obj_u64 obj ''maxScoreMultiplierBps'') ''bad_caps:maxScoreMultiplierBps'') (\<lambda>max_score_multiplier_bps.
          rbind (ensure (\<not> max_score_multiplier_bps > 100000) ''bad_caps:maxScoreMultiplierBps'') (\<lambda>_.
          rbind (ok_or (obj_str obj ''maxRewardCreditPerBlock'') ''bad_caps:maxRewardCreditPerBlock'') (\<lambda>max_reward_credit_per_block.
          rbind (ensure ((parse_word max_reward_credit_per_block :: u128 option) \<noteq> None) ''bad_caps:maxRewardCreditPerBlock'') (\<lambda>_.
          Ok (Some \<lparr>fc_max_shares_per_block = max_shares_per_block, fc_max_score_multiplier_bps = max_score_multiplier_bps,
                    fc_max_reward_credit_per_block = max_reward_credit_per_block\<rparr>))))))))"

definition parse_signature :: "ext \<Rightarrow> json option \<Rightarrow> string + string option" where
  "parse_signature E value =
     (case value of
        None \<Rightarrow> Ok None
      | Some raw \<Rightarrow>
          rbind (ok_or (json_as_str raw) ''bad_signature'') (\<lambda>s.
          rbind (ensure (is_ok (hex64_from_hex E s)) ''bad_signature'') (\<lambda>_. Ok (Some s))))"

definition check_hex32_field :: "ext \<Rightarrow> (string \<times> json) list \<Rightarrow> string \<Rightarrow> string + unit" where
  "check_hex32_field E obj field =
     rbind (ok_or (obj_str obj field) (''missing_field:'' @ field)) (\<lambda>s.
     ensure (is_ok (hex32_from_hex E s)) (''bad_hex32:'' @ field))"

definition FAMILY_MODES :: "string list" where
  "FAMILY_MODES = [''no_protocol_reward'', ''capped_bonus'']"

definition FAMILY_STATUSES :: "string list" where
  "FAMILY_STATUSES = [''draft'', ''bounty-only'', ''experimental'', ''capped-official'', ''official'', ''deprecated'']"

definition parse_resource_limits :: "(string \<times> json) list \<Rightarrow> string + family_resource_limits" where
  "parse_resource_limits rl =
     rbind (ok_or (positive_u64 (map_of rl ''maxProofBytes'')) ''bad_resource_limit:maxProofBytes'') (\<lambda>max_proof_bytes.
     rbind (ok_or (positive_u64 (map_of rl ''verifyTimeoutMs'')) ''bad_resource_limit:verifyTimeoutMs'') (\<lambda>verify_timeout_ms.
     rbind (ok_or (positive_u64 (map_of rl ''maxDecls'')) ''bad_resource_limit:maxDecls'') (\<lambda>max_decls.
     rbind (ok_or (positive_u64 (map_of rl ''maxHeartbeats'')) ''bad_resource_limit:maxHeartbeats'') (\<lambda>max_heartbeats.
     rbind (ok_or (positive_u64 (map_of rl ''maxRecDepth'')) ''bad_resource_limit:maxRecDepth'') (\<lambda>max_rec_depth.
     Ok \<lparr>fr_max_proof_bytes = max_proof_bytes, fr_verify_timeout_ms = verify_timeout_ms, fr_max_decls = max_decls,
         fr_max_heartbeats = max_heartbeats, fr_max_rec_depth = max_rec_depth\<rparr>)))))"

definition parse_reward_policy :: "(string \<times> json) list \<Rightarrow> string + family_reward_policy" where
  "parse_reward_policy rp =
     rbind (ok_or (obj_str rp ''mode'') ''bad_mode'') (\<lambda>mode.
     rbind (ensure (mode \<in> set FAMILY_MODES) ''bad_mode'') (\<lambda>_.
     rbind (ok_or (obj_u64 rp ''maxBlockRewardShareBps'') ''bad_bps'') (\<lambda>max_block_reward_share_bps.
     rbind (ensure (\<not> max_block_reward_share_bps > 10000) ''bad_bps'') (\<lambda>_.
     rbind (ensure (\<not> (mode = ''no_protocol_reward'' \<and> max_block_reward_share_bps \<noteq> 0)) ''bad_bps'') (\<lambda>_.
     Ok \<lparr>fp_mode = mode, fp_max_block_reward_share_bps = max_block_reward_share_bps\<rparr>)))))"

text \<open>The six hash fields were found by the loop when they are read again.\<close>

definition obj_get :: "(string \<times> json) list \<Rightarrow> string \<Rightarrow> string" where
  "obj_get obj field = (case obj_str obj field of Some s \<Rightarrow> s | None \<Rightarrow> [])"

definition parse_family_manifest :: "ext \<Rightarrow> json \<Rightarrow> string + family_manifest" where
  "parse_family_manifest E input =
     rbind (ok_or (json_as_object input) ''bad_json'') (\<lambda>obj.
     rbind (case map_of obj ''version'' of
              None \<Rightarrow> Err ''missing_field:version''
            | Some v \<Rightarrow> ensure (v = JString ''1'') ''bad_version'') (\<lambda>_.
     rbind (ok_or (Option.bind (obj_str obj ''familyId'') (\<lambda>s. if s \<noteq> [] then Some s else None)) ''missing_field:familyId'') (\<lambda>family_id.
     rbind (try_for_each (check_hex32_field E obj) HEX32_FIELDS) (\<lambda>_.
     rbind (ok_or (Option.bind (map_of obj ''resourceLimits'') json_as_object) ''missing_field:resourceLimits'') (\<lambda>rl.
     rbind (parse_resource_limits rl) (\<lambda>resource_limits.
     rbind (ok_or (Option.bind (map_of obj ''rewardPolicy'') json_as_object) ''missing_field:rewardPolicy'') (\<lambda>rp.
     rbind (parse_reward_policy rp) (\<lambda>reward_policy.
     rbind (ok_or (obj_u64 obj ''activationHeight'') ''bad_activation_height'') (\<lambda>activation_height.
     rbind (ok_or (obj_str obj ''status'') ''bad_status'') (\<lambda>status.
     rbind (ensure (status \<in> set FAMILY_STATUSES) ''bad_status'') (\<lambda>_.
     rbind (parse_caps (map_of obj ''caps'')) (\<lambda>caps.
     rbind (parse_signature E (map_of obj ''signature'')) (\<lambda>signature.
     Ok \<lparr>fm_version = ''1'', fm_family_id = family_id, fm_generator_hash = obj_get obj ''generatorHash'',
         fm_verifier_hash = obj_get obj ''verifierHash'', fm_canonicalizer_hash = obj_get obj ''canonicalizerHash'',
         fm_prompt_spec_hash = obj_get obj ''promptSpecHash'',
         fm_calibration_report_hash = obj_get obj ''calibrationReportHash'',
         fm_test_vectors_hash = obj_get obj ''testVectorsHash'', fm_resource_limits = resource_limits,
         fm_reward_policy = reward_policy, fm_activation_height = activation_height, fm_status = status,
         fm_caps = caps, fm_signature = signature\<rparr>)))))))))))))"

section \<open>Serialization and signature\<close>

definition family_caps_json :: "family_caps \<Rightarrow> json" where
  "family_caps_json c = JObject
     [(''maxSharesPerBlock'', JU64 (fc_max_shares_per_block c)),
      (''maxScoreMultiplierBps'', JU64 (fc_max_score_multiplier_bps c)),
      (''maxRewardCreditPerBlock'', JString (fc_max_reward_credit_per_block c))]"

definition resource_limits_json :: "family_resource_limits \<Rightarrow> json" where
  "resource_limits_json r = JObject
     [(''maxProofBytes'', JU64 (fr_max_proof_bytes r)), (''verifyTimeoutMs'', JU64 (fr_verify_timeout_ms r)),
      (''maxDecls'', JU64 (fr_max_decls r)), (''maxHeartbeats'', JU64 (fr_max_heartbeats r)),
      (''maxRecDepth'', JU64 (fr_max_rec_depth r))]"

definition reward_policy_json :: "family_reward_policy \<Rightarrow> json" where
  "reward_policy_json p = JObject
     [(''mode'', JString (fp_mode p)), (''maxBlockRewardShareBps'', JU64 (fp_max_block_reward_share_bps p))]"

definition family_manifest_json :: "family_manifest \<Rightarrow> json" where
  "family_manifest_json m = JObject
     ([(''version'', JString (fm_version m)), (''familyId'', JString (fm_family_id m)),
       (''generatorHash'', JString (fm_generator_hash m)), (''verifierHash'', JString (fm_verifier_hash m)),
       (''canonicalizerHash'', JString (fm_canonicalizer_hash m)), (''promptSpecHash'', JString (fm_prompt_spec_hash m)),
       (''calibrationReportHash'', JString (fm_calibration_report_hash m)),
       (''testVectorsHash'', JString (fm_test_vectors_hash m)),
       (''resourceLimits'', resource_limits_json (fm_resource_limits m)),
       (''rewardPolicy'', reward_policy_json (fm_reward_policy m)),
       (''activationHeight'', JU64 (fm_activation_height m)), (''status'', JString (fm_status m))] @
      (case fm_caps m of None \<Rightarrow> [] | Some c \<Rightarrow> [(''caps'', family_caps_json c)]) @
      (case fm_signature m of None \<Rightarrow> [] | Some s \<Rightarrow> [(''signature'', JString s)]))"

datatype manifest_signature_error = ManifestUnsigned | ManifestEnvelope envelope_error

definition verify_family_manifest_signature ::
    "ext \<Rightarrow> string \<Rightarrow> family_manifest \<Rightarrow> manifest_signature_error + bool" where
  "verify_family_manifest_signature E pk_hex m =
     rbind (ok_or (fm_signature m) ManifestUnsigned) (\<lambda>sig_hex.
     map_err ManifestEnvelope
       (verify_signature E pk_hex sig_hex (sort_keys (family_manifest_json (m\<lparr>fm_signature := None\<rparr>)))))"

section \<open>Registry\<close>

type_synonym family_manifest_registry = "(string, family_manifest) btree"

definition registry_new :: family_manifest_registry where
  "registry_new = []"

definition registry_register :: "family_manifest \<Rightarrow> family_manifest_registry \<Rightarrow> family_manifest_registry" where
  "registry_register manifest r = bt_insert (fm_family_id manifest) manifest r"

definition registry_get :: "family_manifest_registry \<Rightarrow> string \<Rightarrow> family_manifest option" where
  "registry_get r family_id = map_of r family_id"

definition registry_iter :: "family_manifest_registry \<Rightarrow> family_manifest list" where
  "registry_iter r = map snd r"

definition registry_canonical_bytes :: "ext \<Rightarrow> family_manifest_registry \<Rightarrow> u8 list" where
  "registry_canonical_bytes E r = canonicalize E (JArray (map family_manifest_json (registry_iter r)))"

definition registry_root :: "ext \<Rightarrow> family_manifest_registry \<Rightarrow> u8 list" where
  "registry_root E r = ext_blake3 E (registry_canonical_bytes E r)"

section \<open>Well-formed manifests\<close>

definition limits_ok :: "family_resource_limits \<Rightarrow> bool" where
  "limits_ok r \<longleftrightarrow> 0 < fr_max_proof_bytes r \<and> 0 < fr_verify_timeout_ms r \<and> 0 < fr_max_decls r \<and>
     0 < fr_max_heartbeats r \<and> 0 < fr_max_rec_depth r"

definition reward_policy_ok :: "family_reward_policy \<Rightarrow> bool" where
  "reward_policy_ok p \<longleftrightarrow> fp_mode p \<in> set FAMILY_MODES \<and> fp_max_block_reward_share_bps p \<le> 10000 \<and>
     (fp_mode p = ''no_protocol_reward'' \<longrightarrow> fp_max_block_reward_share_bps p = 0)"

definition caps_ok :: "family_caps \<Rightarrow> bool" where
  "caps_ok c \<longleftrightarrow> fc_max_score_multiplier_bps c \<le> 100000 \<and>
     (parse_word (fc_max_reward_credit_per_block c) :: u128 option) \<noteq> None"

definition manifest_ok :: "ext \<Rightarrow> family_manifest \<Rightarrow> bool" where
  "manifest_ok E m \<longleftrightarrow>
     fm_version m = ''1'' \<and> fm_family_id m \<noteq> [] \<and>
     list_all (\<lambda>s. is_ok (hex32_from_hex E s)) [fm_generator_hash m, fm_verifier_hash m, fm_canonicalizer_hash m,
       fm_prompt_spec_hash m, fm_calibration_report_hash m, fm_test_vectors_hash m] \<and>
     limits_ok (fm_resource_limits m) \<and> reward_policy_ok (fm_reward_policy m) \<and>
     fm_status m \<in> set FAMILY_STATUSES \<and> pred_option caps_ok (fm_caps m) \<and>
     pred_option (\<lambda>s. is_ok (hex64_from_hex E s)) (fm_signature m)"

lemma parse_resource_limits_ok: "parse_resource_limits rl = Inr r \<Longrightarrow> limits_ok r"
  by (auto simp: parse_resource_limits_def rbind_eq_Inr ok_or_eq_Inr positive_u64_def bind_eq_Some_conv limits_ok_def
      split: if_split_asm)

lemma parse_reward_policy_ok: "parse_reward_policy rp = Inr r \<Longrightarrow> reward_policy_ok r"
  by (auto simp: parse_reward_policy_def rbind_eq_Inr ok_or_eq_Inr ensure_eq_Inr reward_policy_ok_def not_less)

lemma parse_caps_ok: "parse_caps v = Inr c \<Longrightarrow> pred_option caps_ok c"
  by (auto simp: parse_caps_def rbind_eq_Inr ok_or_eq_Inr ensure_eq_Inr caps_ok_def not_less split: option.splits)

lemma parse_signature_ok: "parse_signature E v = Inr s \<Longrightarrow> pred_option (\<lambda>s. is_ok (hex64_from_hex E s)) s"
  by (auto simp: parse_signature_def rbind_eq_Inr ok_or_eq_Inr ensure_eq_Inr split: option.splits)

lemma check_hex32_field_ok: "check_hex32_field E obj f = Inr u \<Longrightarrow> is_ok (hex32_from_hex E (obj_get obj f))"
  by (auto simp: check_hex32_field_def rbind_eq_Inr ok_or_eq_Inr ensure_eq_Inr obj_get_def)

section \<open>Reading a serialized manifest\<close>

lemma positive_JU64: "positive_u64 (Some (JU64 n)) = (if n > 0 then Some n else None)"
  by (simp add: positive_u64_def)

lemma parse_limits_json:
  "limits_ok r \<Longrightarrow> \<exists>rl. json_as_object (sort_keys (resource_limits_json r)) = Some rl \<and> parse_resource_limits rl = Inr r"
  by (simp add: resource_limits_json_def parse_resource_limits_def map_of_bt_of_list positive_JU64 limits_ok_def)

lemma parse_policy_json:
  "reward_policy_ok p \<Longrightarrow> \<exists>rp. json_as_object (sort_keys (reward_policy_json p)) = Some rp \<and> parse_reward_policy rp = Inr p"
  by (auto simp: reward_policy_json_def parse_reward_policy_def map_of_bt_of_list obj_str_def obj_u64_def reward_policy_ok_def
      ensure_def)

lemma parse_caps_json: "caps_ok c \<Longrightarrow> parse_caps (Some (sort_keys (family_caps_json c))) = Inr (Some c)"
  by (auto simp: family_caps_json_def parse_caps_def map_of_bt_of_list obj_str_def obj_u64_def caps_ok_def ensure_def)

definition manifest_fields :: "family_manifest \<Rightarrow> (string \<times> json) list" where
  "manifest_fields m = (case sort_keys (family_manifest_json m) of JObject fs \<Rightarrow> fs | _ \<Rightarrow> [])"

lemma manifest_fields_get:
  "map_of (manifest_fields m) ''version'' = Some (JString (fm_version m))"
  "map_of (manifest_fields m) ''familyId'' = Some (JString (fm_family_id m))"
  "map_of (manifest_fields m) ''generatorHash'' = Some (JString (fm_generator_hash m))"
  "map_of (manifest_fields m) ''verifierHash'' = Some (JString (fm_verifier_hash m))"
  "map_of (manifest_fields m) ''canonicalizerHash'' = Some (JString (fm_canonicalizer_hash m))"
  "map_of (manifest_fields m) ''promptSpecHash'' = Some (JString (fm_prompt_spec_hash m))"
  "map_of (manifest_fields m) ''calibrationReportHash'' = Some (JString (fm_calibration_report_hash m))"
  "map_of (manifest_fields m) ''testVectorsHash'' = Some (JString (fm_test_vectors_hash m))"
  "map_of (manifest_fields m) ''resourceLimits'' = Some (sort_keys (resource_limits_json (fm_resource_limits m)))"
  "map_of (manifest_fields m) ''rewardPolicy'' = Some (sort_keys (reward_policy_json (fm_reward_policy m)))"
  "map_of (manifest_fields m) ''activationHeight'' = Some (JU64 (fm_activation_height m))"
  "map_of (manifest_fields m) ''status'' = Some (JString (fm_status m))"
  "map_of (manifest_fields m) ''caps'' = map_option (\<lambda>c. sort_keys (family_caps_json c)) (fm_caps m)"
  "map_of (manifest_fields m) ''signature'' = map_option JString (fm_signature m)"
  by (simp_all add: manifest_fields_def family_manifest_json_def map_of_bt_of_list split: option.split)

lemma parse_manifest_json:
  assumes "manifest_ok E m" shows "parse_family_manifest E (sort_keys (family_manifest_json m)) = Inr m"
proof -
  have obj: "json_as_object (sort_keys (family_manifest_json m)) = Some (manifest_fields m)"
    by (simp add: manifest_fields_def family_manifest_json_def)
  note ok = assms [unfolded manifest_ok_def]
  obtain rl where rl: "json_as_object (sort_keys (resource_limits_json (fm_resource_limits m))) = Some rl"
    "parse_resource_limits rl = Inr (fm_resource_limits m)" using ok parse_limits_json by blast
  obtain rp where rp: "json_as_object (sort_keys (reward_policy_json (fm_reward_policy m))) = Some rp"
    "parse_reward_policy rp = Inr (fm_reward_policy m)" using ok parse_policy_json by blast
  have caps: "parse_caps (map_option (\<lambda>c. sort_keys (family_caps_json c)) (fm_caps m)) = Inr (fm_caps m)"
    using ok parse_caps_json by (cases "fm_caps m") (simp_all add: parse_caps_def)
  have sig: "parse_signature E (map_option JString (fm_signature m)) = Inr (fm_signature m)"
    using ok by (cases "fm_signature m") (simp_all add: parse_signature_def ensure_def)
  have hashes: "try_for_each (check_hex32_field E (manifest_fields m)) HEX32_FIELDS = Inr ()"
    using ok by (simp add: try_for_each_eq_Inr HEX32_FIELDS_def check_hex32_field_def obj_str_def manifest_fields_get ensure_def)
  show ?thesis
    unfolding parse_family_manifest_def obj using ok
    by (simp add: manifest_fields_get obj_str_def obj_u64_def obj_get_def rl rp caps sig hashes ensure_def)
qed

definition ex_manifest :: family_manifest where
  "ex_manifest = (let h = replicate 64 (CHR ''a'') in
     \<lparr>fm_version = ''1'', fm_family_id = ''v1-lenbound'', fm_generator_hash = h, fm_verifier_hash = h,
      fm_canonicalizer_hash = h, fm_prompt_spec_hash = h, fm_calibration_report_hash = h, fm_test_vectors_hash = h,
      fm_resource_limits = \<lparr>fr_max_proof_bytes = 16384, fr_verify_timeout_ms = 5000, fr_max_decls = 1024,
        fr_max_heartbeats = 400000, fr_max_rec_depth = 512\<rparr>,
      fm_reward_policy = \<lparr>fp_mode = ''capped_bonus'', fp_max_block_reward_share_bps = 100\<rparr>,
      fm_activation_height = 3, fm_status = ''experimental'',
      fm_caps = Some \<lparr>fc_max_shares_per_block = 2, fc_max_score_multiplier_bps = 10000,
        fc_max_reward_credit_per_block = ''7''\<rparr>, fm_signature = None\<rparr>)"

lemma ex_manifest_ok: "manifest_ok ref_ext ex_manifest"
proof -
  have "is_ok (hex32_from_hex ref_ext (replicate 64 (CHR ''a'')))"
    by (simp add: hex32_from_hex_def is_lower_hex_def ref_ext_def ref_hex_decode_to_slice_def hex_digit_def numeral_nat)
  moreover have "(parse_word ''7'' :: u128 option) = Some 7"
    by (simp add: parse_word_def parse_uint_def digit_val_def)
  ultimately show ?thesis
    by (simp add: manifest_ok_def ex_manifest_def Let_def limits_ok_def reward_policy_ok_def caps_ok_def
        FAMILY_MODES_def FAMILY_STATUSES_def)
qed

lemma parse_manifest_ok: "parse_family_manifest E input = Inr m \<Longrightarrow> manifest_ok E m"
  unfolding parse_family_manifest_def
  by (auto simp: rbind_eq_Inr ok_or_eq_Inr ensure_eq_Inr try_for_each_eq_Inr manifest_ok_def HEX32_FIELDS_def
      bind_eq_Some_conv split: if_split_asm
      dest: parse_resource_limits_ok parse_reward_policy_ok parse_caps_ok parse_signature_ok check_hex32_field_ok)

section \<open>Properties\<close>

text \<open>C34. Every manifest the parser accepts is well formed: version 1, a family name, six 32-byte hex
  hashes, positive resource limits, a known reward mode with at most 10000 basis points (none for the
  mode without reward), a known status, bounded caps with a 128-bit credit, and a 64-byte signature.\<close>

theorem parsed_manifest_ok:
  assumes "parse_family_manifest E input = Ok m"
  shows "manifest_ok E m"
  using assms by (rule parse_manifest_ok)

theorem parsed_manifest_ok_witness:
  "parse_family_manifest ref_ext (sort_keys (family_manifest_json ex_manifest)) = Ok ex_manifest \<and> manifest_ok ref_ext ex_manifest"
  using parse_manifest_json [OF ex_manifest_ok] parsed_manifest_ok [OF parse_manifest_json [OF ex_manifest_ok]] by simp

text \<open>C35. A manifest that was parsed and serialized again parses to the same manifest: parsing loses nothing
  that the serialization, and so the signature and the registry root, covers.\<close>

theorem manifest_reparse:
  assumes "parse_family_manifest E input = Ok m"
  shows "parse_family_manifest E (sort_keys (family_manifest_json m)) = Ok m"
  using parse_manifest_json [OF parse_manifest_ok [OF assms]] .

theorem manifest_reparse_witness:
  "parse_family_manifest ref_ext (sort_keys (family_manifest_json ex_manifest)) = Ok ex_manifest"
  using manifest_reparse [OF parse_manifest_json [OF ex_manifest_ok]] .

text \<open>The manifest registered last under a family.\<close>

definition last_registered :: "family_manifest list \<Rightarrow> string \<Rightarrow> family_manifest option" where
  "last_registered ms family_id = List.find (\<lambda>m. fm_family_id m = family_id) (rev ms)"

lemma map_of_find: "map_of (map (\<lambda>m. (f m, m)) xs) k = List.find (\<lambda>m. f m = k) xs"
  by (induction xs) auto

lemma registry_of_list: "fold registry_register ms registry_new = bt_of_list (map (\<lambda>m. (fm_family_id m, m)) ms)"
proof -
  have "fold registry_register xs r = fold (\<lambda>(k, v). bt_insert k v) (map (\<lambda>m. (fm_family_id m, m)) xs) r" for xs r
    by (induction xs arbitrary: r) (simp_all add: registry_register_def)
  then show ?thesis by (simp add: registry_new_def bt_of_list_def)
qed

lemma registry_lookup: "map_of (fold registry_register ms registry_new) family_id = last_registered ms family_id"
  by (simp add: registry_of_list map_of_bt_of_list last_registered_def rev_map map_of_find)

lemma bt_as_sorted:
  assumes "bt_wf m"
  shows "m = map (\<lambda>k. (k, the (map_of m k))) (sorted_list_of_set (dom (map_of m)))"
proof -
  have "sorted_list_of_set (set (map fst m)) = map fst m"
    using assms by (intro sorted_list_of_set.idem_if_sorted_distinct) (auto simp: bt_wf_def strict_sorted_iff)
  then have keys: "sorted_list_of_set (dom (map_of m)) = map fst m" by (simp add: dom_map_of_conv_image_fst)
  have "the (map_of m k) = v" if "(k, v) \<in> set m" for k v using that assms by (simp add: bt_wf_distinct)
  then have "map (\<lambda>kv. (fst kv, the (map_of m (fst kv)))) m = map (\<lambda>kv. kv) m" by (intro map_cong) auto
  then show ?thesis unfolding keys by (simp add: comp_def)
qed



end
