(* ===== verification/Durability.thy ===== *)
theory Durability
  imports Prelude
begin

text \<open>
  durability.rs: the durable appends and atomic rewrites on which every ledger rests, and the reader that
  repairs a torn tail. The disk maps paths to the bytes of regular files. What the operating system does with a
  call is not determined by the program: a disk carries the outcomes of the calls to come, and every operation takes the
  next one. Paths are canonical and their directories exist; link checks and directory
  syncs can only fail a call.
\<close>

section \<open>Text\<close>

abbreviation newline :: char where "newline \<equiv> CHR 0x0A"
abbreviation carriage_return :: char where "carriage_return \<equiv> CHR 0x0D"

text \<open>\<open>String::from_utf8\<close> accepts exactly the well-formed sequences of one to four bytes.\<close>

definition utf8_tail :: "char \<Rightarrow> bool" where
  "utf8_tail ch = (let b = (of_char ch :: nat) in 0x80 \<le> b \<and> b \<le> 0xBF)"

definition utf8_second :: "nat \<Rightarrow> char \<Rightarrow> bool" where
  "utf8_second lead ch =
     (let b = (of_char ch :: nat) in
        (if lead = 0xE0 then 0xA0 \<le> b \<and> b \<le> 0xBF
         else if lead = 0xED then 0x80 \<le> b \<and> b \<le> 0x9F
         else if lead = 0xF0 then 0x90 \<le> b \<and> b \<le> 0xBF
         else if lead = 0xF4 then 0x80 \<le> b \<and> b \<le> 0x8F
         else utf8_tail ch))"

definition utf8_width :: "nat \<Rightarrow> nat" where
  "utf8_width lead =
     (if lead < 0x80 then 1 else if 0xC2 \<le> lead \<and> lead \<le> 0xDF then 2 else if 0xE0 \<le> lead \<and> lead \<le> 0xEF then 3
      else if 0xF0 \<le> lead \<and> lead \<le> 0xF4 then 4 else 0)"

definition utf8_head :: "string \<Rightarrow> nat" where
  "utf8_head s =
     (if s = [] then 0
      else let lead = (of_char (hd s) :: nat); n = utf8_width lead in
        if n \<le> length s \<and> (n \<ge> 2 \<longrightarrow> utf8_second lead (s ! 1)) \<and> (n \<ge> 3 \<longrightarrow> utf8_tail (s ! 2)) \<and>
           (n \<ge> 4 \<longrightarrow> utf8_tail (s ! 3))
        then n else 0)"

function utf8_valid :: "string \<Rightarrow> bool" where
  "utf8_valid s = (if s = [] then True else if utf8_head s = 0 then False else utf8_valid (drop (utf8_head s) s))"
  by auto
termination by (relation "measure length") auto

declare utf8_valid.simps [simp del]

text \<open>\<open>str::lines\<close>: the pieces between newlines, without a carriage return before one.\<close>

definition strip_cr :: "string \<Rightarrow> string" where
  "strip_cr s = (if s \<noteq> [] \<and> last s = carriage_return then butlast s else s)"

function str_lines :: "string \<Rightarrow> string list" where
  "str_lines s =
     (if s = [] then []
      else case dropWhile (\<lambda>ch. ch \<noteq> newline) s of
        [] \<Rightarrow> [s]
      | _ # rest \<Rightarrow> strip_cr (takeWhile (\<lambda>ch. ch \<noteq> newline) s) # str_lines rest)"
  by auto
termination
proof (relation "measure length")
  fix s rest :: string and ch
  assume "dropWhile (\<lambda>ch. ch \<noteq> newline) s = ch # rest"
  then have "length (ch # rest) \<le> length s" by (metis length_dropWhile_le)
  then show "(rest, s) \<in> measure length" by simp
qed simp

declare str_lines.simps [simp del]

section \<open>The disk\<close>

text \<open>
  What happens to a call. An append can be refused before it writes, fail and be rolled back, or fail after
  \<open>k\<close> bytes with a failed rollback; an atomic rewrite can fail before or after the rename.
\<close>

datatype io_outcome = IoDone | IoRefused | IoUndone | IoTorn nat

datatype io_error = IoFenced | IoFailed | IoNotUtf8 | IoTornTail

record disk =
  dk_files :: "string \<Rightarrow> string option"
  dk_fenced :: "string set"
  dk_outcomes :: "io_outcome list"

definition next_outcome :: "disk \<Rightarrow> io_outcome \<times> disk" where
  "next_outcome d = (case dk_outcomes d of [] \<Rightarrow> (IoDone, d) | x # xs \<Rightarrow> (x, d\<lparr>dk_outcomes := xs\<rparr>))"

definition file_bytes :: "disk \<Rightarrow> string \<Rightarrow> string" where
  "file_bytes d path = (case dk_files d path of None \<Rightarrow> [] | Some s \<Rightarrow> s)"

definition put_file :: "disk \<Rightarrow> string \<Rightarrow> string \<Rightarrow> disk" where
  "put_file d path s = d\<lparr>dk_files := (dk_files d)(path \<mapsto> s)\<rparr>"

text \<open>\<open>fence_failed_append\<close>, \<open>check_append_fence\<close>, \<open>any_indeterminate_write\<close>: the fence lasts as long as the process.\<close>

definition fence_failed_append :: "disk \<Rightarrow> string \<Rightarrow> disk" where
  "fence_failed_append d path = d\<lparr>dk_fenced := insert path (dk_fenced d)\<rparr>"

definition check_append_fence :: "disk \<Rightarrow> string \<Rightarrow> io_error + unit" where
  "check_append_fence d path = ensure (path \<notin> dk_fenced d) IoFenced"

definition any_indeterminate_write :: "disk \<Rightarrow> string list \<Rightarrow> bool" where
  "any_indeterminate_write d paths = list_ex (\<lambda>path. path \<in> dk_fenced d) paths"

definition append_ndjson_transaction :: "disk \<Rightarrow> string \<Rightarrow> string \<Rightarrow> (io_error + unit) \<times> disk" where
  "append_ndjson_transaction d path line =
     (let confirmed = file_bytes d path;
          record_bytes = line @ [newline];
          (outcome, d) = next_outcome d
      in case outcome of
           IoDone \<Rightarrow> (Ok (), put_file d path (confirmed @ record_bytes))
         | IoRefused \<Rightarrow> (Err IoFailed, d)
         | IoUndone \<Rightarrow> (Err IoFailed, put_file d path confirmed)
         | IoTorn k \<Rightarrow> (Err IoFailed, fence_failed_append (put_file d path (confirmed @ take k record_bytes)) path))"

text \<open>Without \<open>create_if_missing\<close> a missing file cannot be opened.\<close>

definition append_ndjson_line_with_handle :: "disk \<Rightarrow> string \<Rightarrow> string \<Rightarrow> bool \<Rightarrow> (io_error + unit) \<times> disk" where
  "append_ndjson_line_with_handle d path line create_if_missing =
     (case check_append_fence d path of
        Inl e \<Rightarrow> (Err e, d)
      | Inr _ \<Rightarrow>
          if dk_files d path = None \<and> \<not> create_if_missing then (Err IoFailed, d)
          else append_ndjson_transaction d path line)"

definition append_ndjson_line_durable :: "disk \<Rightarrow> string \<Rightarrow> string \<Rightarrow> (io_error + unit) \<times> disk" where
  "append_ndjson_line_durable d path line = append_ndjson_line_with_handle d path line True"

definition write_file_atomic :: "disk \<Rightarrow> string \<Rightarrow> string \<Rightarrow> (io_error + unit) \<times> disk" where
  "write_file_atomic d path bytes =
     (case check_append_fence d path of
        Inl e \<Rightarrow> (Err e, d)
      | Inr _ \<Rightarrow>
          let (outcome, d) = next_outcome d
          in case outcome of
               IoDone \<Rightarrow> (Ok (), put_file d path bytes)
             | IoTorn _ \<Rightarrow> (Err IoFailed, put_file d path bytes)
             | _ \<Rightarrow> (Err IoFailed, d))"

definition ndjson :: "string list \<Rightarrow> string" where
  "ndjson lines = concat (map (\<lambda>line. line @ [newline]) lines)"

definition write_ndjson_lines_atomic :: "disk \<Rightarrow> string \<Rightarrow> string list \<Rightarrow> (io_error + unit) \<times> disk" where
  "write_ndjson_lines_atomic d path lines = write_file_atomic d path (ndjson lines)"

section \<open>Reading\<close>

text \<open>\<open>iter().rposition(p)\<close>\<close>

fun rposition :: "('a \<Rightarrow> bool) \<Rightarrow> 'a list \<Rightarrow> nat option" where
  "rposition P [] = None"
| "rposition P (x # xs) =
     (case rposition P xs of Some i \<Rightarrow> Some (Suc i) | None \<Rightarrow> if P x then Some 0 else None)"

definition stable_jsonl_prefix_len :: "string \<Rightarrow> nat" where
  "stable_jsonl_prefix_len bytes =
     (if bytes = [] \<or> last bytes = newline then length bytes
      else case rposition (\<lambda>b. b = newline) bytes of Some index \<Rightarrow> index + 1 | None \<Rightarrow> 0)"

definition read_stable_prefix_on_file :: "disk \<Rightarrow> string \<Rightarrow> string \<Rightarrow> (io_error + string) \<times> disk" where
  "read_stable_prefix_on_file d path bytes =
     (let stable = take (stable_jsonl_prefix_len bytes) bytes
      in (if utf8_valid stable then Ok stable else Err IoNotUtf8, put_file d path stable))"

text \<open>Opening the file and reading it can be refused, and the repair can fail in its sync after the truncation.\<close>

definition read_stable_prefix :: "disk \<Rightarrow> string \<Rightarrow> (io_error + string option) \<times> disk" where
  "read_stable_prefix d path =
     (case dk_files d path of
        None \<Rightarrow> (Ok None, d)
      | Some bytes \<Rightarrow>
          let (outcome, d) = next_outcome d
          in case outcome of
               IoDone \<Rightarrow> (case read_stable_prefix_on_file d path bytes of (r, d) \<Rightarrow> (rbind r (\<lambda>s. Ok (Some s)), d))
             | IoTorn _ \<Rightarrow> (Err IoFailed, put_file d path (take (stable_jsonl_prefix_len bytes) bytes))
             | _ \<Rightarrow> (Err IoFailed, d))"

definition read_complete_ndjson_read_only :: "disk \<Rightarrow> string \<Rightarrow> io_error + string option" where
  "read_complete_ndjson_read_only d path =
     (case dk_files d path of
        None \<Rightarrow> Ok None
      | Some bytes \<Rightarrow>
          if stable_jsonl_prefix_len bytes < length bytes then Err IoTornTail
          else if utf8_valid bytes then Ok (Some bytes) else Err IoNotUtf8)"

section \<open>Files of complete lines\<close>

definition line_ok :: "string \<Rightarrow> bool" where
  "line_ok line \<longleftrightarrow> line \<noteq> [] \<and> newline \<notin> set line \<and> last line \<noteq> carriage_return \<and> utf8_valid line"

lemma ndjson_Nil [simp]: "ndjson [] = []"
  by (simp add: ndjson_def)

lemma ndjson_Cons [simp]: "ndjson (l # ls) = l @ newline # ndjson ls"
  by (simp add: ndjson_def)

lemma ndjson_append [simp]: "ndjson (ls @ ls') = ndjson ls @ ndjson ls'"
  by (simp add: ndjson_def)

lemma utf8_valid_Nil [simp]: "utf8_valid []"
  by (simp add: utf8_valid.simps)

lemma utf8_head_append: "utf8_head s \<noteq> 0 \<Longrightarrow> utf8_head (s @ t) = utf8_head s"
  by (auto simp: utf8_head_def Let_def nth_append split: if_split_asm)

lemma utf8_head_le: "utf8_head s \<le> length s"
  by (simp add: utf8_head_def Let_def)

lemma utf8_valid_append: "utf8_valid s \<Longrightarrow> utf8_valid (s @ t) \<longleftrightarrow> utf8_valid t"
proof (induction s rule: utf8_valid.induct)
  case (1 s)
  show ?case
  proof (cases "s = []")
    case False
    with "1.prems" have h: "utf8_head s \<noteq> 0" "utf8_valid (drop (utf8_head s) s)"
      by (simp_all add: utf8_valid.simps [of s] split: if_split_asm)
    have "utf8_valid (s @ t) \<longleftrightarrow> utf8_valid (drop (utf8_head s) s @ t)"
      using False h(1) utf8_head_le [of s] by (subst utf8_valid.simps) (simp add: utf8_head_append)
    with "1.IH" [OF False h(1,2)] show ?thesis by simp
  qed simp
qed

lemma utf8_valid_ascii_Cons: "(of_char ch :: nat) < 128 \<Longrightarrow> utf8_valid (ch # s) = utf8_valid s"
  by (subst utf8_valid.simps) (simp add: utf8_head_def utf8_width_def)

lemma utf8_valid_ascii: "\<forall>ch \<in> set s. (of_char ch :: nat) < 128 \<Longrightarrow> utf8_valid s"
  by (induction s) (simp_all add: utf8_valid_ascii_Cons)

lemma utf8_valid_newline [simp]: "utf8_valid (newline # s) = utf8_valid s"
  by (simp add: utf8_valid_ascii_Cons)

lemma utf8_valid_ndjson: "\<forall>l \<in> set ls. line_ok l \<Longrightarrow> utf8_valid (ndjson ls)"
  by (induction ls) (auto simp: line_ok_def utf8_valid_append)

lemma str_lines_Cons:
  assumes "newline \<notin> set l" shows "str_lines (l @ newline # rest) = strip_cr l # str_lines rest"
proof -
  have "dropWhile (\<lambda>ch. ch \<noteq> newline) (l @ newline # rest) = newline # rest"
    and "takeWhile (\<lambda>ch. ch \<noteq> newline) (l @ newline # rest) = l"
    using assms by (induction l) auto
  then show ?thesis by (subst str_lines.simps) simp
qed

lemma str_lines_ndjson: "\<forall>l \<in> set ls. line_ok l \<Longrightarrow> str_lines (ndjson ls) = ls"
  by (induction ls) (simp_all add: str_lines.simps [of "[]"] str_lines_Cons line_ok_def strip_cr_def)

lemma filter_line_ok: "\<forall>l \<in> set ls. line_ok l \<Longrightarrow> filter (\<lambda>l. l \<noteq> []) ls = ls"
  by (auto simp: filter_id_conv line_ok_def)

lemma rposition_None: "rposition P xs = None \<longleftrightarrow> (\<forall>x \<in> set xs. \<not> P x)"
  by (induction xs) (auto split: option.split)

lemma rposition_append:
  "rposition P (xs @ ys) =
     (case rposition P ys of Some i \<Rightarrow> Some (length xs + i) | None \<Rightarrow> rposition P xs)"
  by (induction xs) (auto split: option.split)

lemma ndjson_last: "ls \<noteq> [] \<Longrightarrow> last (ndjson ls) = newline \<and> rposition (\<lambda>b. b = newline) (ndjson ls) = Some (length (ndjson ls) - 1)"
proof (induction ls)
  case (Cons l ls)
  show ?case
  proof (cases "ls = []")
    case True
    then show ?thesis by (simp add: rposition_append)
  next
    case False
    moreover from False have "ndjson ls \<noteq> []" by (cases ls) auto
    ultimately show ?thesis using Cons.IH by (auto simp: rposition_append)
  qed
qed simp

text \<open>A file of complete lines followed by a torn one is repaired to the complete lines.\<close>

lemma stable_prefix_torn:
  assumes "newline \<notin> set t"
  shows "take (stable_jsonl_prefix_len (ndjson ls @ t)) (ndjson ls @ t) = ndjson ls"
proof (cases "t = []")
  case True
  then show ?thesis using ndjson_last [of ls] by (cases "ls = []") (auto simp: stable_jsonl_prefix_len_def)
next
  case False
  with assms have "last (ndjson ls @ t) \<noteq> newline" using last_in_set by fastforce
  moreover have "rposition (\<lambda>b. b = newline) t = None" using assms by (auto simp: rposition_None)
  moreover have "ls \<noteq> [] \<Longrightarrow> 0 < length (ndjson ls)" by (cases ls) simp_all
  ultimately show ?thesis
    using False ndjson_last [of ls]
    by (cases "ls = []") (auto simp: stable_jsonl_prefix_len_def rposition_append split: option.split)
qed

lemma torn_append:
  assumes "newline \<notin> set l"
  obtains "take k (l @ [newline]) = l @ [newline]" | t where "take k (l @ [newline]) = t" "newline \<notin> set t"
proof (cases "k \<le> length l")
  case True
  then have "take k (l @ [newline]) = take k l" by simp
  with assms that(2) show thesis by (metis in_set_takeD)
qed (use that(1) in simp)

end
