(* ===== verification/Bounty_Ledger.thy ===== *)
theory Bounty_Ledger
  imports Validator Ordered_Map
begin

text \<open>
  bounty_ledger.rs: the contract of a bounty event and the in-memory event ledger with its indices.
  An event is a JSON value; \<open>Value::to_string\<close> is a parameter.
\<close>

section \<open>Fields\<close>

definition HEX32_LEN :: nat where "HEX32_LEN = 64"

definition event_str :: "json \<Rightarrow> string \<Rightarrow> string option" where
  "event_str event key = Option.bind (json_get event key) json_as_str"

definition event_u64 :: "json \<Rightarrow> string \<Rightarrow> u64 option" where
  "event_u64 event key = Option.bind (json_get event key) json_as_u64"

fun json_is_boolean :: "json \<Rightarrow> bool" where
  "json_is_boolean (JBool _) = True"
| "json_is_boolean _ = False"

definition is_status :: "string \<Rightarrow> bool" where
  "is_status value = (value \<in> set [''open'', ''solved'', ''expired'', ''withdrawn''])"

definition is_hex32 :: "string \<Rightarrow> bool" where
  "is_hex32 value = (length value = HEX32_LEN \<and> list_all is_lower_hex value)"

definition is_some_and :: "'a option \<Rightarrow> ('a \<Rightarrow> bool) \<Rightarrow> bool" where
  "is_some_and x p = (case x of None \<Rightarrow> False | Some v \<Rightarrow> p v)"

definition nonempty_str :: "json \<Rightarrow> string \<Rightarrow> bool" where
  "nonempty_str event key = is_some_and (event_str event key) (\<lambda>s. s \<noteq> [])"

definition hex32_str :: "json \<Rightarrow> string \<Rightarrow> bool" where
  "hex32_str event key = is_some_and (event_str event key) is_hex32"

fun render_scalar :: "(json \<Rightarrow> string) \<Rightarrow> json \<Rightarrow> string" where
  "render_scalar to_text (JString s) = s"
| "render_scalar to_text v = to_text v"

section \<open>The contract of an event\<close>

definition EVENT_KINDS :: "string list" where
  "EVENT_KINDS = [''create'', ''status_change'', ''proof'', ''credit'', ''share_promoted'']"

definition validate_share_promoted :: "json \<Rightarrow> string + unit" where
  "validate_share_promoted event =
     rbind (ensure (event_u64 event ''height'' \<noteq> None)
       ''bountyLedger: share_promoted event requires height (unsigned integer)'') (\<lambda>_.
     rbind (ensure (nonempty_str event ''familyId'') ''bountyLedger: share_promoted event requires familyId'') (\<lambda>_.
     rbind (ensure (nonempty_str event ''bountyId'') ''bountyLedger: share_promoted event requires bountyId'') (\<lambda>_.
     rbind (ensure (hex32_str event ''proofHash'')
       ''bountyLedger: share_promoted event requires proofHash (32-byte lowercase hex)'') (\<lambda>_.
     ensure (hex32_str event ''prover'') ''bountyLedger: share_promoted event requires prover (32-byte lowercase hex)''))))"

definition validate_credit :: "json \<Rightarrow> string + unit" where
  "validate_credit event =
     rbind (ensure (event_u64 event ''height'' \<noteq> None) ''bountyLedger: credit event requires height (unsigned integer)'') (\<lambda>_.
     rbind (ensure (hex32_str event ''c'') ''bountyLedger: credit event requires c (32-byte lowercase hex)'') (\<lambda>_.
     rbind (ensure (nonempty_str event ''familyId'') ''bountyLedger: credit event requires familyId'') (\<lambda>_.
     rbind (ensure (nonempty_str event ''bountyId'') ''bountyLedger: credit event requires bountyId'') (\<lambda>_.
     rbind (ensure (hex32_str event ''prover'') ''bountyLedger: credit event requires prover (32-byte lowercase hex)'') (\<lambda>_.
     ensure (is_some_and (event_str event ''amount'') (\<lambda>s. (parse_word s :: u128 option) \<noteq> None))
       ''bountyLedger: credit event requires amount (u128 decimal string)'')))))"

definition validate_proof_event :: "json \<Rightarrow> string + unit" where
  "validate_proof_event event =
     rbind (ensure (hex32_str event ''proofHash'') ''bountyLedger: proof event requires proofHash (32-byte lowercase hex)'') (\<lambda>_.
     rbind (ensure (hex32_str event ''solverPk'') ''bountyLedger: proof event requires solverPk (32-byte lowercase hex)'') (\<lambda>_.
     ensure (is_some_and (json_get event ''accepted'') json_is_boolean)
       ''bountyLedger: proof event requires accepted (boolean)''))"

definition validate_status_change :: "json \<Rightarrow> string + unit" where
  "validate_status_change event =
     rbind (ensure (is_some_and (event_str event ''prevStatus'') is_status)
       ''bountyLedger: status_change event requires prevStatus'') (\<lambda>_.
     ensure (is_some_and (event_str event ''newStatus'') is_status)
       ''bountyLedger: status_change event requires newStatus'')"

definition str_or_empty :: "json \<Rightarrow> string \<Rightarrow> string" where
  "str_or_empty event key = (case event_str event key of Some s \<Rightarrow> s | None \<Rightarrow> [])"

text \<open>The embedded bounty of an announcement must agree with the flat index fields.\<close>

definition validate_create :: "json \<Rightarrow> string + unit" where
  "validate_create event =
     (case Option.bind (json_get event ''bounty'') json_as_object of
        None \<Rightarrow> Ok ()
      | Some bounty \<Rightarrow>
          rbind (ok_or (Option.bind (map_of bounty ''id'') json_as_str) ''bountyLedger: create event bounty.id missing'') (\<lambda>bounty_id.
          let work_id = str_or_empty event ''workId'' in
          rbind (ensure (bounty_id = work_id)
            (''bountyLedger: create event workId/bounty.id mismatch ('' @ work_id @ '' vs '' @ bounty_id @ '')'')) (\<lambda>_.
          rbind (ok_or (Option.bind (map_of bounty ''problemHash'') json_as_str)
            ''bountyLedger: create event bounty.problemHash missing'') (\<lambda>bounty_problem_hash.
          rbind (ensure (bounty_problem_hash = str_or_empty event ''problemHash'')
            ''bountyLedger: create event problemHash mismatch with bounty.problemHash'') (\<lambda>_.
          rbind (ok_or (Option.bind (map_of bounty ''verifier'') (\<lambda>v. Option.bind (json_get v ''kind'') json_as_str))
            ''bountyLedger: create event bounty.verifier.kind missing'') (\<lambda>bounty_verifier_kind.
          ensure (bounty_verifier_kind = str_or_empty event ''verifierKind'')
            ''bountyLedger: create event verifierKind mismatch with bounty.verifier.kind''))))))"

definition validate_bounty_ledger_event :: "(json \<Rightarrow> string) \<Rightarrow> json \<Rightarrow> string + unit" where
  "validate_bounty_ledger_event to_text event =
     rbind (ensure (Option.bind (json_get event ''schemaVersion'') json_as_i64 = Some 1)
       (''bountyLedger: unsupported schemaVersion '' @
        (case json_get event ''schemaVersion'' of Some v \<Rightarrow> render_scalar to_text v | None \<Rightarrow> ''undefined'') @
        '' (only v1 accepted)'')) (\<lambda>_.
     let kind = str_or_empty event ''kind'' in
     rbind (ensure (kind \<in> set EVENT_KINDS) (''bountyLedger: unknown event kind: '' @ kind)) (\<lambda>_.
     if kind = ''share_promoted'' then validate_share_promoted event
     else if kind = ''credit'' then validate_credit event
     else
       rbind (ensure (nonempty_str event ''workId'') ''bountyLedger: workId must be a non-empty string'') (\<lambda>_.
       rbind (ensure (hex32_str event ''problemHash'') ''bountyLedger: problemHash must be 32-byte lowercase hex'') (\<lambda>_.
       rbind (ensure (nonempty_str event ''verifierKind'') ''bountyLedger: verifierKind must be a non-empty string'') (\<lambda>_.
       rbind (ensure (is_some_and (Option.bind (json_get event ''ts'') json_as_i64) (\<lambda>ts. \<not> ts < 0))
         ''bountyLedger: ts must be a non-negative integer (unix ms)'') (\<lambda>_.
       rbind (if kind = ''proof'' then validate_proof_event event else Ok ()) (\<lambda>_.
       rbind (if kind = ''status_change'' then validate_status_change event else Ok ()) (\<lambda>_.
       if kind = ''create'' then validate_create event else Ok ()))))))))"

section \<open>The in-memory ledger\<close>

record bounty_event_ledger =
  be_events :: "json list"
  be_by_work_id :: "(string, json list) btree"
  be_by_solver_pk :: "(string, json list) btree"
  be_by_verifier_kind :: "(string, json list) btree"

definition event_ledger_new :: bounty_event_ledger where
  "event_ledger_new = \<lparr>be_events = [], be_by_work_id = [], be_by_solver_pk = [], be_by_verifier_kind = []\<rparr>"

definition push_or_create :: "(string, json list) btree \<Rightarrow> string \<Rightarrow> json \<Rightarrow> (string, json list) btree" where
  "push_or_create m key event = bt_insert key (bt_get_or [] m key @ [event]) m"

text \<open>The outer option is a panic: the two \<open>expect\<close> calls.\<close>

definition event_ledger_append ::
    "(json \<Rightarrow> string) \<Rightarrow> bounty_event_ledger \<Rightarrow> json \<Rightarrow> (string + bounty_event_ledger) option" where
  "event_ledger_append to_text l event =
     (case validate_bounty_ledger_event to_text event of
        Inl e \<Rightarrow> Some (Err e)
      | Inr _ \<Rightarrow>
          Option.bind (event_str event ''workId'') (\<lambda>work_id.
          Option.bind (event_str event ''verifierKind'') (\<lambda>verifier_kind.
          Some (Ok (l\<lparr>be_by_work_id := push_or_create (be_by_work_id l) work_id event,
                be_by_verifier_kind := push_or_create (be_by_verifier_kind l) verifier_kind event,
                be_by_solver_pk :=
                  (if event_str event ''kind'' = Some ''proof''
                   then (case event_str event ''solverPk'' of
                           Some solver_pk \<Rightarrow> push_or_create (be_by_solver_pk l) solver_pk event
                         | None \<Rightarrow> be_by_solver_pk l)
                   else be_by_solver_pk l),
                be_events := be_events l @ [event]\<rparr>)))))"

definition get_all :: "bounty_event_ledger \<Rightarrow> json list" where
  "get_all l = be_events l"

definition get_by_work_id :: "bounty_event_ledger \<Rightarrow> string \<Rightarrow> json list" where
  "get_by_work_id l work_id = bt_get_or [] (be_by_work_id l) work_id"

definition get_by_solver_pk :: "bounty_event_ledger \<Rightarrow> string \<Rightarrow> json list" where
  "get_by_solver_pk l pk = bt_get_or [] (be_by_solver_pk l) pk"

definition get_by_verifier_kind :: "bounty_event_ledger \<Rightarrow> string \<Rightarrow> json list" where
  "get_by_verifier_kind l kind = bt_get_or [] (be_by_verifier_kind l) kind"

definition event_ledger_size :: "bounty_event_ledger \<Rightarrow> nat" where
  "event_ledger_size l = length (be_events l)"

section \<open>The indices\<close>

definition event_ledger_ok :: "bounty_event_ledger \<Rightarrow> bool" where
  "event_ledger_ok l \<longleftrightarrow>
     bt_wf (be_by_work_id l) \<and> bt_wf (be_by_solver_pk l) \<and> bt_wf (be_by_verifier_kind l) \<and>
     (\<forall>k. get_by_work_id l k = filter (\<lambda>e. event_str e ''workId'' = Some k) (be_events l)) \<and>
     (\<forall>k. get_by_verifier_kind l k = filter (\<lambda>e. event_str e ''verifierKind'' = Some k) (be_events l)) \<and>
     (\<forall>k. get_by_solver_pk l k =
        filter (\<lambda>e. event_str e ''kind'' = Some ''proof'' \<and> event_str e ''solverPk'' = Some k) (be_events l))"

lemma push_or_create_get:
  "bt_wf m \<Longrightarrow> bt_get_or [] (push_or_create m key event) k = bt_get_or [] m k @ (if k = key then [event] else [])"
  by (simp add: push_or_create_def bt_get_or_insert)

lemma event_ledger_ok_new: "event_ledger_ok event_ledger_new"
  by (simp add: event_ledger_ok_def event_ledger_new_def get_by_work_id_def get_by_solver_pk_def get_by_verifier_kind_def bt_get_or_def)

text \<open>An append keeps each index equal to the events that it indexes.\<close>

lemma event_ledger_append_ok:
  assumes "event_ledger_ok l" and "event_ledger_append to_text l event = Some (Inr l')"
  shows "event_ledger_ok l' \<and> get_all l' = get_all l @ [event]"
proof -
  from assms(2) obtain w v where w: "event_str event ''workId'' = Some w" "event_str event ''verifierKind'' = Some v"
    and l': "l' = l\<lparr>be_by_work_id := push_or_create (be_by_work_id l) w event,
                be_by_verifier_kind := push_or_create (be_by_verifier_kind l) v event,
                be_by_solver_pk :=
                  (if event_str event ''kind'' = Some ''proof''
                   then (case event_str event ''solverPk'' of
                           Some solver_pk \<Rightarrow> push_or_create (be_by_solver_pk l) solver_pk event
                         | None \<Rightarrow> be_by_solver_pk l)
                   else be_by_solver_pk l),
                be_events := be_events l @ [event]\<rparr>"
    by (auto simp: event_ledger_append_def bind_eq_Some_conv split: sum.split_asm)
  show ?thesis
    using assms(1) w unfolding l' event_ledger_ok_def get_by_work_id_def get_by_solver_pk_def get_by_verifier_kind_def get_all_def
    by (cases "event_str event ''solverPk''")
      (auto simp: push_or_create_get push_or_create_def bt_wf_insert bt_get_or_insert)
qed

text \<open>
  A credit row passes the contract without a \<open>workId\<close>, and appending it to the in-memory ledger
  panics.
\<close>

definition ex_credit_event :: json where
  "ex_credit_event = JObject [(''amount'', JString ''7''), (''bountyId'', JString ''b1''), (''c'', JString (replicate 64 (CHR ''0''))),
     (''familyId'', JString ''f''), (''height'', JU64 3), (''kind'', JString ''credit''),
     (''prover'', JString (replicate 64 (CHR ''0''))), (''schemaVersion'', JU64 1)]"

lemma credit_append_panics:
  "validate_bounty_ledger_event to_text ex_credit_event = Ok () \<and> event_ledger_append to_text l ex_credit_event = None"
proof -
  have "validate_bounty_ledger_event to_text ex_credit_event = Ok ()"
    by (simp add: validate_bounty_ledger_event_def ex_credit_event_def str_or_empty_def event_str_def EVENT_KINDS_def
        validate_credit_def event_u64_def hex32_str_def nonempty_str_def is_some_and_def is_hex32_def HEX32_LEN_def
        list_all_length is_lower_hex_def parse_word_def parse_uint_def digit_val_def Let_def)
  then show ?thesis by (simp add: event_ledger_append_def event_str_def ex_credit_event_def)
qed

end
