(* ===== verification/Share_Authorization.thy ===== *)
theory Share_Authorization
  imports Block
begin

text \<open>
  share_authorization.rs: verification of the signed work authorization that share evidence carries,
  and the policy of the networks that require one.
\<close>

definition SIGNER_WORK_V2_SCHEMA :: string where "SIGNER_WORK_V2_SCHEMA = ''boole.signer.work.v2''"
definition SIGNER_WORK_ROUTE :: string where "SIGNER_WORK_ROUTE = ''/submit''"
definition AUTHORIZATION_REQUIRED_NETWORK_ID :: string where "AUTHORIZATION_REQUIRED_NETWORK_ID = ''boole-testnet-2''"

record verified_share_authorization =
  va_signer_pk :: string
  va_reward_recipient :: string
  va_work_pk :: string
  va_work_n :: string
  va_work_j :: string
  va_work_c :: string
  va_work_bytes_hex :: string
  va_network_id :: "string option"

datatype authorization_error =
    AuthSchema string
  | AuthPayloadNotObject
  | AuthPayloadField string
  | AuthPayloadSchema string
  | AuthRoute string
  | AuthWorkPayloadMissing
  | AuthWorkPayloadNotObject
  | AuthWorkField string
  | AuthRequestHash
  | AuthRewardRecipient hex_error
  | AuthSignatureInvalid
  | AuthSignatureError envelope_error
  | AuthWorkBytes string
  | AuthRequired
  | AuthNetwork "string option" string

definition payload_str :: "json \<Rightarrow> string \<Rightarrow> authorization_error + string" where
  "payload_str payload field = ok_or (Option.bind (json_get payload field) json_as_str) (AuthPayloadField field)"

definition work_payload_str :: "json \<Rightarrow> string \<Rightarrow> authorization_error + string" where
  "work_payload_str work_payload field =
     ok_or (Option.bind (json_get work_payload field) json_as_str) (AuthWorkField field)"

definition verify_share_work_authorization ::
    "ext \<Rightarrow> share_work_authorization \<Rightarrow> authorization_error + verified_share_authorization" where
  "verify_share_work_authorization E auth =
     (let payload = wa_payload auth in
     rbind (ensure (wa_schema auth = SIGNED_ENVELOPE_SCHEMA) (AuthSchema (wa_schema auth))) (\<lambda>_.
     rbind (ensure (json_is_object payload) AuthPayloadNotObject) (\<lambda>_.
     rbind (payload_str payload ''schema'') (\<lambda>payload_schema.
     rbind (ensure (payload_schema = SIGNER_WORK_V2_SCHEMA) (AuthPayloadSchema payload_schema)) (\<lambda>_.
     rbind (payload_str payload ''route'') (\<lambda>route.
     rbind (ensure (route = SIGNER_WORK_ROUTE) (AuthRoute route)) (\<lambda>_.
     rbind (ok_or (json_get payload ''workPayload'') AuthWorkPayloadMissing) (\<lambda>work_payload.
     rbind (ensure (json_is_object work_payload) AuthWorkPayloadNotObject) (\<lambda>_.
     rbind (payload_str payload ''requestHash'') (\<lambda>request_hash.
     rbind (ensure (request_hash = canonical_payload_hash_hex E work_payload) AuthRequestHash) (\<lambda>_.
     rbind (payload_str payload ''rewardRecipient'') (\<lambda>reward_recipient.
     rbind (map_err AuthRewardRecipient (hex32_from_hex E reward_recipient)) (\<lambda>_.
     rbind (case verify_signature_with_network E (wa_pk auth) (wa_signature auth) payload (wa_network_id auth) of
              Inr True \<Rightarrow> Ok ()
            | Inr False \<Rightarrow> Err AuthSignatureInvalid
            | Inl err \<Rightarrow> Err (AuthSignatureError err)) (\<lambda>_.
     rbind (work_payload_str work_payload ''bytes'') (\<lambda>bytes.
     rbind (map_err AuthWorkBytes (ext_hex_decode E bytes)) (\<lambda>decoded.
     rbind (work_payload_str work_payload ''pk'') (\<lambda>pk.
     rbind (work_payload_str work_payload ''n'') (\<lambda>n.
     rbind (work_payload_str work_payload ''j'') (\<lambda>j.
     rbind (work_payload_str work_payload ''c'') (\<lambda>c.
     Ok \<lparr>va_signer_pk = wa_pk auth, va_reward_recipient = reward_recipient, va_work_pk = pk, va_work_n = n,
         va_work_j = j, va_work_c = c, va_work_bytes_hex = ext_hex_encode E decoded,
         va_network_id = wa_network_id auth\<rparr>))))))))))))))))))))"

definition verify_share_work_authorization_for_network ::
    "ext \<Rightarrow> share_work_authorization option \<Rightarrow> string option \<Rightarrow> authorization_error + verified_share_authorization option" where
  "verify_share_work_authorization_for_network E auth expected_network_id =
     (case auth of
        None \<Rightarrow>
          if expected_network_id = Some AUTHORIZATION_REQUIRED_NETWORK_ID then Err AuthRequired else Ok None
      | Some auth \<Rightarrow>
          rbind (verify_share_work_authorization E auth) (\<lambda>verified.
          rbind (case expected_network_id of
                   None \<Rightarrow> Ok ()
                 | Some expected \<Rightarrow> ensure (va_network_id verified = Some expected) (AuthNetwork (va_network_id verified) expected)) (\<lambda>_.
          Ok (Some verified))))"

lemma verify_auth_ids:
  "verify_share_work_authorization E auth = Inr v \<Longrightarrow> va_signer_pk v = wa_pk auth \<and> va_network_id v = wa_network_id auth"
  by (auto simp: verify_share_work_authorization_def Let_def rbind_eq_Inr)

lemma verify_auth_for_network_Some:
  "verify_share_work_authorization_for_network E (Some a) net = Inr (Some v) \<Longrightarrow> verify_share_work_authorization E a = Inr v"
  by (auto simp: verify_share_work_authorization_for_network_def rbind_eq_Inr)

lemma verify_auth_for_network_present:
  "verify_share_work_authorization_for_network E (Some a) net = Inr x \<Longrightarrow> x \<noteq> None"
  by (auto simp: verify_share_work_authorization_for_network_def rbind_eq_Inr)

end
