(* ===== verification/Genesis.thy ===== *)
theory Genesis
  imports Difficulty
begin

text \<open>
  genesis.rs and rules.rs: the consensus rule constants, the launch declaration of a network with its
  hash, and the compiled-in networks.
\<close>

section \<open>Rule constants\<close>

definition CONSENSUS_RULE_VERSION :: u32 where "CONSENSUS_RULE_VERSION = 3"
definition MIN_SHARE_SCORE_MULTIPLIER_NANOS :: u64 where "MIN_SHARE_SCORE_MULTIPLIER_NANOS = 1000000000"
definition BASE_LANE_MAX_HEARTBEATS :: u64 where "BASE_LANE_MAX_HEARTBEATS = 400000"
definition BASE_LANE_MAX_REC_DEPTH :: u64 where "BASE_LANE_MAX_REC_DEPTH = 512"
definition BASE_LANE_MAX_PROOF_BYTES :: u64 where "BASE_LANE_MAX_PROOF_BYTES = 16384"
definition BASE_LANE_MAX_DECLS :: u64 where "BASE_LANE_MAX_DECLS = 1024"

section \<open>The launch declaration\<close>

record genesis_params =
  gp_consensus_rule_version :: u32
  gp_t_block :: string
  gp_t_share :: string
  gp_k_max :: u64
  gp_retarget :: "difficulty_retarget_policy option"
  gp_seed_binding_required :: bool
  gp_checker_artifact_hash :: "string option"
  gp_family_manifest_root :: "string option"

record genesis_initial_state =
  gi_genesis_c :: string

record genesis_spec =
  gs_network_id :: string
  gs_params :: genesis_params
  gs_initial_state :: genesis_initial_state

definition json_option :: "('a \<Rightarrow> json) \<Rightarrow> 'a option \<Rightarrow> json" where
  "json_option f x = (case x of None \<Rightarrow> JNull | Some v \<Rightarrow> f v)"

definition skip_none :: "string \<Rightarrow> string option \<Rightarrow> (string \<times> json) list" where
  "skip_none key x = (case x of None \<Rightarrow> [] | Some s \<Rightarrow> [(key, JString s)])"

definition genesis_params_json :: "genesis_params \<Rightarrow> json" where
  "genesis_params_json p = JObject
     ([(''consensusRuleVersion'', JU64 (ucast (gp_consensus_rule_version p))), (''tBlock'', JString (gp_t_block p)),
       (''tShare'', JString (gp_t_share p)), (''kMax'', JU64 (gp_k_max p)),
       (''retarget'', json_option retarget_policy_json (gp_retarget p)),
       (''seedBindingRequired'', JBool (gp_seed_binding_required p))] @
      skip_none ''checkerArtifactHash'' (gp_checker_artifact_hash p) @
      skip_none ''familyManifestRoot'' (gp_family_manifest_root p))"

definition genesis_initial_state_json :: "genesis_initial_state \<Rightarrow> json" where
  "genesis_initial_state_json s = JObject [(''genesisC'', JString (gi_genesis_c s))]"

definition genesis_spec_json :: "genesis_spec \<Rightarrow> json" where
  "genesis_spec_json s = JObject
     [(''networkId'', JString (gs_network_id s)), (''params'', genesis_params_json (gs_params s)),
      (''initialState'', genesis_initial_state_json (gs_initial_state s))]"

definition genesis_spec_hash :: "ext \<Rightarrow> genesis_spec \<Rightarrow> u8 list" where
  "genesis_spec_hash E s = ext_blake3 E (as_bytes ''genesis.v1'' @ canonicalize E (genesis_spec_json s))"

section \<open>Compiled-in networks\<close>

definition network_genesis_preset :: "string \<Rightarrow> genesis_spec option" where
  "network_genesis_preset network_id =
     (let all_zero_anchor = replicate 64 (CHR ''0'');
          t_max = ''0x'' @ replicate 64 (CHR ''f'');
          t_eased = ''0x'' @ replicate 63 (CHR ''f'') @ ''e''
      in if network_id = ''boole-dev'' then Some
           \<lparr>gs_network_id = ''boole-dev'',
            gs_params = \<lparr>gp_consensus_rule_version = CONSENSUS_RULE_VERSION, gp_t_block = t_eased, gp_t_share = t_max,
              gp_k_max = 4, gp_retarget = None, gp_seed_binding_required = False,
              gp_checker_artifact_hash = None, gp_family_manifest_root = None\<rparr>,
            gs_initial_state = \<lparr>gi_genesis_c = all_zero_anchor\<rparr>\<rparr>
         else if network_id = ''boole-testnet-2'' then Some
           \<lparr>gs_network_id = ''boole-testnet-2'',
            gs_params = \<lparr>gp_consensus_rule_version = CONSENSUS_RULE_VERSION, gp_t_block = t_eased, gp_t_share = t_max,
              gp_k_max = 4,
              gp_retarget = Some \<lparr>rp_target_block_ms = 60000, rp_retarget_every_blocks = 2, rp_max_adjustment_factor = 4\<rparr>,
              gp_seed_binding_required = True,
              gp_checker_artifact_hash = Some ''f9da3a1c5bcb605a26c8f778e2661e471398864c69393079aed461dd1453d7b4'',
              gp_family_manifest_root = None\<rparr>,
            gs_initial_state = \<lparr>gi_genesis_c = all_zero_anchor\<rparr>\<rparr>
         else None)"

end
