(* ===== verification/Block_Builder.thy ===== *)
theory Block_Builder
  imports Share_Authorization Genesis Config "HOL-Library.Product_Lexorder"
begin

text \<open>
  block_builder.rs: the choice of the shares of a block among the candidates of the pool. Candidates
  are screened, ordered by score, freed of duplicate proofs, cut to the best \<open>k_max\<close>, checked against
  the accepted kernel tags and put into canonical order; the proposer is the first share below the
  block target.
\<close>

section \<open>Comparators\<close>

text \<open>\<open>Ord::cmp\<close>, \<open>Ordering::then_with\<close> and the stable \<open>slice::sort_by\<close>.\<close>

datatype ordering = Less | Equal | Greater

definition cmp :: "'a::linorder \<Rightarrow> 'a \<Rightarrow> ordering" where
  "cmp a b = (if a < b then Less else if a = b then Equal else Greater)"

fun then_with :: "ordering \<Rightarrow> ordering \<Rightarrow> ordering" where
  "then_with Equal o' = o'"
| "then_with o1 o' = o1"

fun insert_by :: "('a \<Rightarrow> 'a \<Rightarrow> ordering) \<Rightarrow> 'a \<Rightarrow> 'a list \<Rightarrow> 'a list" where
  "insert_by c x [] = [x]"
| "insert_by c x (y # ys) = (if c x y = Greater then y # insert_by c x ys else x # y # ys)"

definition sort_by :: "('a \<Rightarrow> 'a \<Rightarrow> ordering) \<Rightarrow> 'a list \<Rightarrow> 'a list" where
  "sort_by c xs = foldr (insert_by c) xs []"

lemma insert_by_key: "(\<And>a b. c a b = cmp (f a) (f b)) \<Longrightarrow> insert_by c x xs = insort_key f x xs"
  by (induction xs) (auto simp: cmp_def)

lemma sort_by_key: "(\<And>a b. c a b = cmp (f a) (f b)) \<Longrightarrow> sort_by c xs = sort_key f xs"
  unfolding sort_by_def sort_key_def by (induction xs) (simp_all add: insert_by_key)

section \<open>Candidates\<close>

record candidate_share =
  cs_label :: string
  cs_pk :: string
  cs_reward_pk :: string
  cs_n :: string
  cs_j :: string
  cs_c :: string
  cs_share_hash :: string
  cs_score :: string
  cs_canon_tag :: u8
  cs_canon_hash :: string
  cs_proof_package :: string
  cs_seed_hex :: string
  cs_signed_work :: "share_work_authorization option"

record block_builder_config =
  bc_t_block :: string
  bc_t_share :: string
  bc_min_share_score :: nat
  bc_min_share_score_multiplier_nanos :: u64
  bc_k_max :: nat
  bc_difficulty_epoch :: u64
  bc_difficulty_weight :: string

datatype builder_error =
    BuilderWeight weight_error
  | BuilderTarget string
  | InvalidScore string
  | Hex256TooLong
  | Hex256NotHex

text \<open>\<open>format!("0x{:064x}", n)\<close>\<close>

definition fmt_0x064 :: "ext \<Rightarrow> nat \<Rightarrow> string" where
  "fmt_0x064 E n = ''0x'' @ ext_biguint_fmt_064x E n"

definition from_policy_with_t_block ::
    "ext \<Rightarrow> calibration_policy \<Rightarrow> string \<Rightarrow> u64 \<Rightarrow> builder_error + block_builder_config" where
  "from_policy_with_t_block E policy t_block difficulty_epoch =
     rbind (map_err BuilderWeight (min_share_score (ct_t_share (cp_thresholds policy)) MIN_SHARE_SCORE_MULTIPLIER_NANOS)) (\<lambda>mss.
     rbind (ok_or (parse_biguint_hex E t_block) (BuilderTarget t_block)) (\<lambda>t_block_value.
     rbind (map_err BuilderWeight (difficulty_weight t_block_value)) (\<lambda>weight.
     Ok \<lparr>bc_t_block = t_block, bc_t_share = fmt_0x064 E (ct_t_share (cp_thresholds policy)), bc_min_share_score = mss,
         bc_min_share_score_multiplier_nanos = MIN_SHARE_SCORE_MULTIPLIER_NANOS, bc_k_max = cp_k_max policy,
         bc_difficulty_epoch = difficulty_epoch, bc_difficulty_weight = ext_biguint_to_string E weight\<rparr>)))"

definition from_policy :: "ext \<Rightarrow> calibration_policy \<Rightarrow> builder_error + block_builder_config" where
  "from_policy E policy = from_policy_with_t_block E policy (fmt_0x064 E (ct_t_block (cp_thresholds policy))) 0"

section \<open>Orders\<close>

definition candidate_order_key :: "candidate_share \<Rightarrow> canonical_order_key" where
  "candidate_order_key s = (cs_pk s, cs_n s, cs_j s)"

definition compare_canonical :: "canonical_order_key \<Rightarrow> canonical_order_key \<Rightarrow> ordering" where
  "compare_canonical = (\<lambda>(pk, n, j) (pk', n', j'). then_with (then_with (cmp pk pk') (cmp n n')) (cmp j j'))"

definition parse_score_decimal :: "ext \<Rightarrow> string \<Rightarrow> builder_error + nat" where
  "parse_score_decimal E value = ok_or (ext_biguint_parse E value) (InvalidScore value)"

definition score_or_zero :: "ext \<Rightarrow> candidate_share \<Rightarrow> nat" where
  "score_or_zero E s = (case parse_score_decimal E (cs_score s) of Inl _ \<Rightarrow> 0 | Inr v \<Rightarrow> v)"

definition compare_preselection :: "ext \<Rightarrow> candidate_share \<Rightarrow> candidate_share \<Rightarrow> ordering" where
  "compare_preselection E a b =
     then_with (cmp (score_or_zero E b) (score_or_zero E a)) (compare_canonical (candidate_order_key a) (candidate_order_key b))"

section \<open>The proposer\<close>

definition is_ascii_hexdigit :: "char \<Rightarrow> bool" where
  "is_ascii_hexdigit ch \<longleftrightarrow> hex_digit ch \<noteq> None"

definition to_ascii_lowercase :: "char \<Rightarrow> char" where
  "to_ascii_lowercase ch = (let b = (of_char ch :: nat) in if 65 \<le> b \<and> b \<le> 90 then char_of (b + 32) else ch)"

definition normalize_hex256 :: "string \<Rightarrow> builder_error + string" where
  "normalize_hex256 value =
     (let without_prefix = strip_0x value in
      if length without_prefix > 64 then Err Hex256TooLong
      else if \<not> list_all is_ascii_hexdigit without_prefix then Err Hex256NotHex
      else Ok (replicate (64 - length without_prefix) (CHR ''0'') @ map to_ascii_lowercase without_prefix))"

definition select_qualifying_proposer :: "string list \<Rightarrow> string \<Rightarrow> builder_error + nat option \<times> nat" where
  "select_qualifying_proposer share_hashes t_block =
     rbind (normalize_hex256 t_block) (\<lambda>normalized_t_block.
     try_fold (\<lambda>(winner_index, qualifying_count) (idx, share_hash).
         rbind (normalize_hex256 share_hash) (\<lambda>normalized.
         if normalized < normalized_t_block
         then Ok (if winner_index = None then Some idx else winner_index, qualifying_count + 1)
         else Ok (winner_index, qualifying_count)))
       (None, 0) (enumerate 0 share_hashes))"

section \<open>Selection\<close>

record built_block_selection =
  bb_selected :: "candidate_share list"
  bb_proposer_index :: nat
  bb_tied_proposer_count :: nat
  bb_dropped_below_min_score :: nat
  bb_dropped_kernel_reject :: nat
  bb_truncated_by_kmax :: nat
  bb_kernel_checked_tags :: "u8 list"
  bb_kernel_accepted :: "bool list"
  bb_promoted_bounty_shares :: "promoted_bounty_share list"

datatype build_selection_result =
    SelectionOk built_block_selection
  | NoProposer nat "u8 list" "bool list"

definition reward_sink :: "candidate_share \<Rightarrow> string" where
  "reward_sink s = (if cs_reward_pk s = [] then cs_pk s else cs_reward_pk s)"

text \<open>A verified authorization must describe the candidate exactly.\<close>

definition authorization_matches :: "verified_share_authorization option \<Rightarrow> candidate_share \<Rightarrow> bool" where
  "authorization_matches verified s =
     (case verified of
        None \<Rightarrow> True
      | Some v \<Rightarrow> va_signer_pk v = cs_pk s \<and> va_work_pk v = cs_pk s \<and> va_work_n v = cs_n s \<and> va_work_j v = cs_j s \<and>
          va_work_c v = cs_c s \<and> va_work_bytes_hex v = cs_proof_package s \<and> va_reward_recipient v = reward_sink s)"

definition screen_share ::
    "ext \<Rightarrow> string \<Rightarrow> block_builder_config \<Rightarrow> string set \<Rightarrow> string option \<Rightarrow>
     nat \<times> candidate_share list \<Rightarrow> candidate_share \<Rightarrow> builder_error + nat \<times> candidate_share list" where
  "screen_share E chain_head cfg credited_canon_hashes expected_network_id = (\<lambda>(dropped_below_min_score, survivors) share.
     if cs_c share \<noteq> chain_head then Ok (dropped_below_min_score, survivors)
     else if cs_canon_hash share \<noteq> [] \<and> cs_canon_hash share \<in> credited_canon_hashes
     then Ok (dropped_below_min_score, survivors)
     else case verify_share_work_authorization_for_network E (cs_signed_work share) expected_network_id of
       Inl _ \<Rightarrow> Ok (dropped_below_min_score, survivors)
     | Inr verified \<Rightarrow>
         if \<not> authorization_matches verified share then Ok (dropped_below_min_score, survivors)
         else rbind (parse_score_decimal E (cs_score share)) (\<lambda>score.
           if score < bc_min_share_score cfg then Ok (dropped_below_min_score + 1, survivors)
           else Ok (dropped_below_min_score, survivors @ [share])))"

text \<open>\<open>retain\<close> with the set of proof hashes already kept.\<close>

fun retain_fresh :: "string set \<Rightarrow> candidate_share list \<Rightarrow> candidate_share list" where
  "retain_fresh seen [] = []"
| "retain_fresh seen (s # ss) =
     (if cs_canon_hash s = [] then s # retain_fresh seen ss
      else if cs_canon_hash s \<in> seen then retain_fresh seen ss
      else s # retain_fresh (insert (cs_canon_hash s) seen) ss)"

definition build_block_selection_for_network ::
    "ext \<Rightarrow> string \<Rightarrow> candidate_share list \<Rightarrow> block_builder_config \<Rightarrow> u8 set \<Rightarrow> string set \<Rightarrow>
     promoted_bounty_share list \<Rightarrow> string option \<Rightarrow> builder_error + build_selection_result" where
  "build_block_selection_for_network E chain_head shares cfg accepted_canon_tags credited_canon_hashes
       promoted_bounty_shares expected_network_id =
     rbind (normalize_hex256 (bc_t_block cfg)) (\<lambda>t_block.
     rbind (try_fold (screen_share E chain_head cfg credited_canon_hashes expected_network_id) (0, []) shares)
       (\<lambda>(dropped_below_min_score, screened).
     let score_survivors = retain_fresh {} (sort_by (compare_preselection E) screened);
         truncated_by_kmax = length score_survivors - bc_k_max cfg;
         preselected = take (bc_k_max cfg) score_survivors;
         kernel_checked_tags = map cs_canon_tag preselected;
         kernel_accepted = map (\<lambda>s. cs_canon_tag s \<in> accepted_canon_tags) preselected;
         dropped_kernel_reject = length (filter (\<lambda>s. cs_canon_tag s \<notin> accepted_canon_tags) preselected);
         survivors = sort_by (\<lambda>a b. compare_canonical (candidate_order_key a) (candidate_order_key b))
           (filter (\<lambda>s. cs_canon_tag s \<in> accepted_canon_tags) preselected)
     in rbind (select_qualifying_proposer (map cs_share_hash survivors) t_block) (\<lambda>(winner_index, tied_proposer_count).
        case winner_index of
          None \<Rightarrow> Ok (NoProposer dropped_kernel_reject kernel_checked_tags kernel_accepted)
        | Some proposer_index \<Rightarrow> Ok (SelectionOk
            \<lparr>bb_selected = survivors, bb_proposer_index = proposer_index, bb_tied_proposer_count = tied_proposer_count,
             bb_dropped_below_min_score = dropped_below_min_score, bb_dropped_kernel_reject = dropped_kernel_reject,
             bb_truncated_by_kmax = truncated_by_kmax, bb_kernel_checked_tags = kernel_checked_tags,
             bb_kernel_accepted = kernel_accepted, bb_promoted_bounty_shares = promoted_bounty_shares\<rparr>))))"

definition build_block_selection ::
    "ext \<Rightarrow> string \<Rightarrow> candidate_share list \<Rightarrow> block_builder_config \<Rightarrow> u8 set \<Rightarrow> string set \<Rightarrow>
     promoted_bounty_share list \<Rightarrow> builder_error + build_selection_result" where
  "build_block_selection E chain_head shares cfg accepted_canon_tags credited_canon_hashes promoted_bounty_shares =
     build_block_selection_for_network E chain_head shares cfg accepted_canon_tags credited_canon_hashes promoted_bounty_shares None"

section \<open>Orders: lemmas\<close>

lemma compare_canonical_cmp: "compare_canonical a b = cmp a b"
  by (cases a; cases b) (auto simp: compare_canonical_def cmp_def less_prod_def)

definition preselection_key :: "ext \<Rightarrow> candidate_share \<Rightarrow> int \<times> canonical_order_key" where
  "preselection_key E s = (- int (score_or_zero E s), candidate_order_key s)"

lemma compare_preselection_cmp: "compare_preselection E a b = cmp (preselection_key E a) (preselection_key E b)"
  by (auto simp: compare_preselection_def preselection_key_def compare_canonical_cmp cmp_def less_prod_def)

lemma sort_by_preselection: "sort_by (compare_preselection E) xs = sort_key (preselection_key E) xs"
  by (rule sort_by_key) (rule compare_preselection_cmp)

lemma sort_by_canonical:
  "sort_by (\<lambda>a b. compare_canonical (candidate_order_key a) (candidate_order_key b)) xs = sort_key candidate_order_key xs"
  by (rule sort_by_key) (rule compare_canonical_cmp)

end
