(* ===== verification/Replay_Evidence.thy ===== *)
theory Replay_Evidence
  imports Block_Builder Validator
begin

text \<open>
  replay_evidence.rs: what replay re-derives from a block alone. Every selected share must carry
  evidence from which its hash, its score, its seed and its authorization follow, the shares must be
  in canonical order, and the proposer must be the share that the builder's rule names.
\<close>

datatype evidence_policy = Strict | AllowLegacyEvidenceLess

datatype evidence_error =
    EvidenceRequired
  | EvidenceCount
  | EvidenceMultiplier u64
  | EvidenceTShare
  | EvidenceWeight weight_error
  | EvidenceMinScore
  | EvidenceC nat
  | EvidencePk nat
  | EvidencePackageHex nat
  | EvidenceResourceLimit nat validation_reason
  | EvidencePackage nat validation_reason
  | EvidenceCanonHash nat
  | EvidenceHex hex_error
  | EvidenceShareHash nat
  | EvidenceScore nat
  | EvidenceSeed nat
  | EvidenceAuthorization nat authorization_error
  | EvidenceSigner nat
  | EvidenceWorkPk nat
  | EvidenceWork nat
  | EvidenceRewardPk nat
  | EvidenceIndexPanic
  | SelectionOrder nat
  | SelectionTarget builder_error
  | SelectionNoProposer
  | SelectionProposer
  | SelectionAuthorization authorization_error
  | SelectionProposerReward

text \<open>Slice indexing; out of range is a panic.\<close>

definition index :: "'a list \<Rightarrow> nat \<Rightarrow> evidence_error + 'a" where
  "index xs i = (if i < length xs then Ok (xs ! i) else Err EvidenceIndexPanic)"

definition ev_hex32 :: "ext \<Rightarrow> string \<Rightarrow> evidence_error + u8 list" where
  "ev_hex32 E s = map_err EvidenceHex (hex32_from_hex E s)"

definition check_package :: "u8 list \<Rightarrow> nat \<Rightarrow> evidence_error + unit" where
  "check_package package_bytes idx =
     (case validate_proof_package_with_limits package_bytes (unat BASE_LANE_MAX_PROOF_BYTES) (unat BASE_LANE_MAX_DECLS) of
        ValidationOk _ _ _ \<Rightarrow> Ok ()
      | ValidationErr reason \<Rightarrow>
          (case reason of
             TooLarge _ _ \<Rightarrow> Err (EvidenceResourceLimit idx reason)
           | TooManyDecls _ _ \<Rightarrow> Err (EvidenceResourceLimit idx reason)
           | _ \<Rightarrow> Err (EvidencePackage idx reason)))"

definition check_evidence_authorization ::
    "ext \<Rightarrow> persisted_block \<Rightarrow> string option \<Rightarrow> nat \<Rightarrow> selected_share_evidence \<Rightarrow> evidence_error + unit" where
  "check_evidence_authorization E block expected_network_id idx evidence =
     rbind (map_err (EvidenceAuthorization idx)
       (verify_share_work_authorization_for_network E (ev_signed_work evidence) expected_network_id)) (\<lambda>verified.
     case verified of
       None \<Rightarrow> Ok ()
     | Some v \<Rightarrow>
         rbind (ensure (va_signer_pk v = ev_pk evidence) (EvidenceSigner idx)) (\<lambda>_.
         rbind (ensure (va_work_pk v = ev_pk evidence) (EvidenceWorkPk idx)) (\<lambda>_.
         rbind (ensure (va_work_n v = ev_n evidence \<and> va_work_j v = ev_j evidence \<and> va_work_c v = ev_c evidence \<and>
                  va_work_bytes_hex v = ev_proof_package evidence) (EvidenceWork idx)) (\<lambda>_.
         rbind (if bl_selected_share_reward_pks block = [] then Ok (ev_pk evidence)
                else index (bl_selected_share_reward_pks block) idx) (\<lambda>committed_reward_pk.
         ensure (committed_reward_pk = va_reward_recipient v) (EvidenceRewardPk idx))))))"

definition check_evidence ::
    "ext \<Rightarrow> persisted_block \<Rightarrow> nat \<Rightarrow> string option \<Rightarrow> nat \<times> selected_share_evidence \<Rightarrow> evidence_error + unit" where
  "check_evidence E block expected_min_share_score expected_network_id = (\<lambda>(idx, evidence).
     rbind (ensure (ev_c evidence = bl_prev_c block) (EvidenceC idx)) (\<lambda>_.
     rbind (index (bl_selected_share_pks block) idx) (\<lambda>selected_pk.
     rbind (ensure (ev_pk evidence = selected_pk) (EvidencePk idx)) (\<lambda>_.
     rbind (map_err (\<lambda>_. EvidencePackageHex idx) (ext_hex_decode E (ev_proof_package evidence))) (\<lambda>package_bytes.
     rbind (check_package package_bytes idx) (\<lambda>_.
     rbind (ensure (ev_canon_hash evidence = ext_hex_encode E (ext_sha256 E package_bytes)) (EvidenceCanonHash idx)) (\<lambda>_.
     rbind (ev_hex32 E (ev_c evidence)) (\<lambda>c.
     rbind (ev_hex32 E (ev_pk evidence)) (\<lambda>pk.
     rbind (ev_hex32 E (ev_n evidence)) (\<lambda>n.
     rbind (ev_hex32 E (ev_j evidence)) (\<lambda>j.
     rbind (ev_hex32 E (ev_canon_hash evidence)) (\<lambda>canon_hash.
     let digest = share_hash E c pk n j canon_hash in
     rbind (index (bl_selected_share_hashes block) idx) (\<lambda>selected_hash.
     rbind (ensure (hex32_to_hex E digest = selected_hash) (EvidenceShareHash idx)) (\<lambda>_.
     rbind (ensure (\<not> share_score digest < expected_min_share_score) (EvidenceScore idx)) (\<lambda>_.
     rbind (ensure (\<not> (ev_seed_hex evidence \<noteq> [] \<and> find_target_seed_j_index E c pk n (ev_seed_hex evidence) = None))
              (EvidenceSeed idx)) (\<lambda>_.
     check_evidence_authorization E block expected_network_id idx evidence))))))))))))))))"

definition verify_selected_share_evidence ::
    "ext \<Rightarrow> persisted_block \<Rightarrow> evidence_policy \<Rightarrow> string option \<Rightarrow> evidence_error + unit" where
  "verify_selected_share_evidence E block policy expected_network_id =
     (if bl_selected_share_evidence block = []
      then (case policy of Strict \<Rightarrow> Err EvidenceRequired | AllowLegacyEvidenceLess \<Rightarrow> Ok ())
      else
        rbind (ensure (length (bl_selected_share_evidence block) = length (bl_selected_share_hashes block)) EvidenceCount) (\<lambda>_.
        rbind (ensure (bl_min_share_score_multiplier_nanos block = MIN_SHARE_SCORE_MULTIPLIER_NANOS)
                 (EvidenceMultiplier (bl_min_share_score_multiplier_nanos block))) (\<lambda>_.
        rbind (ok_or (parse_biguint_hex E (bl_t_share block)) EvidenceTShare) (\<lambda>t_share.
        rbind (map_err EvidenceWeight (min_share_score t_share (bl_min_share_score_multiplier_nanos block)))
          (\<lambda>expected_min_share_score.
        rbind (ensure (bl_min_share_score block = ext_biguint_to_string E expected_min_share_score) EvidenceMinScore) (\<lambda>_.
        try_for_each (check_evidence E block expected_min_share_score expected_network_id)
          (enumerate 0 (bl_selected_share_evidence block))))))))"

section \<open>Canonical selection\<close>

text \<open>\<open>windows(2).enumerate()\<close>\<close>

definition check_window :: "nat \<times> selected_share_evidence \<times> selected_share_evidence \<Rightarrow> evidence_error + unit" where
  "check_window = (\<lambda>(idx, a, b).
     ensure (compare_canonical (evidence_order_key a) (evidence_order_key b) \<noteq> Greater) (SelectionOrder idx))"

definition verify_canonical_selection :: "ext \<Rightarrow> persisted_block \<Rightarrow> evidence_error + unit" where
  "verify_canonical_selection E block =
     (let evidence = bl_selected_share_evidence block in
      if evidence = [] then Ok ()
      else
        rbind (try_for_each check_window (enumerate 0 (zip evidence (tl evidence)))) (\<lambda>_.
        rbind (map_err SelectionTarget (select_qualifying_proposer (bl_selected_share_hashes block) (bl_t_block block)))
          (\<lambda>(winner_index, _).
        rbind (ok_or winner_index SelectionNoProposer) (\<lambda>winner_index.
        rbind (index (bl_selected_share_pks block) winner_index) (\<lambda>winner_pk.
        rbind (ensure (bl_proposer_pk block = winner_pk) SelectionProposer) (\<lambda>_.
        rbind (index evidence winner_index) (\<lambda>winner.
        case ev_signed_work winner of
          None \<Rightarrow> Ok ()
        | Some auth \<Rightarrow>
            rbind (map_err SelectionAuthorization (verify_share_work_authorization E auth)) (\<lambda>verified.
            let committed_proposer_reward_pk =
                  (if bl_proposer_reward_pk block = [] then bl_proposer_pk block else bl_proposer_reward_pk block)
            in ensure (committed_proposer_reward_pk = va_reward_recipient verified) SelectionProposerReward))))))))"

end
