(* ===== verification/Bounty_Promotion.thy ===== *)
theory Bounty_Promotion
  imports Family_Manifest
begin

text \<open>
  bounty_side_pool.rs, bounty_promotion.rs and the promoted-credit records of block_builder.rs: the
  pool of verified bounty shares, the proposer's choice of shares for a block, and the settlement
  that derives the credits of committed shares from the family registry.
\<close>

section \<open>Side pool\<close>

record bounty_share =
  bs_bounty_id :: string
  bs_proof_hash :: string
  bs_prover :: string
  bs_family_id :: string
  bs_ts :: u64
  bs_reward :: u128

type_synonym bounty_side_pool = "(string, bounty_share list) btree"

definition side_pool_new :: bounty_side_pool where
  "side_pool_new = []"

definition side_pool_insert :: "bounty_share \<Rightarrow> bounty_side_pool \<Rightarrow> bounty_side_pool" where
  "side_pool_insert share p = bt_insert (bs_family_id share) (bt_get_or [] p (bs_family_id share) @ [share]) p"

definition shares_for_family :: "bounty_side_pool \<Rightarrow> string \<Rightarrow> bounty_share list" where
  "shares_for_family p family_id = bt_get_or [] p family_id"

definition family_count :: "bounty_side_pool \<Rightarrow> nat" where
  "family_count p = length p"

definition total_share_count :: "bounty_side_pool \<Rightarrow> nat" where
  "total_share_count p = sum_list (map (length \<circ> snd) p)"

definition share_matches :: "promoted_bounty_share \<Rightarrow> bounty_share \<Rightarrow> bool" where
  "share_matches entry share \<longleftrightarrow> bs_bounty_id share = pb_bounty_id entry \<and> bs_proof_hash share = pb_proof_hash entry"

definition remove_promoted_step ::
    "promoted_bounty_share \<Rightarrow> bounty_side_pool \<times> nat \<Rightarrow> bounty_side_pool \<times> nat" where
  "remove_promoted_step entry = (\<lambda>(p, removed).
     case map_of p (pb_family_id entry) of
       None \<Rightarrow> (p, removed)
     | Some bucket \<Rightarrow>
         let kept = filter (\<lambda>share. \<not> share_matches entry share) bucket in
         (if kept = [] then bt_remove (pb_family_id entry) p else bt_insert (pb_family_id entry) kept p,
          removed + (length bucket - length kept)))"

definition remove_promoted :: "bounty_side_pool \<Rightarrow> promoted_bounty_share list \<Rightarrow> bounty_side_pool \<times> nat" where
  "remove_promoted p promoted = fold remove_promoted_step promoted (p, 0)"

section \<open>Settlement\<close>

record promoted_bounty_credit =
  pc_family_id :: string
  pc_bounty_id :: string
  pc_prover :: string
  pc_amount :: string

record promoted_bounty_selection =
  sel_shares :: "promoted_bounty_share list"
  sel_credits :: "promoted_bounty_credit list"

definition SETTLEMENT_ELIGIBLE_STATUSES :: "string list" where
  "SETTLEMENT_ELIGIBLE_STATUSES = [''bounty-only'', ''experimental'', ''capped-official'', ''official'']"

definition settlement_eligible :: "family_manifest \<Rightarrow> u64 \<Rightarrow> bool" where
  "settlement_eligible manifest height \<longleftrightarrow>
     fm_activation_height manifest \<le> height \<and> fm_status manifest \<in> set SETTLEMENT_ELIGIBLE_STATUSES"

datatype settlement_error =
    UnknownFamily string
  | FamilyNotEligible string u64
  | TooManyRows string u64
  | RewardNotDecimal string
  | RowCountOverflow

text \<open>The loop state: the credits pushed so far, the rows and the budget left of each family.\<close>

type_synonym settlement_state =
  "promoted_bounty_credit list \<times> (string, u64) btree \<times> (string, u128) btree"

definition max_rows :: "family_manifest \<Rightarrow> u64" where
  "max_rows manifest = (case fm_caps manifest of None \<Rightarrow> 0 | Some c \<Rightarrow> fc_max_shares_per_block c)"

definition credit_budget :: "family_manifest \<Rightarrow> u128" where
  "credit_budget manifest =
     (case Option.bind (fm_caps manifest) (\<lambda>c. parse_word (fc_max_reward_credit_per_block c)) of
        None \<Rightarrow> 0 | Some v \<Rightarrow> v)"

definition settle_row ::
    "family_manifest_registry \<Rightarrow> u64 \<Rightarrow> settlement_state \<Rightarrow> promoted_bounty_share \<Rightarrow> settlement_error + settlement_state" where
  "settle_row registry height = (\<lambda>(credits, rows, budgets) share.
     rbind (ok_or (registry_get registry (pb_family_id share)) (UnknownFamily (pb_family_id share))) (\<lambda>manifest.
     rbind (ensure (settlement_eligible manifest height) (FamilyNotEligible (pb_family_id share) height)) (\<lambda>_.
     rbind (ok_or (checked_add (bt_get_or 0 rows (fm_family_id manifest)) 1) RowCountOverflow) (\<lambda>seen.
     let rows' = bt_insert (fm_family_id manifest) seen rows in
     rbind (ensure (\<not> seen > max_rows manifest) (TooManyRows (pb_family_id share) seen)) (\<lambda>_.
     rbind (ok_or (parse_word (pb_reward share) :: u128 option) (RewardNotDecimal (pb_reward share))) (\<lambda>reward.
     if fp_mode (fm_reward_policy manifest) = ''no_protocol_reward'' then Ok (credits, rows', budgets)
     else
       let budgets' = bt_or_insert (fm_family_id manifest) (credit_budget manifest) budgets;
           budget_left = bt_get_or 0 budgets' (fm_family_id manifest);
           credit = min reward budget_left
       in if credit > 0
          then Ok (credits @ [\<lparr>pc_family_id = pb_family_id share, pc_bounty_id = pb_bounty_id share,
                               pc_prover = pb_prover share, pc_amount = word_to_string credit\<rparr>],
                   rows', bt_insert (fm_family_id manifest) (budget_left - credit) budgets')
          else Ok (credits, rows', budgets')))))))"

definition derive_bounty_settlement ::
    "promoted_bounty_share list \<Rightarrow> family_manifest_registry \<Rightarrow> u64 \<Rightarrow> settlement_error + promoted_bounty_credit list" where
  "derive_bounty_settlement committed registry height =
     rbind (try_fold (settle_row registry height) ([], [], []) committed) (\<lambda>(credits, _, _). Ok credits)"

section \<open>Promotion\<close>

definition signature_matches_any_operator :: "ext \<Rightarrow> family_manifest \<Rightarrow> string list \<Rightarrow> bool" where
  "signature_matches_any_operator E manifest operator_pks =
     list_ex (\<lambda>pk. verify_family_manifest_signature E pk manifest = Ok True) operator_pks"

definition promote_share :: "bounty_share \<Rightarrow> promoted_bounty_share" where
  "promote_share share = \<lparr>pb_family_id = bs_family_id share, pb_bounty_id = bs_bounty_id share,
     pb_proof_hash = bs_proof_hash share, pb_prover = bs_prover share, pb_reward = word_to_string (bs_reward share)\<rparr>"

text \<open>The shares one manifest contributes; every gate that fails contributes none.\<close>

definition promote_family ::
    "ext \<Rightarrow> bounty_side_pool \<Rightarrow> u64 \<Rightarrow> string list \<Rightarrow> family_manifest \<Rightarrow> promoted_bounty_share list" where
  "promote_family E side_pool runtime_height operator_pks manifest =
     (if \<not> settlement_eligible manifest runtime_height then []
      else if fm_signature manifest = None then []
      else case fm_caps manifest of
        None \<Rightarrow> []
      | Some caps \<Rightarrow>
          if fc_max_shares_per_block caps = 0 then []
          else if \<not> signature_matches_any_operator E manifest operator_pks then []
          else map promote_share
                 (take (unat (fc_max_shares_per_block caps)) (shares_for_family side_pool (fm_family_id manifest))))"

text \<open>\<^const>\<open>None\<close> is the panic of \<open>expect\<close>.\<close>

definition select_promoted_bounty_selection ::
    "ext \<Rightarrow> bounty_side_pool \<Rightarrow> family_manifest_registry \<Rightarrow> u64 \<Rightarrow> string list \<Rightarrow> promoted_bounty_selection option" where
  "select_promoted_bounty_selection E side_pool registry runtime_height operator_pks =
     (let shares = concat (map (promote_family E side_pool runtime_height operator_pks) (registry_iter registry))
      in case derive_bounty_settlement shares registry runtime_height of
           Inl _ \<Rightarrow> None
         | Inr credits \<Rightarrow> Some \<lparr>sel_shares = shares, sel_credits = credits\<rparr>)"

definition select_promoted_bounty_shares ::
    "ext \<Rightarrow> bounty_side_pool \<Rightarrow> family_manifest_registry \<Rightarrow> u64 \<Rightarrow> string list \<Rightarrow> promoted_bounty_share list option" where
  "select_promoted_bounty_shares E side_pool registry runtime_height operator_pks =
     map_option sel_shares (select_promoted_bounty_selection E side_pool registry runtime_height operator_pks)"

end
