(* ===== verification/Replay.thy ===== *)
theory Replay
  imports Replay_Evidence Bounty_Promotion Fork_Choice
begin

text \<open>
  replay.rs: the credits of a block and the replay of a chain of persisted blocks, with its entry
  points for plain, retargeted, legacy and genesis-committed chains.
\<close>

section \<open>Credits\<close>

record persisted_credit =
  pr_pk :: string
  pr_amount :: string

record persisted_reward_event =
  re_height :: u64
  re_c :: string
  re_credits :: "persisted_credit list"

datatype replay_error =
    NoShareOwners
  | CreditHex hex_error
  | CreditCountPanic
  | CreditAmount string
  | ReplayAccounting accounting_error
  | ReplayTs difficulty_error
  | ReplayShape shape_error
  | ReplayHeight u64
  | ReplayPrevC
  | ReplayC
  | ReplayEvidence evidence_error
  | ReplayKMax
  | ReplaySeedRequired nat
  | ReplayProofCredited string
  | ReplaySettlement settlement_error
  | ReplayBountyCredited string
  | ReplayRetarget difficulty_error
  | ReplayTarget string
  | ReplayStaticTBlock u64
  | ReplayStaticTShare u64
  | ReplayScopeMismatch
  | ReplayScopeOmitted

definition count_credit :: "(string, u128) btree \<Rightarrow> string \<Rightarrow> replay_error + (string, u128) btree" where
  "count_credit totals pk =
     rbind (ok_or (checked_add (bt_get_or 0 totals pk) 1) CreditCountPanic) (\<lambda>v. Ok (bt_insert pk v totals))"

definition compute_block_credits_for_reward_pks ::
    "ext \<Rightarrow> string \<Rightarrow> string list \<Rightarrow> replay_error + persisted_credit list" where
  "compute_block_credits_for_reward_pks E proposer_reward_pk share_reward_pks =
     rbind (ensure (share_reward_pks \<noteq> []) NoShareOwners) (\<lambda>_.
     rbind (map_err CreditHex (hex32_from_hex E proposer_reward_pk)) (\<lambda>_.
     rbind (try_fold (\<lambda>totals pk.
         rbind (map_err CreditHex (hex32_from_hex E pk)) (\<lambda>_. count_credit totals pk)) [] share_reward_pks) (\<lambda>totals.
     rbind (count_credit totals proposer_reward_pk) (\<lambda>totals.
     Ok (map (\<lambda>(pk, amount). \<lparr>pr_pk = pk, pr_amount = word_to_string amount\<rparr>) totals)))))"

definition compute_block_credits :: "ext \<Rightarrow> string \<Rightarrow> string list \<Rightarrow> replay_error + persisted_credit list" where
  "compute_block_credits E proposer_pk share_owners = compute_block_credits_for_reward_pks E proposer_pk share_owners"

definition proposer_reward_sink :: "persisted_block \<Rightarrow> string" where
  "proposer_reward_sink block =
     (if bl_proposer_reward_pk block = [] then bl_proposer_pk block else bl_proposer_reward_pk block)"

definition share_reward_sinks :: "persisted_block \<Rightarrow> string list" where
  "share_reward_sinks block =
     (if bl_selected_share_reward_pks block = [] then bl_selected_share_pks block else bl_selected_share_reward_pks block)"

definition compute_block_reward_credits :: "ext \<Rightarrow> persisted_block \<Rightarrow> replay_error + persisted_credit list" where
  "compute_block_reward_credits E block =
     compute_block_credits_for_reward_pks E (proposer_reward_sink block) (share_reward_sinks block)"

section \<open>The replay loop\<close>

record replay_result =
  rr_latest_c :: string
  rr_height :: u64
  rr_balances :: "(string, u128) btree"
  rr_bounty_credit_by_family :: "(string, u128) btree"

record replay_state =
  rs_latest_c :: string
  rs_balances :: "(string, u128) btree"
  rs_bounty_credit_by_family :: "(string, u128) btree"
  rs_credited_canon_hashes :: "string set"
  rs_credited_bounty_proofs :: "(string \<times> string \<times> string) set"

text \<open>A loop that inserts into a set and fails on an element already there.\<close>

definition insert_fresh :: "('a \<Rightarrow> 'e) \<Rightarrow> 'a set \<Rightarrow> 'a list \<Rightarrow> 'e + 'a set" where
  "insert_fresh err seen xs = try_fold (\<lambda>seen x. if x \<in> seen then Err (err x) else Ok (insert x seen)) seen xs"

text \<open>\<open>amount.parse()?\<close> followed by \<open>checked_credit\<close>.\<close>

definition credit_amount_to :: "(string, u128) btree \<Rightarrow> string \<Rightarrow> string \<Rightarrow> replay_error + (string, u128) btree" where
  "credit_amount_to balances pk amount_text =
     rbind (ok_or (parse_word amount_text) (CreditAmount amount_text)) (\<lambda>amount.
     map_err ReplayAccounting (checked_credit balances pk amount))"

definition credit_base :: "(string, u128) btree \<Rightarrow> persisted_credit list \<Rightarrow> replay_error + (string, u128) btree" where
  "credit_base balances credits = try_fold (\<lambda>b credit. credit_amount_to b (pr_pk credit) (pr_amount credit)) balances credits"

definition credit_bounty ::
    "(string, u128) btree \<times> (string, u128) btree \<Rightarrow> promoted_bounty_credit list \<Rightarrow>
     replay_error + (string, u128) btree \<times> (string, u128) btree" where
  "credit_bounty st credits =
     try_fold (\<lambda>(balances, by_family) credit.
       rbind (credit_amount_to balances (pc_prover credit) (pc_amount credit)) (\<lambda>balances.
       rbind (credit_amount_to by_family (pc_family_id credit) (pc_amount credit)) (\<lambda>by_family.
       Ok (balances, by_family)))) st credits"

definition check_genesis_params :: "genesis_params option \<Rightarrow> persisted_block \<Rightarrow> replay_error + unit" where
  "check_genesis_params genesis_params block =
     (case genesis_params of
        None \<Rightarrow> Ok ()
      | Some params \<Rightarrow>
          rbind (ensure (\<not> (of_nat (length (bl_selected_share_hashes block)) :: u64) > gp_k_max params) ReplayKMax) (\<lambda>_.
          if gp_seed_binding_required params
          then try_for_each (\<lambda>(idx, evidence). ensure (ev_seed_hex evidence \<noteq> []) (ReplaySeedRequired idx))
                 (enumerate 0 (bl_selected_share_evidence block))
          else Ok ()))"

definition bounty_identity :: "promoted_bounty_share \<Rightarrow> string \<times> string \<times> string" where
  "bounty_identity share = (pb_family_id share, pb_bounty_id share, pb_proof_hash share)"

definition replay_step ::
    "ext \<Rightarrow> evidence_policy \<Rightarrow> genesis_params option \<Rightarrow> string option \<Rightarrow> family_manifest_registry \<Rightarrow>
     replay_state \<Rightarrow> nat \<times> persisted_block \<Rightarrow> replay_error + replay_state" where
  "replay_step E evidence_policy genesis_params expected_network_id registry st = (\<lambda>(expected_height, block).
     rbind (map_err ReplayShape (validate_shape E block)) (\<lambda>_.
     rbind (ensure (bl_height block = of_nat expected_height) (ReplayHeight (bl_height block))) (\<lambda>_.
     rbind (ensure (bl_prev_c block = rs_latest_c st) ReplayPrevC) (\<lambda>_.
     rbind (ensure (bl_c block = hex32_to_hex E (block_hash E block)) ReplayC) (\<lambda>_.
     rbind (map_err ReplayEvidence (verify_selected_share_evidence E block evidence_policy expected_network_id)) (\<lambda>_.
     rbind (check_genesis_params genesis_params block) (\<lambda>_.
     rbind (map_err ReplayEvidence (verify_canonical_selection E block)) (\<lambda>_.
     rbind (insert_fresh ReplayProofCredited (rs_credited_canon_hashes st)
              (map ev_canon_hash (bl_selected_share_evidence block))) (\<lambda>canon_hashes.
     rbind (compute_block_reward_credits E block) (\<lambda>credits.
     rbind (credit_base (rs_balances st) credits) (\<lambda>balances.
     rbind (map_err ReplaySettlement
              (derive_bounty_settlement (bl_promoted_bounty_shares block) registry (bl_height block))) (\<lambda>bounty_credits.
     rbind (insert_fresh (\<lambda>(_, bounty_id, _). ReplayBountyCredited bounty_id) (rs_credited_bounty_proofs st)
              (map bounty_identity (bl_promoted_bounty_shares block))) (\<lambda>bounty_proofs.
     rbind (credit_bounty (balances, rs_bounty_credit_by_family st) bounty_credits) (\<lambda>(balances, by_family).
     Ok \<lparr>rs_latest_c = bl_c block, rs_balances = balances, rs_bounty_credit_by_family = by_family,
         rs_credited_canon_hashes = canon_hashes, rs_credited_bounty_proofs = bounty_proofs\<rparr>))))))))))))))"

definition replay_start :: "string \<Rightarrow> replay_state" where
  "replay_start genesis_c = \<lparr>rs_latest_c = genesis_c, rs_balances = [], rs_bounty_credit_by_family = [],
     rs_credited_canon_hashes = {}, rs_credited_bounty_proofs = {}\<rparr>"

definition replay_blocks_with_rules ::
    "ext \<Rightarrow> persisted_block list \<Rightarrow> evidence_policy \<Rightarrow> string \<Rightarrow> genesis_params option \<Rightarrow> string option \<Rightarrow>
     family_manifest_registry \<Rightarrow> replay_error + replay_result" where
  "replay_blocks_with_rules E blocks evidence_policy genesis_c genesis_params expected_network_id registry =
     rbind (map_err ReplayTs (verify_block_ts_median_time_past blocks)) (\<lambda>_.
     rbind (try_fold (replay_step E evidence_policy genesis_params expected_network_id registry)
              (replay_start genesis_c) (enumerate 0 blocks)) (\<lambda>st.
     Ok \<lparr>rr_latest_c = rs_latest_c st, rr_height = of_nat (length blocks), rr_balances = rs_balances st,
         rr_bounty_credit_by_family = rs_bounty_credit_by_family st\<rparr>))"

section \<open>Entry points\<close>

definition replay_blocks_with_evidence_policy ::
    "ext \<Rightarrow> persisted_block list \<Rightarrow> evidence_policy \<Rightarrow> family_manifest_registry \<Rightarrow> replay_error + replay_result" where
  "replay_blocks_with_evidence_policy E blocks evidence_policy registry =
     replay_blocks_with_rules E blocks evidence_policy (replicate 64 (CHR ''0'')) None None registry"

definition replay_blocks :: "ext \<Rightarrow> persisted_block list \<Rightarrow> replay_error + replay_result" where
  "replay_blocks E blocks = replay_blocks_with_evidence_policy E blocks Strict registry_new"

definition replay_blocks_allow_legacy_evidence_less ::
    "ext \<Rightarrow> persisted_block list \<Rightarrow> family_manifest_registry \<Rightarrow> replay_error + replay_result" where
  "replay_blocks_allow_legacy_evidence_less E blocks registry =
     replay_blocks_with_evidence_policy E blocks AllowLegacyEvidenceLess registry"

definition replay_blocks_with_retarget ::
    "ext \<Rightarrow> persisted_block list \<Rightarrow> string \<Rightarrow> difficulty_retarget_policy \<Rightarrow> replay_error + replay_result" where
  "replay_blocks_with_retarget E blocks initial_t_block policy =
     rbind (map_err ReplayRetarget (validate_retargeted_difficulty E blocks initial_t_block policy)) (\<lambda>_.
     replay_blocks E blocks)"

definition replay_blocks_with_retarget_allow_legacy_evidence_less ::
    "ext \<Rightarrow> persisted_block list \<Rightarrow> string \<Rightarrow> difficulty_retarget_policy \<Rightarrow> family_manifest_registry \<Rightarrow>
     replay_error + replay_result" where
  "replay_blocks_with_retarget_allow_legacy_evidence_less E blocks initial_t_block policy registry =
     rbind (map_err ReplayRetarget (validate_retargeted_difficulty E blocks initial_t_block policy)) (\<lambda>_.
     replay_blocks_allow_legacy_evidence_less E blocks registry)"

definition validate_static_difficulty :: "ext \<Rightarrow> persisted_block list \<Rightarrow> string \<Rightarrow> replay_error + unit" where
  "validate_static_difficulty E blocks initial_t_block =
     rbind (ok_or (parse_biguint_hex E initial_t_block) (ReplayTarget initial_t_block)) (\<lambda>expected.
     try_for_each (\<lambda>block.
       rbind (ok_or (parse_biguint_hex E (bl_t_block block)) (ReplayTarget (bl_t_block block))) (\<lambda>got.
       ensure (got = expected) (ReplayStaticTBlock (bl_height block)))) blocks)"

definition validate_static_t_share :: "ext \<Rightarrow> persisted_block list \<Rightarrow> string \<Rightarrow> replay_error + unit" where
  "validate_static_t_share E blocks genesis_t_share =
     rbind (ok_or (parse_biguint_hex E genesis_t_share) (ReplayTarget genesis_t_share)) (\<lambda>expected.
     try_for_each (\<lambda>block.
       rbind (ok_or (parse_biguint_hex E (bl_t_share block)) (ReplayTarget (bl_t_share block))) (\<lambda>got.
       ensure (got = expected) (ReplayStaticTShare (bl_height block)))) blocks)"

definition LEGACY_UNNAMED_FALLBACK_NETWORK_ID :: string where
  "LEGACY_UNNAMED_FALLBACK_NETWORK_ID = ''boole-mvp''"

definition replay_blocks_with_genesis_and_registry_for_authorization_network ::
    "ext \<Rightarrow> persisted_block list \<Rightarrow> genesis_spec \<Rightarrow> family_manifest_registry \<Rightarrow> string option \<Rightarrow>
     replay_error + replay_result" where
  "replay_blocks_with_genesis_and_registry_for_authorization_network E blocks spec registry authorization_network_id =
     rbind (case authorization_network_id of
              Some scope \<Rightarrow> ensure (scope = gs_network_id spec) ReplayScopeMismatch
            | None \<Rightarrow> ensure (gs_network_id spec = LEGACY_UNNAMED_FALLBACK_NETWORK_ID) ReplayScopeOmitted) (\<lambda>_.
     rbind (case gp_retarget (gs_params spec) of
              Some policy \<Rightarrow> map_err ReplayRetarget (validate_retargeted_difficulty E blocks (gp_t_block (gs_params spec)) policy)
            | None \<Rightarrow> validate_static_difficulty E blocks (gp_t_block (gs_params spec))) (\<lambda>_.
     rbind (validate_static_t_share E blocks (gp_t_share (gs_params spec))) (\<lambda>_.
     replay_blocks_with_rules E blocks Strict (gi_genesis_c (gs_initial_state spec)) (Some (gs_params spec))
       authorization_network_id registry)))"

definition replay_blocks_with_genesis_and_registry ::
    "ext \<Rightarrow> persisted_block list \<Rightarrow> genesis_spec \<Rightarrow> family_manifest_registry \<Rightarrow> replay_error + replay_result" where
  "replay_blocks_with_genesis_and_registry E blocks spec registry =
     replay_blocks_with_genesis_and_registry_for_authorization_network E blocks spec registry (Some (gs_network_id spec))"

definition replay_blocks_with_genesis ::
    "ext \<Rightarrow> persisted_block list \<Rightarrow> genesis_spec \<Rightarrow> replay_error + replay_result" where
  "replay_blocks_with_genesis E blocks spec = replay_blocks_with_genesis_and_registry E blocks spec registry_new"

end
