(* ===== verification/Stores.thy ===== *)
theory Stores
  imports Durability Bounty_Ledger Replay
begin

text \<open>
  block_store.rs, reward_store.rs and bounty_event_store.rs: the three ledgers of a node, each a file with
  one JSON record per line. The text of a record (serde_json over the derived serialization of its type) is a
  parameter.
\<close>

section \<open>Records as text\<close>

record store_codec =
  sc_block_to_string :: "persisted_block \<Rightarrow> string"
  sc_block_from_str :: "string \<Rightarrow> string + persisted_block"
  sc_event_to_string :: "persisted_reward_event \<Rightarrow> string"
  sc_event_from_str :: "string \<Rightarrow> string + persisted_reward_event"
  sc_value_to_string :: "json \<Rightarrow> string"
  sc_value_from_str :: "string \<Rightarrow> string + json"

text \<open>
  serde_json reads back the blocks and reward events it writes, and writes each as one nonempty line of UTF-8 text:
  it escapes every control character.
\<close>

definition codec_laws :: "store_codec \<Rightarrow> bool" where
  "codec_laws C \<longleftrightarrow>
     (\<forall>b. line_ok (sc_block_to_string C b) \<and> sc_block_from_str C (sc_block_to_string C b) = Ok b) \<and>
     (\<forall>e. line_ok (sc_event_to_string C e) \<and> sc_event_from_str C (sc_event_to_string C e) = Ok e)"

datatype store_error =
    StoreIo io_error
  | StoreJson nat string
  | StoreShape shape_error
  | StoreHeight nat u64
  | StorePrevC nat
  | LedgerEmptyCredits
  | LedgerAmount string
  | LedgerZeroCredit
  | LedgerAccounting accounting_error
  | LedgerDivergence string u128 u128
  | BountySchema string
  | BountyMissing nat
  | BountyField string
  | BountyDivergence string u128 u128

definition stored_lines :: "string \<Rightarrow> string list" where
  "stored_lines raw = filter (\<lambda>line. line \<noteq> []) (str_lines raw)"

section \<open>Block store\<close>

definition parse_block_line ::
    "ext \<Rightarrow> store_codec \<Rightarrow> persisted_block list \<Rightarrow> nat \<times> string \<Rightarrow> store_error + persisted_block list" where
  "parse_block_line E C blocks = (\<lambda>(i, line).
     rbind (map_err (StoreJson (i + 1)) (sc_block_from_str C line)) (\<lambda>block.
     rbind (map_err StoreShape (validate_shape E block)) (\<lambda>_.
     rbind (ensure (bl_height block = of_nat i) (StoreHeight (i + 1) (bl_height block))) (\<lambda>_.
     rbind (ensure (blocks \<noteq> [] \<longrightarrow> bl_prev_c block = bl_c (last blocks)) (StorePrevC (i + 1))) (\<lambda>_.
     Ok (blocks @ [block]))))))"

definition block_store_parse :: "ext \<Rightarrow> store_codec \<Rightarrow> string \<Rightarrow> store_error + persisted_block list" where
  "block_store_parse E C raw = try_fold (parse_block_line E C) [] (enumerate 0 (stored_lines raw))"

definition block_store_recover ::
    "ext \<Rightarrow> store_codec \<Rightarrow> disk \<Rightarrow> string \<Rightarrow> (store_error + persisted_block list) \<times> disk" where
  "block_store_recover E C d path =
     (case read_stable_prefix d path of
        (Inl e, d) \<Rightarrow> (Err (StoreIo e), d)
      | (Inr None, d) \<Rightarrow> (Ok [], d)
      | (Inr (Some raw), d) \<Rightarrow> (block_store_parse E C raw, d))"

definition block_store_inspect :: "ext \<Rightarrow> store_codec \<Rightarrow> disk \<Rightarrow> string \<Rightarrow> store_error + persisted_block list" where
  "block_store_inspect E C d path =
     rbind (map_err StoreIo (read_complete_ndjson_read_only d path)) (\<lambda>raw.
     case raw of None \<Rightarrow> Ok [] | Some raw \<Rightarrow> block_store_parse E C raw)"

definition block_store_append :: "store_codec \<Rightarrow> disk \<Rightarrow> string \<Rightarrow> persisted_block \<Rightarrow> (store_error + unit) \<times> disk" where
  "block_store_append C d path block =
     (case append_ndjson_line_durable d path (sc_block_to_string C block) of (r, d) \<Rightarrow> (map_err StoreIo r, d))"

section \<open>Reward ledger\<close>

record reward_ledger =
  lg_events :: "persisted_reward_event list"
  lg_balances :: "(string, u128) btree"

definition reward_ledger_default :: reward_ledger where
  "reward_ledger_default = \<lparr>lg_events = [], lg_balances = []\<rparr>"

definition apply_credit :: "(string, u128) btree \<Rightarrow> persisted_credit \<Rightarrow> store_error + (string, u128) btree" where
  "apply_credit balances credit =
     rbind (ok_or (parse_word (pr_amount credit)) (LedgerAmount (pr_amount credit))) (\<lambda>amount.
     rbind (ensure (amount \<noteq> 0) LedgerZeroCredit) (\<lambda>_.
     map_err LedgerAccounting (checked_credit balances (pr_pk credit) amount)))"

fun apply_credits :: "(string, u128) btree \<Rightarrow> persisted_credit list \<Rightarrow> (store_error + unit) \<times> (string, u128) btree" where
  "apply_credits balances [] = (Ok (), balances)"
| "apply_credits balances (credit # credits) =
     (case apply_credit balances credit of
        Inl e \<Rightarrow> (Err e, balances)
      | Inr balances \<Rightarrow> apply_credits balances credits)"

text \<open>\<open>apply\<close> mutates in place: the credits before a failing one stay in the balances.\<close>

definition ledger_apply :: "reward_ledger \<Rightarrow> persisted_reward_event \<Rightarrow> (store_error + unit) \<times> reward_ledger" where
  "ledger_apply l event =
     (if re_credits event = [] then (Err LedgerEmptyCredits, l)
      else case apply_credits (lg_balances l) (re_credits event) of
        (Inl e, balances) \<Rightarrow> (Err e, l\<lparr>lg_balances := balances\<rparr>)
      | (Inr _, balances) \<Rightarrow> (Ok (), \<lparr>lg_events = lg_events l @ [event], lg_balances = balances\<rparr>))"

text \<open>\<open>ledger.apply(event)?\<close> on a ledger that the caller drops on an error.\<close>

definition ledger_applied :: "reward_ledger \<Rightarrow> persisted_reward_event \<Rightarrow> store_error + reward_ledger" where
  "ledger_applied l event = (case ledger_apply l event of (Inl e, _) \<Rightarrow> Err e | (Inr _, l) \<Rightarrow> Ok l)"

definition recover_event :: "store_codec \<Rightarrow> reward_ledger \<Rightarrow> nat \<times> string \<Rightarrow> store_error + reward_ledger" where
  "recover_event C l = (\<lambda>(i, line).
     rbind (map_err (StoreJson (i + 1)) (sc_event_from_str C line)) (\<lambda>event.
     rbind (ensure (re_height event = of_nat i) (StoreHeight (i + 1) (re_height event))) (\<lambda>_.
     ledger_applied l event)))"

definition reward_ledger_recover :: "store_codec \<Rightarrow> disk \<Rightarrow> string \<Rightarrow> (store_error + reward_ledger) \<times> disk" where
  "reward_ledger_recover C d path =
     (case read_stable_prefix d path of
        (Inl e, d) \<Rightarrow> (Err (StoreIo e), d)
      | (Inr None, d) \<Rightarrow> (Ok reward_ledger_default, d)
      | (Inr (Some raw), d) \<Rightarrow> (try_fold (recover_event C) reward_ledger_default (enumerate 0 (stored_lines raw)), d))"

definition reward_ledger_append ::
    "store_codec \<Rightarrow> disk \<Rightarrow> string \<Rightarrow> persisted_reward_event \<Rightarrow> (store_error + unit) \<times> disk" where
  "reward_ledger_append C d path event =
     (case append_ndjson_line_durable d path (sc_event_to_string C event) of (r, d) \<Rightarrow> (map_err StoreIo r, d))"

definition reward_ledger_rewrite_atomic ::
    "store_codec \<Rightarrow> disk \<Rightarrow> string \<Rightarrow> persisted_reward_event list \<Rightarrow> (store_error + reward_ledger) \<times> disk" where
  "reward_ledger_rewrite_atomic C d path events =
     (case try_fold ledger_applied reward_ledger_default events of
        Inl e \<Rightarrow> (Err e, d)
      | Inr ledger \<Rightarrow>
          (case write_ndjson_lines_atomic d path (map (sc_event_to_string C) events) of
             (Inl e, d) \<Rightarrow> (Err (StoreIo e), d)
           | (Inr _, d) \<Rightarrow> (Ok ledger, d)))"

definition last_event :: "reward_ledger \<Rightarrow> persisted_reward_event option" where
  "last_event l = (if lg_events l = [] then None else Some (last (lg_events l)))"

definition ledger_balance_of :: "reward_ledger \<Rightarrow> string \<Rightarrow> u128" where
  "ledger_balance_of l pk = bt_get_or 0 (lg_balances l) pk"

definition ledger_size :: "reward_ledger \<Rightarrow> nat" where
  "ledger_size l = length (lg_events l)"

section \<open>Bounty event store\<close>

definition validate_stored_event :: "store_codec \<Rightarrow> json \<Rightarrow> store_error + unit" where
  "validate_stored_event C event =
     map_err BountySchema (validate_bounty_ledger_event (sc_value_to_string C) event)"

definition bounty_events_append :: "store_codec \<Rightarrow> disk \<Rightarrow> string \<Rightarrow> json \<Rightarrow> (store_error + unit) \<times> disk" where
  "bounty_events_append C d path event =
     (case validate_stored_event C event of
        Inl e \<Rightarrow> (Err e, d)
      | Inr _ \<Rightarrow>
          (case append_ndjson_line_durable d path (sc_value_to_string C event) of (r, d) \<Rightarrow> (map_err StoreIo r, d)))"

definition bounty_events_recover :: "store_codec \<Rightarrow> disk \<Rightarrow> string \<Rightarrow> (store_error + json list) \<times> disk" where
  "bounty_events_recover C d path =
     (case read_stable_prefix d path of
        (Inl e, d) \<Rightarrow> (Err (StoreIo e), d)
      | (Inr None, d) \<Rightarrow> (Ok [], d)
      | (Inr (Some raw), d) \<Rightarrow>
          (try_map (\<lambda>(i, line).
             rbind (map_err (StoreJson (i + 1)) (sc_value_from_str C line)) (\<lambda>event.
             rbind (validate_stored_event C event) (\<lambda>_. Ok event))) (enumerate 0 (stored_lines raw)), d))"

definition bounty_events_rewrite_atomic ::
    "store_codec \<Rightarrow> disk \<Rightarrow> string \<Rightarrow> json list \<Rightarrow> (store_error + unit) \<times> disk" where
  "bounty_events_rewrite_atomic C d path events =
     (case try_for_each (validate_stored_event C) events of
        Inl e \<Rightarrow> (Err e, d)
      | Inr _ \<Rightarrow>
          (case write_ndjson_lines_atomic d path (map (sc_value_to_string C) events) of (r, d) \<Rightarrow> (map_err StoreIo r, d)))"

section \<open>Comparison with replay\<close>

text \<open>Two balance maps agree: each entry of the first is met by the second, which has no other key.\<close>

definition same_balances ::
    "(string \<Rightarrow> u128 \<Rightarrow> u128 \<Rightarrow> store_error) \<Rightarrow> (string, u128) btree \<Rightarrow> (string, u128) btree \<Rightarrow> store_error + unit" where
  "same_balances err ledger replay =
     rbind (try_for_each (\<lambda>(pk, replay_amount).
         let ledger_amount = bt_get_or 0 ledger pk
         in ensure (ledger_amount = replay_amount) (err pk ledger_amount replay_amount)) replay) (\<lambda>_.
     try_for_each (\<lambda>(pk, ledger_amount). ensure (map_of replay pk \<noteq> None) (err pk ledger_amount 0)) ledger)"

definition credit_family :: "(string, u128) btree \<Rightarrow> json \<Rightarrow> store_error + (string, u128) btree" where
  "credit_family by_family event =
     (if str_or_empty event ''kind'' \<noteq> ''credit'' then Ok by_family
      else
        rbind (ok_or (event_str event ''familyId'') (BountyField ''familyId'')) (\<lambda>family_id.
        rbind (ok_or (event_str event ''amount'') (BountyField ''amount'')) (\<lambda>amount_text.
        rbind (ok_or (parse_word amount_text) (LedgerAmount amount_text)) (\<lambda>amount.
        map_err LedgerAccounting (checked_credit by_family family_id amount)))))"

definition verify_ledger_matches_replay ::
    "store_codec \<Rightarrow> disk \<Rightarrow> reward_ledger \<Rightarrow> (string, u128) btree \<Rightarrow> string option \<Rightarrow> (string, u128) btree \<Rightarrow>
     (store_error + unit) \<times> disk" where
  "verify_ledger_matches_replay C d ledger replay_balances bounty_event_ledger_path replay_bounty_credit_by_family =
     (case same_balances LedgerDivergence (lg_balances ledger) replay_balances of
        Inl e \<Rightarrow> (Err e, d)
      | Inr _ \<Rightarrow>
          (case bounty_event_ledger_path of
             None \<Rightarrow> (Ok (), d)
           | Some path \<Rightarrow>
               if dk_files d path = None
               then (ensure (replay_bounty_credit_by_family = []) (BountyMissing (length replay_bounty_credit_by_family)), d)
               else (case bounty_events_recover C d path of
                  (Inl e, d) \<Rightarrow> (Err e, d)
                | (Inr events, d) \<Rightarrow>
                    (rbind (try_fold credit_family [] events) (\<lambda>by_family.
                     same_balances BountyDivergence by_family replay_bounty_credit_by_family), d))))"

end
