(* ===== verification/Admission.thy ===== *)
theory Admission
  imports Share_Pool Rate_Limiter Validator
begin

text \<open>
  admission_types.rs, submission_pow.rs and admission.rs: parsing of a submission body, the admission
  checks in their order (head, ticket, seed, package, proof of work, rate limit, pool) and the JSON
  form of the decision. A \<open>Map<String, Value>\<close> is its list of fields.
\<close>

section \<open>Types\<close>

record parsed_submission =
  sub_c_hex :: string
  sub_pk_hex :: string
  sub_n_hex :: string
  sub_j_hex :: string
  sub_nonce_s_hex :: string
  sub_c :: "u8 list"
  sub_pk :: "u8 list"
  sub_n :: "u8 list"
  sub_j :: "u8 list"
  sub_nonce_s :: "u8 list"
  sub_package_bytes :: "u8 list"
  sub_seed_hex :: string

datatype admission_status = BadRequestStatus | UnprocessableEntity | RateLimitedStatus

fun admission_status_code :: "admission_status \<Rightarrow> u64" where
  "admission_status_code BadRequestStatus = 400"
| "admission_status_code UnprocessableEntity = 422"
| "admission_status_code RateLimitedStatus = 429"

datatype ticket_reject_reason = AboveTTicket | Unobserved

fun ticket_reason_as_str :: "ticket_reject_reason \<Rightarrow> string" where
  "ticket_reason_as_str AboveTTicket = ''above_T_ticket''"
| "ticket_reason_as_str Unobserved = ''unobserved''"

datatype ticket_admission_result = TicketAllowed | TicketRejected ticket_reject_reason

datatype submit_pow_reject_reason = AboveTSubmit

fun submit_pow_reason_as_str :: "submit_pow_reject_reason \<Rightarrow> string" where
  "submit_pow_reason_as_str AboveTSubmit = ''above_T_submit''"

datatype seed_binding_reject_reason = NotDerivedFromContext

fun seed_reason_as_str :: "seed_binding_reject_reason \<Rightarrow> string" where
  "seed_reason_as_str NotDerivedFromContext = ''seed_not_derived_from_context''"

datatype admission_error =
    MissingField string
  | InvalidFieldType string string
  | BadHex string string
  | TicketError ticket_reject_reason
  | ValidatorError validation_reason
  | SubmitPowError submit_pow_reject_reason
  | SeedBindingError seed_binding_reject_reason
  | RateLimitedError rate_limit_reject_reason
  | SharePoolError share_pool_reject_reason

datatype rejection_reason =
    RejBadRequest string
  | RejDecode string string
  | RejTicket ticket_reject_reason
  | RejValidator validation_reason
  | RejSubmitPow submit_pow_reject_reason
  | RejSeedBinding seed_binding_reject_reason
  | RejRateLimit rate_limit_reject_reason
  | RejSharePool share_pool_reject_reason

fun rejection_code :: "rejection_reason \<Rightarrow> string" where
  "rejection_code (RejBadRequest _) = ''bad_request''"
| "rejection_code (RejDecode _ _) = ''decode''"
| "rejection_code (RejTicket detail) = ticket_reason_as_str detail"
| "rejection_code (RejValidator _) = ''validator_rejected''"
| "rejection_code (RejSubmitPow detail) = submit_pow_reason_as_str detail"
| "rejection_code (RejSeedBinding detail) = seed_reason_as_str detail"
| "rejection_code (RejRateLimit _) = ''rate_limited''"
| "rejection_code (RejSharePool detail) = reject_reason_as_str detail"

datatype admission_decision =
    AdmissionAccepted "u8 list"
  | AdmissionRejected admission_status admission_error rejection_reason

fun reject_code :: "admission_decision \<Rightarrow> string option" where
  "reject_code (AdmissionAccepted _) = None"
| "reject_code (AdmissionRejected _ _ rejection) = Some (rejection_code rejection)"

section \<open>Submission proof of work\<close>

datatype submission_pow_reject_reason = PowAboveTSubmit

fun submission_pow_reason_as_str :: "submission_pow_reject_reason \<Rightarrow> string" where
  "submission_pow_reason_as_str PowAboveTSubmit = ''above_T_submit''"

datatype submission_pow_result = PowOk nat | PowErr submission_pow_reject_reason nat

definition submission_pow_result_of :: "bool \<Rightarrow> nat \<Rightarrow> submission_pow_result" where
  "submission_pow_result_of ok hash_int = (if ok then PowOk hash_int else PowErr PowAboveTSubmit hash_int)"

text \<open>A slice of another length than 32 is a panic.\<close>

definition hex32_from_slice :: "u8 list \<Rightarrow> u8 list option" where
  "hex32_from_slice bytes = (if length bytes = 32 then Some bytes else None)"

definition check_submission_pow_with_policy ::
    "ext \<Rightarrow> u8 list \<Rightarrow> u8 list \<Rightarrow> u8 list \<Rightarrow> u8 list \<Rightarrow> calibration_policy \<Rightarrow> submission_pow_result option" where
  "check_submission_pow_with_policy E c pk nonce_s canon_hash policy =
     Option.bind (hex32_from_slice c) (\<lambda>c.
     Option.bind (hex32_from_slice pk) (\<lambda>pk.
     Option.bind (hex32_from_slice nonce_s) (\<lambda>nonce_s.
     Option.bind (hex32_from_slice canon_hash) (\<lambda>canon_hash.
     case submission_pow_ok E c pk nonce_s canon_hash (ct_t_submit (cp_thresholds policy)) of
       (ok, hash_int) \<Rightarrow> Some (submission_pow_result_of ok hash_int)))))"

text \<open>Here an unparseable report panics as well.\<close>

definition check_submission_pow ::
    "ext \<Rightarrow> u8 list \<Rightarrow> u8 list \<Rightarrow> u8 list \<Rightarrow> u8 list \<Rightarrow> calibration_report \<Rightarrow> submission_pow_result option" where
  "check_submission_pow E c pk nonce_s canon_hash cfg =
     Option.bind (hex32_from_slice c) (\<lambda>c.
     Option.bind (hex32_from_slice pk) (\<lambda>pk.
     Option.bind (hex32_from_slice nonce_s) (\<lambda>nonce_s.
     Option.bind (hex32_from_slice canon_hash) (\<lambda>canon_hash.
     Option.bind (result_ok (find_calibration_thresholds E cfg)) (\<lambda>thresholds.
     case submission_pow_ok E c pk nonce_s canon_hash (ct_t_submit thresholds) of
       (ok, hash_int) \<Rightarrow> Some (submission_pow_result_of ok hash_int))))))"

fun check_submission_pow_json :: "ext \<Rightarrow> submission_pow_result \<Rightarrow> json" where
  "check_submission_pow_json E (PowOk hash_int) =
     JObject [(''hashInt'', JString (ext_biguint_to_string E hash_int)), (''ok'', JBool True)]"
| "check_submission_pow_json E (PowErr reason hash_int) =
     JObject [(''hashInt'', JString (ext_biguint_to_string E hash_int)), (''ok'', JBool False),
       (''reason'', JString (submission_pow_reason_as_str reason))]"

section \<open>Parsing\<close>

definition bad_request :: "admission_error \<Rightarrow> string \<Rightarrow> admission_decision" where
  "bad_request error field = AdmissionRejected BadRequestStatus error (RejBadRequest field)"

definition decode_reject :: "string \<Rightarrow> string \<Rightarrow> admission_decision" where
  "decode_reject field detail = AdmissionRejected BadRequestStatus (BadHex field detail) (RejDecode field detail)"

definition string_field :: "(string \<times> json) list \<Rightarrow> string \<Rightarrow> admission_decision + string" where
  "string_field body field =
     rbind (ok_or (map_of body field) (bad_request (MissingField field) field)) (\<lambda>value.
     ok_or (json_as_str value) (bad_request (InvalidFieldType field ''string'') field))"

fun hex32_error_to_string :: "hex_error \<Rightarrow> string" where
  "hex32_error_to_string InvalidShape = ''hex32 must be 64 lowercase hex characters''"
| "hex32_error_to_string DecodeFailed = ''hex32 decode failed''"

definition hex32_field :: "ext \<Rightarrow> string \<Rightarrow> string \<Rightarrow> admission_decision + u8 list" where
  "hex32_field E field value = map_err (\<lambda>err. decode_reject field (hex32_error_to_string err)) (hex32_from_hex E value)"

definition SUBMISSION_FIELDS :: "string list" where
  "SUBMISSION_FIELDS = [''c'', ''pk'', ''n'', ''j'', ''nonceS'', ''bytes'']"

definition parse_submission_body :: "ext \<Rightarrow> (string \<times> json) list \<Rightarrow> admission_decision + parsed_submission" where
  "parse_submission_body E body =
     rbind (try_for_each (\<lambda>field. ensure (map_of body field \<noteq> None) (bad_request (MissingField field) field)) SUBMISSION_FIELDS) (\<lambda>_.
     rbind (string_field body ''c'') (\<lambda>c_hex.
     rbind (string_field body ''pk'') (\<lambda>pk_hex.
     rbind (string_field body ''n'') (\<lambda>n_hex.
     rbind (string_field body ''j'') (\<lambda>j_hex.
     rbind (string_field body ''nonceS'') (\<lambda>nonce_s_hex.
     rbind (string_field body ''bytes'') (\<lambda>bytes_hex.
     rbind (hex32_field E ''c'' c_hex) (\<lambda>c.
     rbind (hex32_field E ''pk'' pk_hex) (\<lambda>pk.
     rbind (hex32_field E ''n'' n_hex) (\<lambda>n.
     rbind (hex32_field E ''j'' j_hex) (\<lambda>j.
     rbind (hex32_field E ''nonceS'' nonce_s_hex) (\<lambda>nonce_s.
     rbind (map_err (decode_reject ''bytes'') (ext_hex_decode E bytes_hex)) (\<lambda>package_bytes.
     rbind (case map_of body ''seedHex'' of Some _ \<Rightarrow> string_field body ''seedHex'' | None \<Rightarrow> Ok []) (\<lambda>seed_hex.
     Ok \<lparr>sub_c_hex = c_hex, sub_pk_hex = pk_hex, sub_n_hex = n_hex, sub_j_hex = j_hex, sub_nonce_s_hex = nonce_s_hex,
         sub_c = c, sub_pk = pk, sub_n = n, sub_j = j, sub_nonce_s = nonce_s, sub_package_bytes = package_bytes,
         sub_seed_hex = seed_hex\<rparr>))))))))))))))"

section \<open>Admission\<close>

definition check_admission_ticket :: "bool \<Rightarrow> bool \<Rightarrow> ticket_admission_result" where
  "check_admission_ticket ticket_valid observed =
     (if \<not> ticket_valid then TicketRejected AboveTTicket
      else if \<not> observed then TicketRejected Unobserved
      else TicketAllowed)"

definition unprocessable :: "admission_error \<Rightarrow> rejection_reason \<Rightarrow> admission_decision" where
  "unprocessable error rejection = AdmissionRejected UnprocessableEntity error rejection"

text \<open>
  The checks before the rate limit; they read the state and do not change it. \<^const>\<open>None\<close> is a panic.
\<close>

definition check_submission ::
    "ext \<Rightarrow> calibration_policy \<Rightarrow> rate_limiter \<Rightarrow> share_pool \<Rightarrow> parsed_submission \<Rightarrow> (admission_decision + u8 list) option" where
  "check_submission E policy limiter pool s =
     (if (case sp_current_c pool of None \<Rightarrow> False | Some current_c \<Rightarrow> current_c \<noteq> sub_c_hex s)
      then Some (Err (unprocessable (SharePoolError StaleC) (RejSharePool StaleC)))
      else
        let ticket_result = ticket E (sub_c s) (sub_pk s) (sub_n s) (ct_t_ticket (cp_thresholds policy)) in
        case check_admission_ticket (tr_valid ticket_result)
               (has_observed_ticket limiter (sub_pk_hex s) (sub_c_hex s) (sub_n_hex s)) of
          TicketRejected reason \<Rightarrow> Some (Err (unprocessable (TicketError reason) (RejTicket reason)))
        | TicketAllowed \<Rightarrow>
            if sub_seed_hex s \<noteq> [] \<and> find_target_seed_j_index E (sub_c s) (sub_pk s) (sub_n s) (sub_seed_hex s) = None
            then Some (Err (unprocessable (SeedBindingError NotDerivedFromContext) (RejSeedBinding NotDerivedFromContext)))
            else case validate_proof_package_with_policy (sub_package_bytes s) policy of
              ValidationErr reason \<Rightarrow> Some (Err (unprocessable (ValidatorError reason) (RejValidator reason)))
            | ValidationOk _ _ _ \<Rightarrow>
                let canon_hash = ext_sha256 E (sub_package_bytes s) in
                case check_submission_pow_with_policy E (sub_c s) (sub_pk s) (sub_nonce_s s) canon_hash policy of
                  None \<Rightarrow> None
                | Some (PowErr _ _) \<Rightarrow> Some (Err (unprocessable (SubmitPowError AboveTSubmit) (RejSubmitPow AboveTSubmit)))
                | Some (PowOk _) \<Rightarrow> Some (Ok canon_hash))"

definition admission_pool_share :: "parsed_submission \<Rightarrow> pool_share" where
  "admission_pool_share s = \<lparr>ps_label = ''admission'', ps_pk = sub_pk_hex s, ps_n = sub_n_hex s, ps_j = sub_j_hex s, ps_c = sub_c_hex s\<rparr>"

definition admit_parsed_submission_typed ::
    "ext \<Rightarrow> calibration_policy \<Rightarrow> rate_limiter \<Rightarrow> share_pool \<Rightarrow> int \<Rightarrow> string \<Rightarrow> parsed_submission \<Rightarrow>
     (admission_decision \<times> rate_limiter \<times> share_pool) option" where
  "admit_parsed_submission_typed E policy limiter pool now ip s =
     Option.bind (check_submission E policy limiter pool s) (\<lambda>checked.
     case checked of
       Inl decision \<Rightarrow> Some (decision, limiter, pool)
     | Inr canon_hash \<Rightarrow>
         Option.bind (peek limiter now ip (sub_pk_hex s) (sub_c_hex s)) (\<lambda>rate.
         case rate of
           Rejected reason \<Rightarrow>
             Some (AdmissionRejected RateLimitedStatus (RateLimitedError reason) (RejRateLimit reason), limiter, pool)
         | Allowed \<Rightarrow>
             let digest = share_hash E (sub_c s) (sub_pk s) (sub_n s) (sub_j s) canon_hash in
             case accept pool (admission_pool_share s) of (pool_result, pool) \<Rightarrow>
             (case accept_result_reason_typed pool_result of
                Some reason \<Rightarrow> Some (unprocessable (SharePoolError reason) (RejSharePool reason), limiter, pool)
              | None \<Rightarrow>
                  Option.bind (commit limiter now ip (sub_pk_hex s) (sub_c_hex s)) (\<lambda>limiter.
                  Some (AdmissionAccepted digest, limiter, pool)))))"

definition admit_submission_typed ::
    "ext \<Rightarrow> calibration_policy \<Rightarrow> rate_limiter \<Rightarrow> share_pool \<Rightarrow> int \<Rightarrow> string \<Rightarrow> (string \<times> json) list \<Rightarrow>
     (admission_decision \<times> rate_limiter \<times> share_pool) option" where
  "admit_submission_typed E policy limiter pool now ip body =
     (case parse_submission_body E body of
        Inl decision \<Rightarrow> Some (decision, limiter, pool)
      | Inr submission \<Rightarrow> admit_parsed_submission_typed E policy limiter pool now ip submission)"

section \<open>JSON form\<close>

fun rejection_json :: "rejection_reason \<Rightarrow> json" where
  "rejection_json (RejBadRequest field) = JObject [(''field'', JString field), (''stage'', JString ''bad_request'')]"
| "rejection_json (RejDecode field detail) =
     JObject [(''detail'', JString detail), (''field'', JString field), (''stage'', JString ''decode'')]"
| "rejection_json (RejTicket detail) =
     JObject [(''detail'', JString (ticket_reason_as_str detail)), (''stage'', JString ''ticket'')]"
| "rejection_json (RejValidator reason) =
     JObject [(''reason'', validation_reason_json reason), (''stage'', JString ''validator'')]"
| "rejection_json (RejSubmitPow detail) =
     JObject [(''detail'', JString (submit_pow_reason_as_str detail)), (''stage'', JString ''submit_pow'')]"
| "rejection_json (RejSeedBinding detail) =
     JObject [(''detail'', JString (seed_reason_as_str detail)), (''stage'', JString ''seed_binding'')]"
| "rejection_json (RejRateLimit quota) =
     JObject [(''quota'', JString (rate_limit_reason_as_str quota)), (''stage'', JString ''rate_limit'')]"
| "rejection_json (RejSharePool detail) =
     JObject [(''detail'', JString (reject_reason_as_str detail)), (''stage'', JString ''share_pool'')]"

text \<open>The fields specific to an error, between \<open>accepted\<close>, \<open>rejection\<close> and \<open>status\<close>.\<close>

fun error_fields :: "admission_error \<Rightarrow> (string \<times> json) list" where
  "error_fields (MissingField field) = [(''error'', JString ''missing field''), (''field'', JString field)]"
| "error_fields (InvalidFieldType field expected) =
     [(''error'', JString ''invalid field type''), (''expected'', JString expected), (''field'', JString field)]"
| "error_fields (BadHex field _) = [(''error'', JString ''bad hex''), (''field'', JString field)]"
| "error_fields (TicketError reason) = [(''error'', JString ''ticket''), (''reason'', JString (ticket_reason_as_str reason))]"
| "error_fields (ValidatorError reason) = [(''error'', JString ''validator''), (''reason'', validation_reason_json reason)]"
| "error_fields (SubmitPowError reason) = [(''error'', JString ''submit_pow''), (''reason'', JString (submit_pow_reason_as_str reason))]"
| "error_fields (SeedBindingError reason) = [(''error'', JString ''seed_binding''), (''reason'', JString (seed_reason_as_str reason))]"
| "error_fields (RateLimitedError reason) = [(''error'', JString ''rate_limited''), (''reason'', JString (rate_limit_reason_as_str reason))]"
| "error_fields (SharePoolError reason) = [(''error'', JString ''share_pool''), (''reason'', JString (reject_reason_as_str reason))]"

definition rejected_json :: "admission_status \<Rightarrow> admission_error \<Rightarrow> rejection_reason \<Rightarrow> json" where
  "rejected_json status error rejection = JObject
     ([(''accepted'', JBool False)] @ error_fields error @
      [(''rejection'', rejection_json rejection), (''status'', JU64 (admission_status_code status))])"

fun admit_submission_json :: "ext \<Rightarrow> admission_decision \<Rightarrow> json" where
  "admit_submission_json E (AdmissionAccepted digest) = JObject
     [(''accepted'', JBool True), (''responseStatus'', JString ''accepted''),
      (''shareHash'', JString (hex32_to_hex E digest)), (''status'', JU64 200)]"
| "admit_submission_json E (AdmissionRejected status error rejection) = rejected_json status error rejection"

definition admit_submission ::
    "ext \<Rightarrow> calibration_policy \<Rightarrow> rate_limiter \<Rightarrow> share_pool \<Rightarrow> int \<Rightarrow> string \<Rightarrow> (string \<times> json) list \<Rightarrow>
     (json \<times> rate_limiter \<times> share_pool) option" where
  "admit_submission E policy limiter pool now ip body =
     map_option (\<lambda>(decision, rest). (admit_submission_json E decision, rest))
       (admit_submission_typed E policy limiter pool now ip body)"

end
