(* ===== verification/Runtime.thy ===== *)
theory Runtime
  imports Stores Admission
begin

text \<open>
  runtime.rs: the node's runtime state and every operation on it. It holds the share pool, the rate limiter and
  the candidates of the current head, mirrors the block store and the reward ledger, and produces,
  commits, ingests and replaces blocks. Operations that touch the disk return it; the clock is an argument.
\<close>

section \<open>Errors\<close>

datatype canonical_publish_phase = BlockReward | ReorgReward | ProofDedup | BountyProjection

fun publish_phase_code :: "canonical_publish_phase \<Rightarrow> string" where
  "publish_phase_code BlockReward = ''block_reward_publish''"
| "publish_phase_code ReorgReward = ''reorg_reward_publish''"
| "publish_phase_code ProofDedup = ''proof_dedup_publish''"
| "publish_phase_code BountyProjection = ''bounty_projection_publish''"

datatype runtime_error =
    RtInconsistent string
  | RtNoHead
  | RtPrevC
  | RtShape shape_error
  | RtStore store_error
  | RtIo io_error
  | RtReplay replay_error
  | RtSettlement settlement_error
  | RtDifficulty difficulty_error
  | RtWeight weight_error
  | RtBuilder builder_error
  | RtNoProposer
  | RtProposerIndex
  | RtSelfReplay u64 replay_error
  | RtCommitHeight u64
  | RtFutureDrift
  | RtEmptyCandidate
  | RtForkChoice fork_choice_error
  | RtManifestRoot

section \<open>Derived ledger rows\<close>

definition derive_reward_event ::
    "ext \<Rightarrow> persisted_block \<Rightarrow> family_manifest_registry \<Rightarrow> runtime_error + persisted_reward_event" where
  "derive_reward_event E block registry =
     rbind (map_err RtReplay (compute_block_reward_credits E block)) (\<lambda>credits.
     rbind (map_err RtSettlement (derive_bounty_settlement (bl_promoted_bounty_shares block) registry (bl_height block)))
       (\<lambda>bounty_credits.
     Ok \<lparr>re_height = bl_height block, re_c = bl_c block,
         re_credits = credits @ map (\<lambda>c. \<lparr>pr_pk = pc_prover c, pr_amount = pc_amount c\<rparr>) bounty_credits\<rparr>))"

definition credit_event :: "persisted_block \<Rightarrow> promoted_bounty_credit \<Rightarrow> json" where
  "credit_event block c = JObject
     [(''amount'', JString (pc_amount c)), (''bountyId'', JString (pc_bounty_id c)), (''c'', JString (bl_c block)),
      (''familyId'', JString (pc_family_id c)), (''height'', JU64 (bl_height block)), (''kind'', JString ''credit''),
      (''prover'', JString (pc_prover c)), (''schemaVersion'', JU64 1)]"

definition share_promoted_event :: "persisted_block \<Rightarrow> promoted_bounty_share \<Rightarrow> json" where
  "share_promoted_event block s = JObject
     [(''bountyId'', JString (pb_bounty_id s)), (''familyId'', JString (pb_family_id s)), (''height'', JU64 (bl_height block)),
      (''kind'', JString ''share_promoted''), (''proofHash'', JString (pb_proof_hash s)),
      (''prover'', JString (pb_prover s)), (''schemaVersion'', JU64 1)]"

definition derive_bounty_events ::
    "persisted_block \<Rightarrow> family_manifest_registry \<Rightarrow> settlement_error + json list \<times> json list" where
  "derive_bounty_events block registry =
     rbind (derive_bounty_settlement (bl_promoted_bounty_shares block) registry (bl_height block)) (\<lambda>credits.
     Ok (map (credit_event block) credits, map (share_promoted_event block) (bl_promoted_bounty_shares block)))"

definition rebuild_bounty_ledger_rows ::
    "json list \<Rightarrow> persisted_block list \<Rightarrow> family_manifest_registry \<Rightarrow> settlement_error + json list" where
  "rebuild_bounty_ledger_rows existing blocks registry =
     try_fold (\<lambda>rows block.
         rbind (derive_bounty_events block registry) (\<lambda>(credits, shares). Ok (rows @ credits @ shares)))
       (filter (\<lambda>event. event_str event ''kind'' \<in> {Some ''create'', Some ''status_change'', Some ''proof''}) existing)
       blocks"

section \<open>Configuration\<close>

datatype useful_base_mode = Disabled | TestnetScaffold

record runtime_config =
  rc_policy :: calibration_policy
  rc_admission_window_ms :: int
  rc_difficulty_retarget :: "difficulty_retarget_policy option"
  rc_useful_base_mode :: useful_base_mode

definition config_genesis_spec :: "ext \<Rightarrow> runtime_config \<Rightarrow> string \<Rightarrow> string \<Rightarrow> genesis_spec" where
  "config_genesis_spec E config network_id genesis_c =
     (let (seed_binding_required, checker_artifact_hash, family_manifest_root) =
            (case network_genesis_preset network_id of
               Some preset \<Rightarrow> (gp_seed_binding_required (gs_params preset), gp_checker_artifact_hash (gs_params preset),
                   gp_family_manifest_root (gs_params preset))
             | None \<Rightarrow> (False, None, None))
      in \<lparr>gs_network_id = network_id,
          gs_params = \<lparr>gp_consensus_rule_version = CONSENSUS_RULE_VERSION,
            gp_t_block = fmt_0x064 E (ct_t_block (cp_thresholds (rc_policy config))),
            gp_t_share = fmt_0x064 E (ct_t_share (cp_thresholds (rc_policy config))),
            gp_k_max = of_nat (cp_k_max (rc_policy config)), gp_retarget = rc_difficulty_retarget config,
            gp_seed_binding_required = seed_binding_required, gp_checker_artifact_hash = checker_artifact_hash,
            gp_family_manifest_root = family_manifest_root\<rparr>,
          gs_initial_state = \<lparr>gi_genesis_c = genesis_c\<rparr>\<rparr>)"

definition config_from_calibration_report :: "ext \<Rightarrow> calibration_report \<Rightarrow> int \<Rightarrow> config_error + runtime_config" where
  "config_from_calibration_report E report admission_window_ms =
     rbind (find_calibration_policy E report) (\<lambda>policy.
     Ok \<lparr>rc_policy = policy, rc_admission_window_ms = admission_window_ms, rc_difficulty_retarget = None,
         rc_useful_base_mode = Disabled\<rparr>)"

definition with_difficulty_retarget ::
    "runtime_config \<Rightarrow> difficulty_retarget_policy \<Rightarrow> difficulty_error + runtime_config" where
  "with_difficulty_retarget config policy =
     rbind (policy_validate policy) (\<lambda>_. Ok (config\<lparr>rc_difficulty_retarget := Some policy\<rparr>))"

definition with_useful_base_mode :: "runtime_config \<Rightarrow> useful_base_mode \<Rightarrow> runtime_config" where
  "with_useful_base_mode config mode = config\<lparr>rc_useful_base_mode := mode\<rparr>"

definition BLOCK_TS_MAX_FUTURE_DRIFT_MS :: u64 where
  "BLOCK_TS_MAX_FUTURE_DRIFT_MS = 2 * 60 * 60 * 1000"

definition check_block_ts_future_drift :: "u64 \<Rightarrow> u64 \<Rightarrow> runtime_error + unit" where
  "check_block_ts_future_drift ts_ms now_ms =
     (let max_allowed_ms = (case checked_add now_ms BLOCK_TS_MAX_FUTURE_DRIFT_MS of Some t \<Rightarrow> t | None \<Rightarrow> - 1)
      in ensure (\<not> ts_ms > max_allowed_ms) RtFutureDrift)"

section \<open>State\<close>

record runtime_state =
  rt_config :: runtime_config
  rt_rate_limiter :: rate_limiter
  rt_pool :: share_pool
  rt_current_c :: "string option"
  rt_candidates :: "candidate_share list"
  rt_block_cache :: "persisted_block list"
  rt_reward_ledger_path :: "string option"
  rt_reward_ledger :: "reward_ledger option"
  rt_family_registry :: family_manifest_registry
  rt_boot_genesis :: "genesis_spec option"
  rt_authorization_network_id :: "string option"
  rt_canonical_state_failure :: "canonical_publish_phase option"

definition runtime_new :: "runtime_config \<Rightarrow> runtime_state" where
  "runtime_new config =
     \<lparr>rt_config = config,
      rt_rate_limiter = limiter_from_policy (rc_policy config) (rc_admission_window_ms config),
      rt_pool = pool_from_policy (rc_policy config), rt_current_c = None, rt_candidates = [], rt_block_cache = [],
      rt_reward_ledger_path = None, rt_reward_ledger = None, rt_family_registry = registry_new,
      rt_boot_genesis = None, rt_authorization_network_id = None, rt_canonical_state_failure = None\<rparr>"

definition canonical_state_failure_code :: "runtime_state \<Rightarrow> string option" where
  "canonical_state_failure_code rt = map_option publish_phase_code (rt_canonical_state_failure rt)"

definition ensure_canonical_state_healthy :: "runtime_state \<Rightarrow> runtime_error + unit" where
  "ensure_canonical_state_healthy rt =
     (case canonical_state_failure_code rt of Some phase \<Rightarrow> Err (RtInconsistent phase) | None \<Rightarrow> Ok ())"

definition begin_canonical_publish :: "runtime_state \<Rightarrow> canonical_publish_phase \<Rightarrow> runtime_state" where
  "begin_canonical_publish rt phase = rt\<lparr>rt_canonical_state_failure := Some phase\<rparr>"

definition finish_canonical_publish :: "runtime_state \<Rightarrow> runtime_state" where
  "finish_canonical_publish rt = rt\<lparr>rt_canonical_state_failure := None\<rparr>"

definition set_family_registry :: "runtime_state \<Rightarrow> family_manifest_registry \<Rightarrow> runtime_state" where
  "set_family_registry rt registry = rt\<lparr>rt_family_registry := registry\<rparr>"

definition static_t_block :: "ext \<Rightarrow> runtime_state \<Rightarrow> string" where
  "static_t_block E rt = fmt_0x064 E (ct_t_block (cp_thresholds (rc_policy (rt_config rt))))"

definition replay_under_boot_contract ::
    "ext \<Rightarrow> runtime_state \<Rightarrow> persisted_block list \<Rightarrow> replay_error + replay_result" where
  "replay_under_boot_contract E rt blocks =
     (case rt_boot_genesis rt of
        Some spec \<Rightarrow> replay_blocks_with_genesis_and_registry_for_authorization_network E blocks spec
          (rt_family_registry rt) (rt_authorization_network_id rt)
      | None \<Rightarrow>
          (case rc_difficulty_retarget (rt_config rt) of
             Some policy \<Rightarrow> replay_blocks_with_retarget_allow_legacy_evidence_less E blocks (static_t_block E rt) policy
               (rt_family_registry rt)
           | None \<Rightarrow> replay_blocks_allow_legacy_evidence_less E blocks (rt_family_registry rt)))"

definition balance_for :: "runtime_state \<Rightarrow> string \<Rightarrow> u128" where
  "balance_for rt pk = (case rt_reward_ledger rt of Some ledger \<Rightarrow> ledger_balance_of ledger pk | None \<Rightarrow> 0)"

definition ledger_head :: "runtime_state \<Rightarrow> (u64 \<times> string) option" where
  "ledger_head rt = map_option (\<lambda>event. (re_height event, re_c event)) (Option.bind (rt_reward_ledger rt) last_event)"

definition set_current_c :: "runtime_state \<Rightarrow> string \<Rightarrow> runtime_state" where
  "set_current_c rt c = rt\<lparr>rt_current_c := Some c, rt_rate_limiter := limiter_set_current_c (rt_rate_limiter rt) c,
     rt_pool := pool_set_current_c (rt_pool rt) c\<rparr>"

section \<open>Applying a block\<close>

definition check_block_applicable :: "ext \<Rightarrow> runtime_state \<Rightarrow> persisted_block \<Rightarrow> runtime_error + unit" where
  "check_block_applicable E rt block =
     rbind (ok_or (rt_current_c rt) RtNoHead) (\<lambda>current_c.
     rbind (ensure (bl_prev_c block = current_c) RtPrevC) (\<lambda>_.
     map_err RtShape (validate_shape E block)))"

definition apply_block_unchecked :: "runtime_state \<Rightarrow> persisted_block \<Rightarrow> nat \<times> runtime_state" where
  "apply_block_unchecked rt block =
     (let rt = set_current_c rt (bl_c block);
          (dropped, pool) = prune_to_height (rt_pool rt) (bl_c block)
      in (dropped, rt\<lparr>rt_pool := pool, rt_candidates := filter (\<lambda>candidate. cs_c candidate = bl_c block) (rt_candidates rt)\<rparr>))"

definition apply_produced_block :: "ext \<Rightarrow> runtime_state \<Rightarrow> persisted_block \<Rightarrow> (runtime_error + nat) \<times> runtime_state" where
  "apply_produced_block E rt block =
     (case rbind (ensure_canonical_state_healthy rt) (\<lambda>_. check_block_applicable E rt block) of
        Inl e \<Rightarrow> (Err e, rt)
      | Inr _ \<Rightarrow> (case apply_block_unchecked rt block of (dropped, rt) \<Rightarrow> (Ok dropped, rt)))"

text \<open>The reward event is derived only when a reward ledger is configured.\<close>

definition reward_event_for :: "ext \<Rightarrow> runtime_state \<Rightarrow> persisted_block \<Rightarrow> runtime_error + persisted_reward_event option" where
  "reward_event_for E rt block =
     (if rt_reward_ledger_path rt \<noteq> None
      then rbind (derive_reward_event E block (rt_family_registry rt)) (\<lambda>event. Ok (Some event))
      else Ok None)"

text \<open>The reward append and its mirror in memory.\<close>

definition append_reward ::
    "store_codec \<Rightarrow> runtime_state \<Rightarrow> disk \<Rightarrow> persisted_reward_event option \<Rightarrow> (runtime_error + unit) \<times> runtime_state \<times> disk" where
  "append_reward C rt d reward_event =
     (case (rt_reward_ledger_path rt, rt_reward_ledger rt, reward_event) of
        (Some ledger_path, Some ledger, Some event) \<Rightarrow>
          (case reward_ledger_append C d ledger_path event of
             (Inl e, d) \<Rightarrow> (Err (RtStore e), rt, d)
           | (Inr _, d) \<Rightarrow>
               (case ledger_apply ledger event of
                  (r, ledger) \<Rightarrow> (map_err RtStore r, rt\<lparr>rt_reward_ledger := Some ledger\<rparr>, d)))
      | _ \<Rightarrow> (Ok (), rt, d))"

text \<open>
  The publication that commit and ingest share: poison, append to the block store, append to the reward
  ledger, apply in memory, cache, heal.
\<close>

definition publish_block ::
    "ext \<Rightarrow> store_codec \<Rightarrow> runtime_state \<Rightarrow> disk \<Rightarrow> string \<Rightarrow> persisted_block \<Rightarrow> persisted_reward_event option \<Rightarrow>
     (runtime_error + nat) \<times> runtime_state \<times> disk" where
  "publish_block E C rt d block_path block reward_event =
     (let rt = begin_canonical_publish rt BlockReward
      in case block_store_append C d block_path block of
           (Inl e, d) \<Rightarrow> (Err (RtStore e), rt, d)
         | (Inr _, d) \<Rightarrow>
             (case append_reward C rt d reward_event of
                (Inl e, rt, d) \<Rightarrow> (Err e, rt, d)
              | (Inr _, rt, d) \<Rightarrow>
                  (case apply_block_unchecked rt block of
                     (dropped, rt) \<Rightarrow>
                       (Ok dropped, finish_canonical_publish (rt\<lparr>rt_block_cache := rt_block_cache rt @ [block]\<rparr>), d))))"

definition ingest_external_block ::
    "ext \<Rightarrow> store_codec \<Rightarrow> runtime_state \<Rightarrow> disk \<Rightarrow> string \<Rightarrow> persisted_block \<Rightarrow>
     (runtime_error + nat) \<times> runtime_state \<times> disk" where
  "ingest_external_block E C rt d block_path block =
     (case rbind (ensure_canonical_state_healthy rt) (\<lambda>_.
           rbind (check_block_applicable E rt block) (\<lambda>_. reward_event_for E rt block)) of
        Inl e \<Rightarrow> (Err e, rt, d)
      | Inr reward_event \<Rightarrow> publish_block E C rt d block_path block reward_event)"

section \<open>Reorganization\<close>

datatype reorg_outcome = Reorged u64 | KeptCurrent

text \<open>A runtime that was not booted under a genesis takes the network of the genesis it is given.\<close>

definition reorg_authorization_network :: "runtime_state \<Rightarrow> genesis_spec \<Rightarrow> string option" where
  "reorg_authorization_network rt genesis =
     (case rt_authorization_network_id rt of
        Some network_id \<Rightarrow> Some network_id
      | None \<Rightarrow> if rt_boot_genesis rt = None then Some (gs_network_id genesis) else None)"

text \<open>The decision: strict replay of the candidate, then fork choice against the cached chain.\<close>

definition decide_reorg ::
    "ext \<Rightarrow> runtime_state \<Rightarrow> persisted_block list \<Rightarrow> genesis_spec \<Rightarrow> u64 \<Rightarrow>
     runtime_error + replay_result \<times> persisted_block \<times> bool" where
  "decide_reorg E rt candidate genesis now_ms =
     rbind (ensure_canonical_state_healthy rt) (\<lambda>_.
     rbind (ok_or (if candidate = [] then None else Some (last candidate)) RtEmptyCandidate) (\<lambda>candidate_head.
     rbind (check_block_ts_future_drift (bl_ts candidate_head) now_ms) (\<lambda>_.
     rbind (map_err RtReplay (replay_blocks_with_genesis_and_registry_for_authorization_network E candidate genesis
              (rt_family_registry rt) (reorg_authorization_network rt genesis))) (\<lambda>replay.
     rbind (map_err RtForkChoice (head_block_hash E candidate_head)) (\<lambda>candidate_head_hash.
     if rt_block_cache rt = [] then Ok (replay, candidate_head, True)
     else
       rbind (map_err RtForkChoice (head_block_hash E (last (rt_block_cache rt)))) (\<lambda>current_head_hash.
       if current_head_hash = candidate_head_hash then Ok (replay, candidate_head, False)
       else
         rbind (map_err RtForkChoice (choose_canonical_head E [rt_block_cache rt, candidate])) (\<lambda>winner.
         Ok (replay, candidate_head, winner = candidate_head_hash))))))))"

definition preflight_reorg_candidate ::
    "ext \<Rightarrow> runtime_state \<Rightarrow> persisted_block list \<Rightarrow> genesis_spec \<Rightarrow> u64 \<Rightarrow> runtime_error + reorg_outcome" where
  "preflight_reorg_candidate E rt candidate genesis now_ms =
     rbind (decide_reorg E rt candidate genesis now_ms) (\<lambda>(_, candidate_head, adopt).
     Ok (if adopt then Reorged (bl_height candidate_head) else KeptCurrent))"

definition rebuild_reward_ledger ::
    "ext \<Rightarrow> family_manifest_registry \<Rightarrow> persisted_block list \<Rightarrow> runtime_error + reward_ledger \<times> persisted_reward_event list" where
  "rebuild_reward_ledger E registry candidate =
     try_fold (\<lambda>(ledger, events) block.
         rbind (derive_reward_event E block registry) (\<lambda>event.
         rbind (map_err RtStore (ledger_applied ledger event)) (\<lambda>ledger.
         Ok (ledger, events @ [event]))))
       (reward_ledger_default, []) candidate"

text \<open>Both files are rewritten, then the state in memory is rebuilt from the candidate.\<close>

definition publish_reorg ::
    "store_codec \<Rightarrow> runtime_state \<Rightarrow> disk \<Rightarrow> string \<Rightarrow> persisted_block list \<Rightarrow> replay_result \<Rightarrow> persisted_block \<Rightarrow>
     (reward_ledger \<times> persisted_reward_event list) option \<Rightarrow> (runtime_error + reorg_outcome) \<times> runtime_state \<times> disk" where
  "publish_reorg C rt d block_path candidate replay candidate_head reward_rebuild =
     (let rt = begin_canonical_publish rt ReorgReward
      in case write_ndjson_lines_atomic d block_path (map (sc_block_to_string C) candidate) of
           (Inl e, d) \<Rightarrow> (Err (RtIo e), rt, d)
         | (Inr _, d) \<Rightarrow>
             (case (case (rt_reward_ledger_path rt, reward_rebuild) of
                      (Some ledger_path, Some (ledger, events)) \<Rightarrow>
                        (case write_ndjson_lines_atomic d ledger_path (map (sc_event_to_string C) events) of
                           (Inl e, d) \<Rightarrow> (Err (RtIo e), rt, d)
                         | (Inr _, d) \<Rightarrow> (Ok (), rt\<lparr>rt_reward_ledger := Some ledger\<rparr>, d))
                    | _ \<Rightarrow> (Ok (), rt, d)) of
                (Inl e, rt, d) \<Rightarrow> (Err e, rt, d)
              | (Inr _, rt, d) \<Rightarrow>
                  let rt = set_current_c (rt\<lparr>rt_block_cache := candidate\<rparr>) (rr_latest_c replay);
                      rt = rt\<lparr>rt_pool := snd (prune_to_height (rt_pool rt) (bl_c candidate_head)),
                        rt_candidates := filter (\<lambda>s. cs_c s = bl_c candidate_head) (rt_candidates rt)\<rparr>
                  in (Ok (Reorged (bl_height candidate_head)), finish_canonical_publish rt, d)))"

definition reorg_to_heavier_chain ::
    "ext \<Rightarrow> store_codec \<Rightarrow> runtime_state \<Rightarrow> disk \<Rightarrow> string \<Rightarrow> persisted_block list \<Rightarrow> genesis_spec \<Rightarrow> u64 \<Rightarrow>
     (runtime_error + reorg_outcome) \<times> runtime_state \<times> disk" where
  "reorg_to_heavier_chain E C rt d block_path candidate genesis now_ms =
     (case decide_reorg E rt candidate genesis now_ms of
        Inl e \<Rightarrow> (Err e, rt, d)
      | Inr (replay, candidate_head, adopt) \<Rightarrow>
          if \<not> adopt then (Ok KeptCurrent, rt, d)
          else
            (case (if rt_reward_ledger_path rt \<noteq> None
                   then rbind (rebuild_reward_ledger E (rt_family_registry rt) candidate) (\<lambda>r. Ok (Some r))
                   else Ok None) of
               Inl e \<Rightarrow> (Err e, rt, d)
             | Inr reward_rebuild \<Rightarrow> publish_reorg C rt d block_path candidate replay candidate_head reward_rebuild))"

section \<open>Producing blocks\<close>

definition runtime_pool_size :: "runtime_state \<Rightarrow> nat" where
  "runtime_pool_size rt = pool_size (rt_pool rt)"

definition shares_for_current_c :: "runtime_state \<Rightarrow> pool_share list" where
  "shares_for_current_c rt = (case rt_current_c rt of Some c \<Rightarrow> for_chain (rt_pool rt) c | None \<Rightarrow> [])"

definition candidate_shares_for_current_c :: "runtime_state \<Rightarrow> candidate_share list" where
  "candidate_shares_for_current_c rt =
     (case rt_current_c rt of Some c \<Rightarrow> filter (\<lambda>s. cs_c s = c) (rt_candidates rt) | None \<Rightarrow> [])"

definition credited_canon_hashes :: "runtime_state \<Rightarrow> string set" where
  "credited_canon_hashes rt =
     set (concat (map (\<lambda>block. map ev_canon_hash (bl_selected_share_evidence block)) (rt_block_cache rt)))"

definition block_builder_config_for_height ::
    "ext \<Rightarrow> runtime_state \<Rightarrow> persisted_block list \<Rightarrow> runtime_error + block_builder_config" where
  "block_builder_config_for_height E rt existing_blocks =
     (case rc_difficulty_retarget (rt_config rt) of
        None \<Rightarrow> map_err RtBuilder (from_policy E (rc_policy (rt_config rt)))
      | Some policy \<Rightarrow>
          rbind (map_err RtDifficulty (expected_retarget_difficulty_for_height E existing_blocks (static_t_block E rt) policy))
            (\<lambda>evidence.
          map_err RtBuilder (from_policy_with_t_block E (rc_policy (rt_config rt)) (de_t_block evidence)
            (de_difficulty_epoch evidence))))"

definition build_block_selection_for_current_c ::
    "ext \<Rightarrow> runtime_state \<Rightarrow> u8 set \<Rightarrow> runtime_error + build_selection_result" where
  "build_block_selection_for_current_c E rt accepted_canon_tags =
     rbind (ok_or (rt_current_c rt) RtNoHead) (\<lambda>current_c.
     rbind (block_builder_config_for_height E rt (rt_block_cache rt)) (\<lambda>config.
     map_err RtBuilder (build_block_selection_for_network E current_c (candidate_shares_for_current_c rt) config
       accepted_canon_tags (credited_canon_hashes rt) [] (rt_authorization_network_id rt))))"

definition effective_difficulty_for_head :: "ext \<Rightarrow> runtime_state \<Rightarrow> runtime_error + difficulty_evidence" where
  "effective_difficulty_for_head E rt =
     (case rc_difficulty_retarget (rt_config rt) of
        Some policy \<Rightarrow>
          map_err RtDifficulty (expected_retarget_difficulty_for_height E (rt_block_cache rt) (static_t_block E rt) policy)
      | None \<Rightarrow>
          rbind (map_err RtWeight (difficulty_weight (ct_t_block (cp_thresholds (rc_policy (rt_config rt)))))) (\<lambda>weight.
          Ok \<lparr>de_mode = ''static-calibrated'', de_retarget = ''not-enabled'', de_difficulty_epoch = 0,
              de_t_block = static_t_block E rt,
              de_t_share = fmt_0x064 E (ct_t_share (cp_thresholds (rc_policy (rt_config rt)))),
              de_difficulty_weight = ext_biguint_to_string E weight\<rparr>))"

definition share_evidence :: "candidate_share \<Rightarrow> selected_share_evidence" where
  "share_evidence s = \<lparr>ev_pk = cs_pk s, ev_n = cs_n s, ev_j = cs_j s, ev_c = cs_c s, ev_canon_hash = cs_canon_hash s,
     ev_proof_package = cs_proof_package s, ev_seed_hex = cs_seed_hex s, ev_signed_work = cs_signed_work s\<rparr>"

text \<open>The block of a selection, with its hash as \<open>c\<close>.\<close>

definition assemble_block ::
    "ext \<Rightarrow> u64 \<Rightarrow> string \<Rightarrow> u64 \<Rightarrow> block_builder_config \<Rightarrow> built_block_selection \<Rightarrow> candidate_share \<Rightarrow> persisted_block" where
  "assemble_block E height prev_c ts config selection proposer =
     (let selected = bb_selected selection;
          block = \<lparr>bl_height = height, bl_prev_c = prev_c, bl_c = [], bl_proposer_pk = cs_pk proposer,
            bl_selected_share_hashes = map cs_share_hash selected, bl_selected_share_pks = map cs_pk selected,
            bl_selected_share_reward_pks =
              (if list_ex (\<lambda>s. cs_reward_pk s \<noteq> []) selected then map reward_sink selected else []),
            bl_proposer_reward_pk = cs_reward_pk proposer, bl_selected_share_evidence = map share_evidence selected,
            bl_min_share_score = ext_biguint_to_string E (bc_min_share_score config),
            bl_min_share_score_multiplier_nanos = bc_min_share_score_multiplier_nanos config,
            bl_kmax_applied = of_nat (length selected), bl_difficulty_epoch = bc_difficulty_epoch config,
            bl_t_block = bc_t_block config, bl_t_share = bc_t_share config,
            bl_difficulty_weight = bc_difficulty_weight config,
            bl_dropped_below_min_score = of_nat (bb_dropped_below_min_score selection),
            bl_dropped_kernel_reject = of_nat (bb_dropped_kernel_reject selection),
            bl_truncated_by_kmax = of_nat (bb_truncated_by_kmax selection), bl_ts = ts,
            bl_promoted_bounty_shares = bb_promoted_bounty_shares selection\<rparr>
      in block\<lparr>bl_c := hex32_to_hex E (block_hash E block)\<rparr>)"

definition produce_block_for_current_c_with_config ::
    "ext \<Rightarrow> runtime_state \<Rightarrow> u64 \<Rightarrow> u64 \<Rightarrow> u8 set \<Rightarrow> block_builder_config \<Rightarrow> promoted_bounty_share list \<Rightarrow>
     runtime_error + persisted_block" where
  "produce_block_for_current_c_with_config E rt height ts accepted_canon_tags config promoted_bounty_shares =
     rbind (ok_or (rt_current_c rt) RtNoHead) (\<lambda>prev_c.
     rbind (map_err RtBuilder (build_block_selection_for_network E prev_c (candidate_shares_for_current_c rt) config
              accepted_canon_tags (credited_canon_hashes rt) promoted_bounty_shares (rt_authorization_network_id rt)))
       (\<lambda>result.
     case result of
       NoProposer _ _ _ \<Rightarrow> Err RtNoProposer
     | SelectionOk selection \<Rightarrow>
         if bb_proposer_index selection < length (bb_selected selection)
         then Ok (assemble_block E height prev_c ts config selection (bb_selected selection ! bb_proposer_index selection))
         else Err RtProposerIndex))"

definition produce_block_for_current_c ::
    "ext \<Rightarrow> runtime_state \<Rightarrow> u64 \<Rightarrow> u64 \<Rightarrow> u8 set \<Rightarrow> runtime_error + persisted_block" where
  "produce_block_for_current_c E rt height ts accepted_canon_tags =
     rbind (block_builder_config_for_height E rt (rt_block_cache rt)) (\<lambda>config.
     produce_block_for_current_c_with_config E rt height ts accepted_canon_tags config [])"

section \<open>Committing blocks\<close>

text \<open>A runtime booted under a genesis replays the chain to be before it writes anything.\<close>

definition self_replay :: "ext \<Rightarrow> runtime_state \<Rightarrow> persisted_block \<Rightarrow> runtime_error + unit" where
  "self_replay E rt block =
     (case rt_boot_genesis rt of
        None \<Rightarrow> Ok ()
      | Some genesis \<Rightarrow>
          rbind (map_err (RtSelfReplay (bl_height block))
            (replay_blocks_with_genesis_and_registry_for_authorization_network E (rt_block_cache rt @ [block]) genesis
              (rt_family_registry rt) (rt_authorization_network_id rt))) (\<lambda>_. Ok ()))"

definition prepare_commit ::
    "ext \<Rightarrow> runtime_state \<Rightarrow> u64 \<Rightarrow> u64 \<Rightarrow> u8 set \<Rightarrow> promoted_bounty_share list \<Rightarrow>
     runtime_error + persisted_block \<times> persisted_reward_event option" where
  "prepare_commit E rt height ts accepted_canon_tags promoted_bounty_shares =
     rbind (ensure_canonical_state_healthy rt) (\<lambda>_.
     rbind (block_builder_config_for_height E rt (rt_block_cache rt)) (\<lambda>config.
     rbind (produce_block_for_current_c_with_config E rt height ts accepted_canon_tags config promoted_bounty_shares) (\<lambda>block.
     rbind (check_block_applicable E rt block) (\<lambda>_.
     rbind (self_replay E rt block) (\<lambda>_.
     rbind (reward_event_for E rt block) (\<lambda>reward_event.
     Ok (block, reward_event)))))))"

definition commit_using_cache ::
    "ext \<Rightarrow> store_codec \<Rightarrow> runtime_state \<Rightarrow> disk \<Rightarrow> string \<Rightarrow> u64 \<Rightarrow> u64 \<Rightarrow> u8 set \<Rightarrow> promoted_bounty_share list \<Rightarrow>
     (runtime_error + persisted_block \<times> nat) \<times> runtime_state \<times> disk" where
  "commit_using_cache E C rt d block_path height ts accepted_canon_tags promoted_bounty_shares =
     (case prepare_commit E rt height ts accepted_canon_tags promoted_bounty_shares of
        Inl e \<Rightarrow> (Err e, rt, d)
      | Inr (block, reward_event) \<Rightarrow>
          (case publish_block E C rt d block_path block reward_event of
             (r, rt, d) \<Rightarrow> (rbind r (\<lambda>dropped. Ok (block, dropped)), rt, d)))"

definition commit_next_block_for_current_c_with_promoted ::
    "ext \<Rightarrow> store_codec \<Rightarrow> runtime_state \<Rightarrow> disk \<Rightarrow> string \<Rightarrow> u64 \<Rightarrow> u8 set \<Rightarrow> promoted_bounty_share list \<Rightarrow>
     (runtime_error + persisted_block \<times> nat) \<times> runtime_state \<times> disk" where
  "commit_next_block_for_current_c_with_promoted E C rt d block_path ts accepted_canon_tags promoted_bounty_shares =
     commit_using_cache E C rt d block_path (of_nat (length (rt_block_cache rt))) ts accepted_canon_tags promoted_bounty_shares"

definition commit_next_block_for_current_c ::
    "ext \<Rightarrow> store_codec \<Rightarrow> runtime_state \<Rightarrow> disk \<Rightarrow> string \<Rightarrow> u64 \<Rightarrow> u8 set \<Rightarrow>
     (runtime_error + persisted_block \<times> nat) \<times> runtime_state \<times> disk" where
  "commit_next_block_for_current_c E C rt d block_path ts accepted_canon_tags =
     commit_next_block_for_current_c_with_promoted E C rt d block_path ts accepted_canon_tags []"

definition commit_block_for_current_c ::
    "ext \<Rightarrow> store_codec \<Rightarrow> runtime_state \<Rightarrow> disk \<Rightarrow> string \<Rightarrow> u64 \<Rightarrow> u64 \<Rightarrow> u8 set \<Rightarrow>
     (runtime_error + persisted_block \<times> nat) \<times> runtime_state \<times> disk" where
  "commit_block_for_current_c E C rt d block_path height ts accepted_canon_tags =
     (if of_nat (length (rt_block_cache rt)) \<noteq> height then (Err (RtCommitHeight height), rt, d)
      else commit_using_cache E C rt d block_path height ts accepted_canon_tags [])"

section \<open>Tickets and admission\<close>

definition required_string :: "(string \<times> json) list \<Rightarrow> string \<Rightarrow> string + string" where
  "required_string body key = ok_or (Option.bind (map_of body key) json_as_str) (key @ '' must be string'')"

definition observe_ticket_from_body :: "runtime_state \<Rightarrow> (string \<times> json) list \<Rightarrow> (string + bool) \<times> runtime_state" where
  "observe_ticket_from_body rt body =
     (case rbind (required_string body ''pk'') (\<lambda>pk. rbind (required_string body ''c'') (\<lambda>c. Ok (pk, c))) of
        Inl e \<Rightarrow> (Err e, rt)
      | Inr (pk, c) \<Rightarrow>
          (case observe_ticket (rt_rate_limiter rt) pk c (Option.bind (map_of body ''n'') json_as_str) of
             (observed, limiter) \<Rightarrow> (Ok observed, rt\<lparr>rt_rate_limiter := limiter\<rparr>)))"

definition runtime_has_observed_ticket :: "runtime_state \<Rightarrow> string \<Rightarrow> string \<Rightarrow> string \<Rightarrow> bool" where
  "runtime_has_observed_ticket rt pk c n = has_observed_ticket (rt_rate_limiter rt) pk c n"

definition admitted_candidate ::
    "ext \<Rightarrow> parsed_submission \<Rightarrow> u8 list \<Rightarrow> u8 \<Rightarrow> string option \<Rightarrow> share_work_authorization option \<Rightarrow> candidate_share" where
  "admitted_candidate E s digest canon_tag reward_pk signed_work =
     \<lparr>cs_label = ''runtime-admission'', cs_pk = sub_pk_hex s,
      cs_reward_pk = (case reward_pk of Some pk \<Rightarrow> pk | None \<Rightarrow> []), cs_n = sub_n_hex s, cs_j = sub_j_hex s,
      cs_c = sub_c_hex s, cs_share_hash = hex32_to_hex E digest, cs_score = ext_biguint_to_string E (share_score digest),
      cs_canon_tag = canon_tag, cs_canon_hash = ext_hex_encode E (ext_sha256 E (sub_package_bytes s)),
      cs_proof_package = ext_hex_encode E (sub_package_bytes s), cs_seed_hex = sub_seed_hex s,
      cs_signed_work = signed_work\<rparr>"

text \<open>\<^const>\<open>None\<close> is a panic of the admission.\<close>

definition admit_body_with_submitter_context ::
    "ext \<Rightarrow> runtime_state \<Rightarrow> int \<Rightarrow> string \<Rightarrow> (string \<times> json) list \<Rightarrow> u8 \<Rightarrow> string option \<Rightarrow> share_work_authorization option \<Rightarrow>
     (admission_decision \<times> runtime_state) option" where
  "admit_body_with_submitter_context E rt now ip body canon_tag reward_pk signed_work =
     (case parse_submission_body E body of
        Inl decision \<Rightarrow> Some (decision, rt)
      | Inr submission \<Rightarrow>
          Option.bind (admit_parsed_submission_typed E (rc_policy (rt_config rt)) (rt_rate_limiter rt) (rt_pool rt) now ip submission)
            (\<lambda>(decision, limiter, pool).
          let rt = rt\<lparr>rt_rate_limiter := limiter, rt_pool := pool\<rparr>
          in case decision of
               AdmissionAccepted digest \<Rightarrow>
                 if length (rt_candidates rt) \<ge> cp_global_share_cap (rc_policy (rt_config rt)) then Some (decision, rt)
                 else Some (decision, rt\<lparr>rt_candidates := rt_candidates rt @
                        [admitted_candidate E submission digest canon_tag reward_pk signed_work]\<rparr>)
             | AdmissionRejected _ _ _ \<Rightarrow> Some (decision, rt)))"

definition admit_body_with_canon_tag ::
    "ext \<Rightarrow> runtime_state \<Rightarrow> int \<Rightarrow> string \<Rightarrow> (string \<times> json) list \<Rightarrow> u8 \<Rightarrow> (admission_decision \<times> runtime_state) option" where
  "admit_body_with_canon_tag E rt now ip body canon_tag =
     admit_body_with_submitter_context E rt now ip body canon_tag None None"

definition admit_body ::
    "ext \<Rightarrow> runtime_state \<Rightarrow> int \<Rightarrow> string \<Rightarrow> (string \<times> json) list \<Rightarrow> (admission_decision \<times> runtime_state) option" where
  "admit_body E rt now ip body = admit_body_with_canon_tag E rt now ip body 0"

section \<open>Semantic reservations\<close>

definition pool_share_for_candidate :: "candidate_share \<Rightarrow> pool_share" where
  "pool_share_for_candidate s = \<lparr>ps_label = ''admission'', ps_pk = cs_pk s, ps_n = cs_n s, ps_j = cs_j s, ps_c = cs_c s\<rparr>"

definition quarantine_candidate :: "runtime_state \<Rightarrow> string \<Rightarrow> bool \<times> runtime_state" where
  "quarantine_candidate rt digest =
     (case position (\<lambda>s. cs_share_hash s = digest) (rt_candidates rt) of
        None \<Rightarrow> (False, rt)
      | Some i \<Rightarrow>
          (case reserve_for_semantic_check (rt_pool rt) (pool_share_for_candidate (rt_candidates rt ! i)) of
             (reserved, pool) \<Rightarrow> (reserved, rt\<lparr>rt_pool := pool, rt_candidates := remove_nth i (rt_candidates rt)\<rparr>)))"

definition take_candidate_for_reverify ::
    "runtime_state \<Rightarrow> string \<Rightarrow> int \<Rightarrow> string \<Rightarrow> candidate_share option \<times> runtime_state" where
  "take_candidate_for_reverify rt digest admitted_at peer_ip =
     (case position (\<lambda>s. cs_share_hash s = digest) (rt_candidates rt) of
        None \<Rightarrow> (None, rt)
      | Some i \<Rightarrow>
          let candidate = rt_candidates rt ! i
          in (case reserve_for_semantic_check (rt_pool rt) (pool_share_for_candidate candidate) of
                (reserved, pool) \<Rightarrow>
                  let rt = rt\<lparr>rt_pool := pool, rt_candidates := remove_nth i (rt_candidates rt)\<rparr>
                  in if reserved then (Some candidate, rt)
                     else (None, rt\<lparr>rt_rate_limiter :=
                       snd (release_committed (rt_rate_limiter rt) admitted_at peer_ip (cs_pk candidate) (cs_c candidate))\<rparr>)))"

definition restore_reverified_candidate :: "runtime_state \<Rightarrow> candidate_share \<Rightarrow> bool \<times> runtime_state" where
  "restore_reverified_candidate rt candidate =
     (if rt_current_c rt \<noteq> Some (cs_c candidate) \<or>
         list_ex (\<lambda>existing. cs_share_hash existing = cs_share_hash candidate) (rt_candidates rt) \<or>
         length (rt_candidates rt) \<ge> cp_global_share_cap (rc_policy (rt_config rt))
      then (False, rt)
      else case restore_after_semantic_check (rt_pool rt) (pool_share_for_candidate candidate) of
        (restored, pool) \<Rightarrow>
          let rt = rt\<lparr>rt_pool := pool\<rparr>
          in if restored then (True, rt\<lparr>rt_candidates := rt_candidates rt @ [candidate]\<rparr>) else (False, rt))"

definition runtime_release_semantic_reservation ::
    "runtime_state \<Rightarrow> candidate_share \<Rightarrow> int \<Rightarrow> string \<Rightarrow> bool \<times> runtime_state" where
  "runtime_release_semantic_reservation rt candidate admitted_at peer_ip =
     (case release_semantic_reservation (rt_pool rt) (pool_share_for_candidate candidate) of
        (pool_released, pool) \<Rightarrow>
          (case release_committed (rt_rate_limiter rt) admitted_at peer_ip (cs_pk candidate) (cs_c candidate) of
             (rate_released, limiter) \<Rightarrow>
               (pool_released \<or> rate_released, rt\<lparr>rt_pool := pool, rt_rate_limiter := limiter\<rparr>)))"

section \<open>Boot\<close>

definition check_manifest_root ::
    "ext \<Rightarrow> family_manifest_registry \<Rightarrow> genesis_spec option \<Rightarrow> runtime_error + unit" where
  "check_manifest_root E family_registry genesis =
     (case Option.bind genesis (\<lambda>spec. gp_family_manifest_root (gs_params spec)) of
        None \<Rightarrow> Ok ()
      | Some expected_root \<Rightarrow> ensure (hex32_to_hex E (registry_root E family_registry) = expected_root) RtManifestRoot)"

definition heal_bounty_ledger ::
    "store_codec \<Rightarrow> disk \<Rightarrow> string option \<Rightarrow> persisted_block list \<Rightarrow> family_manifest_registry \<Rightarrow>
     (runtime_error + unit) \<times> disk" where
  "heal_bounty_ledger C d bounty_event_ledger_path blocks registry =
     (case bounty_event_ledger_path of
        None \<Rightarrow> (Ok (), d)
      | Some bounty_path \<Rightarrow>
          (case (if dk_files d bounty_path = None then (Ok [], d) else bounty_events_recover C d bounty_path) of
             (Inl e, d) \<Rightarrow> (Err (RtStore e), d)
           | (Inr present, d) \<Rightarrow>
               (case rebuild_bounty_ledger_rows present blocks registry of
                  Inl e \<Rightarrow> (Err (RtSettlement e), d)
                | Inr rebuilt \<Rightarrow>
                    if present = rebuilt then (Ok (), d)
                    else (case bounty_events_rewrite_atomic C d bounty_path rebuilt of (r, d) \<Rightarrow> (map_err RtStore r, d)))))"

text \<open>A reward ledger that is missing, unreadable or different from the derived events is rewritten.\<close>

definition heal_reward_ledger ::
    "store_codec \<Rightarrow> disk \<Rightarrow> string \<Rightarrow> persisted_reward_event list \<Rightarrow> (store_error + reward_ledger) \<times> disk" where
  "heal_reward_ledger C d path expected =
     (case (if dk_files d path = None then (None, d)
            else case reward_ledger_recover C d path of (r, d) \<Rightarrow> (result_ok r, d)) of
        (present, d) \<Rightarrow>
          (case present of
             Some ledger \<Rightarrow>
               if lg_events ledger = expected then (Ok ledger, d) else reward_ledger_rewrite_atomic C d path expected
           | None \<Rightarrow> reward_ledger_rewrite_atomic C d path expected))"

definition boot_reward_ledger ::
    "ext \<Rightarrow> store_codec \<Rightarrow> disk \<Rightarrow> string option \<Rightarrow> string option \<Rightarrow> persisted_block list \<Rightarrow> family_manifest_registry \<Rightarrow>
     replay_result \<Rightarrow> (runtime_error + reward_ledger option) \<times> disk" where
  "boot_reward_ledger E C d reward_ledger_path bounty_event_ledger_path blocks registry replay =
     (case reward_ledger_path of
        None \<Rightarrow> (Ok None, d)
      | Some path \<Rightarrow>
          (case try_map (\<lambda>block. derive_reward_event E block registry) blocks of
             Inl e \<Rightarrow> (Err e, d)
           | Inr expected \<Rightarrow>
               (case heal_reward_ledger C d path expected of
                  (Inl e, d) \<Rightarrow> (Err (RtStore e), d)
                | (Inr ledger, d) \<Rightarrow>
                    (case verify_ledger_matches_replay C d ledger (rr_balances replay) bounty_event_ledger_path
                            (rr_bounty_credit_by_family replay) of
                       (Inl e, d) \<Rightarrow> (Err (RtStore e), d)
                     | (Inr _, d) \<Rightarrow> (Ok (Some ledger), d)))))"

definition boot_from_store_inner ::
    "ext \<Rightarrow> store_codec \<Rightarrow> disk \<Rightarrow> runtime_config \<Rightarrow> string \<Rightarrow> string option \<Rightarrow> string option \<Rightarrow>
     family_manifest_registry \<Rightarrow> genesis_spec option \<Rightarrow> string option \<Rightarrow> (runtime_error + runtime_state) \<times> disk" where
  "boot_from_store_inner E C d config block_path reward_ledger_path bounty_event_ledger_path family_registry genesis
       authorization_network_id =
     (case check_manifest_root E family_registry genesis of
        Inl e \<Rightarrow> (Err e, d)
      | Inr _ \<Rightarrow>
          (case block_store_recover E C d block_path of
             (Inl e, d) \<Rightarrow> (Err (RtStore e), d)
           | (Inr blocks, d) \<Rightarrow>
               let runtime = (runtime_new config)\<lparr>rt_family_registry := family_registry, rt_boot_genesis := genesis,
                     rt_authorization_network_id := authorization_network_id\<rparr>
               in (case replay_under_boot_contract E runtime blocks of
                     Inl e \<Rightarrow> (Err (RtReplay e), d)
                   | Inr replay \<Rightarrow>
                       (case heal_bounty_ledger C d bounty_event_ledger_path blocks family_registry of
                          (Inl e, d) \<Rightarrow> (Err e, d)
                        | (Inr _, d) \<Rightarrow>
                            (case boot_reward_ledger E C d reward_ledger_path bounty_event_ledger_path blocks family_registry replay of
                               (Inl e, d) \<Rightarrow> (Err e, d)
                             | (Inr ledger, d) \<Rightarrow>
                                 (Ok ((set_current_c (runtime\<lparr>rt_reward_ledger_path := reward_ledger_path,
                                        rt_reward_ledger := ledger\<rparr>) (rr_latest_c replay))\<lparr>rt_block_cache := blocks\<rparr>), d))))))"

definition boot_from_store_with_bounty_ledger_and_registry ::
    "ext \<Rightarrow> store_codec \<Rightarrow> disk \<Rightarrow> runtime_config \<Rightarrow> string \<Rightarrow> string option \<Rightarrow> string option \<Rightarrow>
     family_manifest_registry \<Rightarrow> (runtime_error + runtime_state) \<times> disk" where
  "boot_from_store_with_bounty_ledger_and_registry E C d config block_path reward_ledger_path bounty_event_ledger_path
       family_registry =
     boot_from_store_inner E C d config block_path reward_ledger_path bounty_event_ledger_path family_registry None None"

definition boot_from_store_with_bounty_ledger ::
    "ext \<Rightarrow> store_codec \<Rightarrow> disk \<Rightarrow> runtime_config \<Rightarrow> string \<Rightarrow> string option \<Rightarrow> string option \<Rightarrow>
     (runtime_error + runtime_state) \<times> disk" where
  "boot_from_store_with_bounty_ledger E C d config block_path reward_ledger_path bounty_event_ledger_path =
     boot_from_store_with_bounty_ledger_and_registry E C d config block_path reward_ledger_path bounty_event_ledger_path registry_new"

definition boot_from_store ::
    "ext \<Rightarrow> store_codec \<Rightarrow> disk \<Rightarrow> runtime_config \<Rightarrow> string \<Rightarrow> string option \<Rightarrow> (runtime_error + runtime_state) \<times> disk" where
  "boot_from_store E C d config block_path reward_ledger_path =
     boot_from_store_with_bounty_ledger E C d config block_path reward_ledger_path None"

definition boot_from_store_with_genesis_and_authorization_network ::
    "ext \<Rightarrow> store_codec \<Rightarrow> disk \<Rightarrow> runtime_config \<Rightarrow> string \<Rightarrow> string option \<Rightarrow> string option \<Rightarrow>
     family_manifest_registry \<Rightarrow> genesis_spec \<Rightarrow> string option \<Rightarrow> (runtime_error + runtime_state) \<times> disk" where
  "boot_from_store_with_genesis_and_authorization_network E C d config block_path reward_ledger_path bounty_event_ledger_path
       family_registry genesis authorization_network_id =
     boot_from_store_inner E C d config block_path reward_ledger_path bounty_event_ledger_path family_registry (Some genesis)
       authorization_network_id"

definition boot_from_store_with_genesis ::
    "ext \<Rightarrow> store_codec \<Rightarrow> disk \<Rightarrow> runtime_config \<Rightarrow> string \<Rightarrow> string option \<Rightarrow> string option \<Rightarrow>
     family_manifest_registry \<Rightarrow> genesis_spec \<Rightarrow> (runtime_error + runtime_state) \<times> disk" where
  "boot_from_store_with_genesis E C d config block_path reward_ledger_path bounty_event_ledger_path family_registry genesis =
     boot_from_store_with_genesis_and_authorization_network E C d config block_path reward_ledger_path bounty_event_ledger_path
       family_registry genesis (Some (gs_network_id genesis))"

end
