(* ===== verification/Block_Builder_Theorems.thy ===== *)
theory Block_Builder_Theorems
  imports Block_Builder "HOL-Library.Multiset"
begin

text \<open>
  What a selection contains and which proposer it names: comparing normalized hex text is comparing
  numbers, and the selected shares are the best fresh candidates in canonical order.
\<close>

section \<open>Hex text as numbers\<close>

definition hex_num :: "string \<Rightarrow> nat" where
  "hex_num s = (case hex_value 0 s of None \<Rightarrow> 0 | Some v \<Rightarrow> v)"

lemma hex_digit_lower: "is_ascii_hexdigit ch \<Longrightarrow> hex_digit (to_ascii_lowercase ch) = hex_digit ch \<and> is_lower_hex (to_ascii_lowercase ch)"
  by (auto simp: is_ascii_hexdigit_def hex_digit_def to_ascii_lowercase_def is_lower_hex_def Let_def split: if_split_asm)

lemma hex_digit_bound: "hex_digit ch = Some d \<Longrightarrow> d < 16"
  by (auto simp: hex_digit_def Let_def split: if_split_asm)

lemma lower_hex_digit_mono:
  assumes "is_lower_hex a" and "is_lower_hex b" and "a < b"
  shows "the (hex_digit a) < the (hex_digit b)"
  using assms by (auto simp: is_lower_hex_def hex_digit_def Let_def less_char_def)

lemma lower_hex_value: "\<forall>ch \<in> set s. is_lower_hex ch \<Longrightarrow> \<exists>v. hex_value acc s = Some v"
  by (induction s arbitrary: acc) (auto simp: is_lower_hex_def hex_digit_def Let_def split: option.split)

lemma hex_value_range: "hex_value acc s = Some v \<Longrightarrow> acc * 16 ^ length s \<le> v \<and> v < (acc + 1) * 16 ^ length s"
proof (induction s arbitrary: acc)
  case (Cons ch s)
  then obtain d where d: "hex_digit ch = Some d" "hex_value (16 * acc + d) s = Some v" by (auto split: option.split_asm)
  from Cons.IH [OF d(2)] have "(16 * acc + d) * 16 ^ length s \<le> v" "v < (16 * acc + d + 1) * 16 ^ length s" by simp_all
  moreover have "(16 * acc + d + 1) * 16 ^ length s \<le> (16 * (acc + 1)) * 16 ^ length s"
    using hex_digit_bound [OF d(1)] by (intro mult_right_mono) simp_all
  moreover have "16 * acc * 16 ^ length s \<le> (16 * acc + d) * 16 ^ length s" by (intro mult_right_mono) simp_all
  ultimately have "16 * acc * 16 ^ length s \<le> v" "v < 16 * (acc + 1) * 16 ^ length s" by linarith+
  then show ?case by (simp add: algebra_simps)
qed simp

lemma hex_text_less:
  assumes "length s = length t" and "\<forall>ch \<in> set s. is_lower_hex ch" and "\<forall>ch \<in> set t. is_lower_hex ch"
    and "hex_value acc s = Some v" and "hex_value acc t = Some w"
  shows "s < t \<longleftrightarrow> v < w"
  using assms
proof (induction s t arbitrary: acc rule: list_induct2)
  case (Cons a s b t)
  from Cons.prems obtain d e where d: "hex_digit a = Some d" "hex_value (16 * acc + d) s = Some v"
    and e: "hex_digit b = Some e" "hex_value (16 * acc + e) t = Some w" by (auto split: option.split_asm)
  note rng = hex_value_range [OF d(2)] hex_value_range [OF e(2)]
  have mono: "x < y \<Longrightarrow> (16 * acc + x + 1) * 16 ^ length s \<le> (16 * acc + y) * 16 ^ length s" for x y
    by (intro mult_right_mono) simp_all
  have lower: "is_lower_hex a" "is_lower_hex b" using Cons.prems by simp_all
  consider "a < b" | "a = b" | "b < a" by (rule linorder_cases)
  then show ?case
  proof cases
    case 1
    with lower_hex_digit_mono [OF lower] d e have "d < e" by simp
    with mono rng Cons.hyps have "v < w" by fastforce
    with 1 show ?thesis by simp
  next
    case 2
    with Cons d e show ?thesis by simp
  next
    case 3
    with lower_hex_digit_mono [OF lower(2,1)] d e have "e < d" by simp
    with mono rng Cons.hyps have "w < v" by fastforce
    with 3 show ?thesis by auto
  qed
qed simp

lemma normalize_hex256_Inr:
  assumes "normalize_hex256 s = Inr t"
  shows "length t = 64" and "\<forall>ch \<in> set t. is_lower_hex ch" and "hex_value 0 t = Some (hex_num (strip_0x s))"
proof -
  let ?w = "strip_0x s"
  from assms have t: "t = replicate (64 - length ?w) (CHR ''0'') @ map to_ascii_lowercase ?w"
    and len: "length ?w \<le> 64" and dig: "\<forall>ch \<in> set ?w. is_ascii_hexdigit ch"
    by (auto simp: normalize_hex256_def Let_def list_all_iff split: if_split_asm)
  show "length t = 64" using t len by simp
  have zero: "is_lower_hex CHR ''0''" by (simp add: is_lower_hex_def)
  show lower: "\<forall>ch \<in> set t. is_lower_hex ch" using t dig zero hex_digit_lower by auto
  have low: "hex_value acc (map to_ascii_lowercase w) = hex_value acc w" if "\<forall>ch \<in> set w. is_ascii_hexdigit ch" for acc w
    using that by (induction w arbitrary: acc) (auto simp: hex_digit_lower split: option.split)
  have "hex_value 0 t = hex_value 0 ?w" unfolding t hex_value_zeros by (rule low [OF dig])
  moreover obtain v where "hex_value 0 t = Some v" using lower_hex_value [OF lower] by blast
  ultimately show "hex_value 0 t = Some (hex_num ?w)" by (cases "hex_value 0 ?w") (simp_all add: hex_num_def)
qed

lemma normalized_less:
  assumes "normalize_hex256 s = Inr t" and "normalize_hex256 s' = Inr t'"
  shows "t < t' \<longleftrightarrow> hex_num (strip_0x s) < hex_num (strip_0x s')"
  using normalize_hex256_Inr [OF assms(1)] normalize_hex256_Inr [OF assms(2)] by (intro hex_text_less) simp_all

lemma normalize_twice: "normalize_hex256 s = Inr t \<Longrightarrow> normalize_hex256 t = Inr t"
proof -
  assume "normalize_hex256 s = Inr t"
  note t = normalize_hex256_Inr [OF this]
  have lower: "is_ascii_hexdigit ch \<and> to_ascii_lowercase ch = ch \<and> ch \<noteq> CHR ''x'' \<and> ch \<noteq> CHR ''X''" if "is_lower_hex ch" for ch
    using that by (auto simp: is_lower_hex_def is_ascii_hexdigit_def hex_digit_def to_ascii_lowercase_def Let_def)
  have "strip_0x t = t"
  proof -
    obtain a b t' where "t = a # b # t'" using t(1) by (cases t; cases "tl t") auto
    with t(2) lower show ?thesis by (auto simp: strip_0x_def)
  qed
  with t lower show ?thesis
    by (auto simp: normalize_hex256_def Let_def list_all_iff intro: map_idI)
qed

section \<open>The proposer\<close>

definition below_target :: "string \<Rightarrow> string \<Rightarrow> bool" where
  "below_target t_block h \<longleftrightarrow> hex_num (strip_0x h) < hex_num (strip_0x t_block)"

lemma proposer_fold:
  assumes "normalize_hex256 t_block = Inr t"
  shows "try_fold (\<lambda>(winner_index, qualifying_count) (idx, share_hash).
         rbind (normalize_hex256 share_hash) (\<lambda>normalized.
         if normalized < t
         then Ok (if winner_index = None then Some idx else winner_index, qualifying_count + 1)
         else Ok (winner_index, qualifying_count)))
       (w, q) (enumerate i hs) = Inr (w', q') \<longleftrightarrow>
     (\<forall>h \<in> set hs. is_ok (normalize_hex256 h)) \<and>
     w' = (if w = None then find (\<lambda>k. below_target t_block (hs ! (k - i))) [i..<i + length hs] else w) \<and>
     q' = q + length (filter (below_target t_block) hs)"
proof (induction hs arbitrary: w q i)
  case (Cons h hs)
  have upt: "[i..<i + length (h # hs)] = i # [Suc i..<Suc i + length hs]" by (simp add: upt_rec)
  have shift: "find (\<lambda>k. below_target t_block ((h # hs) ! (k - i))) [Suc i..<Suc i + length hs] =
      find (\<lambda>k. below_target t_block (hs ! (k - Suc i))) [Suc i..<Suc i + length hs]"
    by (intro find_cong) (auto simp: nth_Cons')
  show ?case
  proof (cases "normalize_hex256 h")
    case (Inl e)
    then show ?thesis by simp
  next
    case (Inr n)
    have "n < t \<longleftrightarrow> below_target t_block h" using normalized_less [OF Inr assms] by (simp add: below_target_def)
    then show ?thesis using Inr Cons.IH shift unfolding upt by (auto split: if_split_asm)
  qed
qed auto

lemma select_qualifying_proposer_Inr:
  "select_qualifying_proposer hs t_block = Inr (w, q) \<longleftrightarrow>
     is_ok (normalize_hex256 t_block) \<and> (\<forall>h \<in> set hs. is_ok (normalize_hex256 h)) \<and>
     w = find (\<lambda>k. below_target t_block (hs ! k)) [0..<length hs] \<and> q = length (filter (below_target t_block) hs)"
proof (cases "normalize_hex256 t_block")
  case (Inl e)
  then show ?thesis by (simp add: select_qualifying_proposer_def)
next
  case (Inr t)
  then show ?thesis unfolding select_qualifying_proposer_def by (simp add: proposer_fold [OF Inr])
qed

lemma select_proposer_normalized:
  "normalize_hex256 t_block = Inr t \<Longrightarrow> select_qualifying_proposer hs t = select_qualifying_proposer hs t_block"
  by (simp add: select_qualifying_proposer_def normalize_twice)

lemma find_upt_first:
  "find P [0..<n] = Some i \<longleftrightarrow> i < n \<and> P i \<and> (\<forall>j < i. \<not> P j)"
proof -
  have "(\<exists>k<n. P k \<and> (\<forall>j<k. \<not> P j) \<and> i = k) \<longleftrightarrow> i < n \<and> P i \<and> (\<forall>j < i. \<not> P j)" by auto
  then show ?thesis by (auto simp: find_Some_iff)
qed

lemma find_upt_none: "find P [0..<n] = None \<longleftrightarrow> (\<forall>i < n. \<not> P i)"
  by (auto simp: find_None_iff)

section \<open>Screening\<close>

definition screened :: "ext \<Rightarrow> string \<Rightarrow> block_builder_config \<Rightarrow> string set \<Rightarrow> string option \<Rightarrow> candidate_share \<Rightarrow> bool" where
  "screened E head cfg credited net s \<longleftrightarrow>
     cs_c s = head \<and> (cs_canon_hash s \<noteq> [] \<longrightarrow> cs_canon_hash s \<notin> credited) \<and>
     (case verify_share_work_authorization_for_network E (cs_signed_work s) net of
        Inl _ \<Rightarrow> False | Inr v \<Rightarrow> authorization_matches v s) \<and>
     (case ext_biguint_parse E (cs_score s) of None \<Rightarrow> False | Some score \<Rightarrow> bc_min_share_score cfg \<le> score)"

definition scored :: "ext \<Rightarrow> string \<Rightarrow> string set \<Rightarrow> string option \<Rightarrow> candidate_share \<Rightarrow> bool" where
  "scored E head credited net s \<longleftrightarrow>
     cs_c s = head \<and> (cs_canon_hash s \<noteq> [] \<longrightarrow> cs_canon_hash s \<notin> credited) \<and>
     (case verify_share_work_authorization_for_network E (cs_signed_work s) net of
        Inl _ \<Rightarrow> False | Inr v \<Rightarrow> authorization_matches v s)"

definition below_min :: "ext \<Rightarrow> string \<Rightarrow> block_builder_config \<Rightarrow> string set \<Rightarrow> string option \<Rightarrow> candidate_share \<Rightarrow> bool" where
  "below_min E head cfg credited net s \<longleftrightarrow> scored E head credited net s \<and> \<not> screened E head cfg credited net s"

lemma screen_share_eq:
  "screen_share E head cfg credited net (d, ss) s =
     (if scored E head credited net s \<and> ext_biguint_parse E (cs_score s) = None then Inl (InvalidScore (cs_score s))
      else Inr (d + length (filter (below_min E head cfg credited net) [s]), ss @ filter (screened E head cfg credited net) [s]))"
  by (auto simp: screen_share_def screened_def scored_def below_min_def parse_score_decimal_def
      split: sum.split_asm sum.split option.split option.split_asm)

lemma screen_fold_Inr:
  "try_fold (screen_share E head cfg credited net) (d, ss) shares = Inr (d', ss') \<longleftrightarrow>
     (\<forall>s \<in> set shares. scored E head credited net s \<longrightarrow> ext_biguint_parse E (cs_score s) \<noteq> None) \<and>
     d' = d + length (filter (below_min E head cfg credited net) shares) \<and>
     ss' = ss @ filter (screened E head cfg credited net) shares"
  by (induction shares arbitrary: d ss) (auto simp: screen_share_eq)

section \<open>Fresh proofs\<close>

lemma retain_fresh_subset: "set (retain_fresh seen xs) \<subseteq> set xs"
  by (induction xs arbitrary: seen) auto

lemma retain_fresh_hashes:
  "distinct (filter (\<lambda>h. h \<noteq> []) (map cs_canon_hash (retain_fresh seen xs))) \<and>
     (\<forall>s \<in> set (retain_fresh seen xs). cs_canon_hash s \<noteq> [] \<longrightarrow> cs_canon_hash s \<notin> seen)"
proof (induction xs arbitrary: seen)
  case (Cons x xs)
  from Cons [of seen] Cons [of "insert (cs_canon_hash x) seen"] show ?case by auto
qed simp

lemma distinct_filter_take:
  "distinct (filter P (map f xs)) \<Longrightarrow> distinct (filter P (map f (take n xs)))"
  by (metis append_take_drop_id distinct_append filter_append map_append)

lemma distinct_filter_filter:
  "distinct (filter P (map f xs)) \<Longrightarrow> distinct (filter P (map f (filter Q xs)))"
  by (induction xs) auto

lemma distinct_filter_mset:
  assumes "mset xs = mset ys" and "distinct (filter P (map f xs))" shows "distinct (filter P (map f ys))"
proof -
  have "mset (filter P (map f ys)) = mset (filter P (map f xs))" using assms(1) by simp
  then show ?thesis using assms(2) by (metis mset_eq_imp_distinct_iff)
qed

section \<open>The selection\<close>

definition ranked :: "ext \<Rightarrow> string \<Rightarrow> block_builder_config \<Rightarrow> string set \<Rightarrow> string option \<Rightarrow> candidate_share list \<Rightarrow> candidate_share list" where
  "ranked E head cfg credited net shares =
     retain_fresh {} (sort_key (preselection_key E) (filter (screened E head cfg credited net) shares))"

definition chosen :: "ext \<Rightarrow> string \<Rightarrow> block_builder_config \<Rightarrow> u8 set \<Rightarrow> string set \<Rightarrow> string option \<Rightarrow> candidate_share list \<Rightarrow> candidate_share list" where
  "chosen E head cfg tags credited net shares =
     sort_key candidate_order_key (filter (\<lambda>s. cs_canon_tag s \<in> tags) (take (bc_k_max cfg) (ranked E head cfg credited net shares)))"

lemma build_SelectionOk:
  assumes "build_block_selection_for_network E head shares cfg tags credited promoted net = Inr (SelectionOk sel)"
  shows "bb_selected sel = chosen E head cfg tags credited net shares"
    and "bb_truncated_by_kmax sel = length (ranked E head cfg credited net shares) - bc_k_max cfg"
    and "select_qualifying_proposer (map cs_share_hash (bb_selected sel)) (bc_t_block cfg) =
      Inr (Some (bb_proposer_index sel), bb_tied_proposer_count sel)"
    and "bb_promoted_bounty_shares sel = promoted"
proof -
  from assms obtain t d ss w q where t: "normalize_hex256 (bc_t_block cfg) = Inr t"
    and scr: "try_fold (screen_share E head cfg credited net) (0, []) shares = Inr (d, ss)"
    and sel: "select_qualifying_proposer (map cs_share_hash (bb_selected sel)) t = Inr (Some w, q)"
    and parts: "bb_selected sel = sort_by (\<lambda>a b. compare_canonical (candidate_order_key a) (candidate_order_key b))
        (filter (\<lambda>s. cs_canon_tag s \<in> tags) (take (bc_k_max cfg) (retain_fresh {} (sort_by (compare_preselection E) ss))))"
      "bb_proposer_index sel = w" "bb_tied_proposer_count sel = q" "bb_promoted_bounty_shares sel = promoted"
      "bb_truncated_by_kmax sel = length (retain_fresh {} (sort_by (compare_preselection E) ss)) - bc_k_max cfg"
    unfolding build_block_selection_for_network_def
    by (auto simp: result_simps Let_def split: option.split_asm)
  have ss: "ss = filter (screened E head cfg credited net) shares" using scr by (simp add: screen_fold_Inr)
  show "bb_selected sel = chosen E head cfg tags credited net shares"
    "bb_truncated_by_kmax sel = length (ranked E head cfg credited net shares) - bc_k_max cfg"
    "bb_promoted_bounty_shares sel = promoted"
    using parts by (simp_all add: ss chosen_def ranked_def sort_by_preselection sort_by_canonical)
  show "select_qualifying_proposer (map cs_share_hash (bb_selected sel)) (bc_t_block cfg) =
      Inr (Some (bb_proposer_index sel), bb_tied_proposer_count sel)"
    using sel parts(2,3) select_proposer_normalized [OF t] by simp
qed

lemma ranked_screened: "set (ranked E head cfg credited net shares) \<subseteq> {s \<in> set shares. screened E head cfg credited net s}"
  unfolding ranked_def using retain_fresh_subset by fastforce

lemma chosen_facts:
  shows "sorted (map candidate_order_key (chosen E head cfg tags credited net shares))"
    and "set (chosen E head cfg tags credited net shares) \<subseteq> {s \<in> set shares. screened E head cfg credited net s \<and> cs_canon_tag s \<in> tags}"
    and "distinct (filter (\<lambda>h. h \<noteq> []) (map cs_canon_hash (chosen E head cfg tags credited net shares)))"
    and "length (chosen E head cfg tags credited net shares) \<le> bc_k_max cfg"
proof -
  let ?ranked = "ranked E head cfg credited net shares"
  let ?kept = "filter (\<lambda>s. cs_canon_tag s \<in> tags) (take (bc_k_max cfg) ?ranked)"
  show "sorted (map candidate_order_key (chosen E head cfg tags credited net shares))"
    by (simp add: chosen_def)
  show "set (chosen E head cfg tags credited net shares) \<subseteq> {s \<in> set shares. screened E head cfg credited net s \<and> cs_canon_tag s \<in> tags}"
    using ranked_screened by (fastforce simp: chosen_def dest: in_set_takeD)
  have "distinct (filter (\<lambda>h. h \<noteq> []) (map cs_canon_hash ?kept))"
    by (intro distinct_filter_filter distinct_filter_take) (simp add: ranked_def retain_fresh_hashes)
  then show "distinct (filter (\<lambda>h. h \<noteq> []) (map cs_canon_hash (chosen E head cfg tags credited net shares)))"
    by (rule distinct_filter_mset [rotated]) (simp add: chosen_def)
  have "length ?kept \<le> length (take (bc_k_max cfg) ?ranked)" by (rule length_filter_le)
  then show "length (chosen E head cfg tags credited net shares) \<le> bc_k_max cfg" by (simp add: chosen_def)
qed

section \<open>Order independence\<close>

lemma sort_key_permuted:
  assumes "mset xs = mset ys" and "inj_on f (set xs)" shows "sort_key f xs = sort_key f ys"
  using assms by (intro sort_key_inj_key_eq) simp_all

lemma mset_filter_length: "mset xs = mset ys \<Longrightarrow> length (filter P xs) = length (filter P ys)"
  by (metis mset_filter size_mset)

lemma build_permuted:
  assumes "mset shares = mset shares'" and "inj_on candidate_order_key (set shares)"
    and ok: "build_block_selection_for_network E head shares cfg tags credited promoted net = Inr r"
  shows "build_block_selection_for_network E head shares' cfg tags credited promoted net = Inr r"
proof -
  let ?P = "screened E head cfg credited net"
  have set: "set shares' = set shares" using assms(1) by (metis set_mset_mset)
  have "inj_on (preselection_key E) (set (filter ?P shares))"
    using assms(2) by (auto simp: inj_on_def preselection_key_def)
  moreover have "mset (filter ?P shares) = mset (filter ?P shares')" using assms(1) by simp
  ultimately have sort: "sort_by (compare_preselection E) (filter ?P shares') = sort_by (compare_preselection E) (filter ?P shares)"
    by (simp add: sort_by_preselection sort_key_permuted [symmetric])
  have cnt: "length (filter (below_min E head cfg credited net) shares) = length (filter (below_min E head cfg credited net) shares')"
    using assms(1) by (rule mset_filter_length)
  let ?n = "length (filter (below_min E head cfg credited net) shares)"
  from ok obtain d ss where "try_fold (screen_share E head cfg credited net) (0, []) shares = Inr (d, ss)"
    unfolding build_block_selection_for_network_def by (auto simp: rbind_eq_Inr)
  then have 1: "try_fold (screen_share E head cfg credited net) (0, []) shares = Inr (?n, filter ?P shares)"
    and 2: "try_fold (screen_share E head cfg credited net) (0, []) shares' = Inr (?n, filter ?P shares')"
    using set cnt by (simp_all add: screen_fold_Inr)
  show ?thesis using ok unfolding build_block_selection_for_network_def 1 2 by (simp add: sort)
qed

end
