(* ===== verification/Bounty_Theorems.thy ===== *)
theory Bounty_Theorems
  imports Bounty_Promotion
begin

text \<open>
  What settlement pays: the credits of a family are exactly its rewards, cut off at its budget; the
  conditions under which a committed list of shares settles at all; and that the proposer's choice
  always meets them.
\<close>

section \<open>Registries\<close>

definition registry_ok :: "family_manifest_registry \<Rightarrow> bool" where
  "registry_ok r \<longleftrightarrow> bt_wf r \<and> (\<forall>(k, m) \<in> set r. fm_family_id m = k)"

lemma registry_ok_register: "registry_ok r \<Longrightarrow> registry_ok (registry_register m r)"
  using set_bt_insert_subset [of "fm_family_id m" m r]
  by (auto simp: registry_ok_def registry_register_def bt_wf_insert)

lemma registry_ok_fold: "registry_ok (fold registry_register ms registry_new)"
proof -
  have "registry_ok r \<Longrightarrow> registry_ok (fold registry_register ms r)" for r
    by (induction ms arbitrary: r) (simp_all add: registry_ok_register)
  moreover have "registry_ok registry_new" by (simp add: registry_new_def registry_ok_def)
  ultimately show ?thesis by blast
qed

lemma registry_get_id: "registry_ok r \<Longrightarrow> registry_get r f = Some m \<Longrightarrow> fm_family_id m = f"
  by (auto simp: registry_ok_def registry_get_def dest!: map_of_SomeD)

section \<open>What rows ask for and what credits pay\<close>

definition rows_of :: "string \<Rightarrow> promoted_bounty_share list \<Rightarrow> nat" where
  "rows_of f committed = length (filter (\<lambda>s. pb_family_id s = f) committed)"

definition share_reward :: "promoted_bounty_share \<Rightarrow> nat" where
  "share_reward s = (case parse_word (pb_reward s) :: u128 option of None \<Rightarrow> 0 | Some v \<Rightarrow> unat v)"

definition rewards_of :: "string \<Rightarrow> promoted_bounty_share list \<Rightarrow> nat" where
  "rewards_of f committed = sum_list (map share_reward (filter (\<lambda>s. pb_family_id s = f) committed))"

definition credit_amount :: "promoted_bounty_credit \<Rightarrow> nat" where
  "credit_amount c = (case parse_word (pc_amount c) :: u128 option of None \<Rightarrow> 0 | Some v \<Rightarrow> unat v)"

definition credited :: "string \<Rightarrow> promoted_bounty_credit list \<Rightarrow> nat" where
  "credited f credits = sum_list (map credit_amount (filter (\<lambda>c. pc_family_id c = f) credits))"

definition pays_no_reward :: "family_manifest \<Rightarrow> bool" where
  "pays_no_reward m \<longleftrightarrow> fp_mode (fm_reward_policy m) = ''no_protocol_reward''"

definition row_ok :: "family_manifest_registry \<Rightarrow> u64 \<Rightarrow> promoted_bounty_share list \<Rightarrow> promoted_bounty_share \<Rightarrow> bool" where
  "row_ok r h committed s \<longleftrightarrow>
     (\<exists>m. registry_get r (pb_family_id s) = Some m \<and> settlement_eligible m h \<and>
        rows_of (pb_family_id s) committed \<le> unat (max_rows m)) \<and> (parse_word (pb_reward s) :: u128 option) \<noteq> None"

lemma rows_of_simps [simp]:
  "rows_of f [] = 0" "rows_of f (xs @ [s]) = rows_of f xs + (if pb_family_id s = f then 1 else 0)"
  by (simp_all add: rows_of_def)

lemma rewards_of_simps [simp]:
  "rewards_of f [] = 0" "rewards_of f (xs @ [s]) = rewards_of f xs + (if pb_family_id s = f then share_reward s else 0)"
  by (simp_all add: rewards_of_def)

lemma credited_simps [simp]:
  "credited f [] = 0" "credited f (cs @ [c]) = credited f cs + (if pc_family_id c = f then credit_amount c else 0)"
  by (simp_all add: credited_def)

section \<open>The settlement loop\<close>

definition family_settled ::
    "family_manifest_registry \<Rightarrow> u64 \<Rightarrow> promoted_bounty_share list \<Rightarrow> promoted_bounty_credit list \<Rightarrow> (string, u128) btree \<Rightarrow> string \<Rightarrow> bool" where
  "family_settled r h xs credits budgets f \<longleftrightarrow>
     (if rows_of f xs = 0 then map_of budgets f = None \<and> credited f credits = 0 \<and> rewards_of f xs = 0
      else \<exists>m. registry_get r f = Some m \<and> settlement_eligible m h \<and> rows_of f xs \<le> unat (max_rows m) \<and>
        (if pays_no_reward m then credited f credits = 0
         else \<exists>b. map_of budgets f = Some b \<and> unat b + credited f credits = unat (credit_budget m) \<and>
           credited f credits = min (unat (credit_budget m)) (rewards_of f xs)))"

definition settle_inv :: "family_manifest_registry \<Rightarrow> u64 \<Rightarrow> promoted_bounty_share list \<Rightarrow> settlement_state \<Rightarrow> bool" where
  "settle_inv r h xs = (\<lambda>(credits, rows, budgets).
     bt_wf rows \<and> bt_wf budgets \<and> (\<forall>f. unat (bt_get_or 0 rows f) = rows_of f xs) \<and>
     (\<forall>f. family_settled r h xs credits budgets f) \<and>
     (\<forall>c \<in> set credits. 0 < credit_amount c) \<and> (\<forall>s \<in> set xs. (parse_word (pb_reward s) :: u128 option) \<noteq> None))"

lemma settle_inv_start: "settle_inv r h [] ([], [], [])"
  by (simp add: settle_inv_def family_settled_def bt_get_or_def)

text \<open>A row of another family leaves what a family was settled for.\<close>

lemma family_settled_other:
  assumes "family_settled r h xs credits budgets f" and "pb_family_id s \<noteq> f"
    and "map_of budgets' f = map_of budgets f" and "credited f credits' = credited f credits"
  shows "family_settled r h (xs @ [s]) credits' budgets' f"
proof -
  have "rows_of f (xs @ [s]) = rows_of f xs" "rewards_of f (xs @ [s]) = rewards_of f xs" using assms(2) by simp_all
  with assms(1) show ?thesis unfolding family_settled_def assms(3,4) by (simp only:)
qed

lemma settle_row_Inr:
  assumes "registry_ok r" and "settle_row r h (credits, rows, budgets) s = Inr st"
  obtains m seen reward where "registry_get r (pb_family_id s) = Some m" "settlement_eligible m h"
    "checked_add (bt_get_or 0 rows (pb_family_id s)) 1 = Some seen" "seen \<le> max_rows m"
    "parse_word (pb_reward s) = Some (reward :: u128)"
    "st = (if pays_no_reward m then (credits, bt_insert (pb_family_id s) seen rows, budgets)
       else let budgets' = bt_or_insert (pb_family_id s) (credit_budget m) budgets;
              left = bt_get_or 0 budgets' (pb_family_id s); credit = min reward left
         in if credit > 0
            then (credits @ [\<lparr>pc_family_id = pb_family_id s, pc_bounty_id = pb_bounty_id s,
                     pc_prover = pb_prover s, pc_amount = word_to_string credit\<rparr>],
                  bt_insert (pb_family_id s) seen rows, bt_insert (pb_family_id s) (left - credit) budgets')
            else (credits, bt_insert (pb_family_id s) seen rows, budgets'))"
proof -
  from assms(2) obtain m seen reward where *: "registry_get r (pb_family_id s) = Some m" "settlement_eligible m h"
    "checked_add (bt_get_or 0 rows (fm_family_id m)) 1 = Some seen" "\<not> seen > max_rows m"
    "parse_word (pb_reward s) = Some (reward :: u128)"
    unfolding settle_row_def by (auto simp: result_simps Let_def)
  from registry_get_id [OF assms(1) *(1)] have id: "fm_family_id m = pb_family_id s" .
  show thesis
  proof (rule that [OF *(1,2) *(3) [unfolded id] _ *(5)])
    show "seen \<le> max_rows m" using *(4) by simp
    show "st = (if pays_no_reward m then (credits, bt_insert (pb_family_id s) seen rows, budgets)
       else let budgets' = bt_or_insert (pb_family_id s) (credit_budget m) budgets;
              left = bt_get_or 0 budgets' (pb_family_id s); credit = min reward left
         in if credit > 0
            then (credits @ [\<lparr>pc_family_id = pb_family_id s, pc_bounty_id = pb_bounty_id s,
                     pc_prover = pb_prover s, pc_amount = word_to_string credit\<rparr>],
                  bt_insert (pb_family_id s) seen rows, bt_insert (pb_family_id s) (left - credit) budgets')
            else (credits, bt_insert (pb_family_id s) seen rows, budgets'))"
      using assms(2) by (auto simp: settle_row_def * *(3) [unfolded id] id Let_def pays_no_reward_def split: if_split_asm)
  qed
qed

lemma budget_left_eq:
  assumes "bt_wf budgets"
  shows "bt_get_or 0 (bt_or_insert f (v :: u128) budgets) f = (case map_of budgets f of None \<Rightarrow> v | Some b \<Rightarrow> b)"
  using assms by (simp add: bt_get_or_def map_of_bt_or_insert split: option.split)

lemma settle_budget:
  assumes "family_settled r h xs credits budgets f" and "registry_get r f = Some m" and "\<not> pays_no_reward m"
    and "left = (case map_of budgets f of None \<Rightarrow> credit_budget m | Some b \<Rightarrow> b)"
  shows "unat left + credited f credits = unat (credit_budget m)"
    and "credited f credits = min (unat (credit_budget m)) (rewards_of f xs)"
  using assms by (auto simp: family_settled_def split: if_split_asm)

lemma credit_amount_word [simp]: "credit_amount \<lparr>pc_family_id = f, pc_bounty_id = b, pc_prover = p, pc_amount = word_to_string (v :: u128)\<rparr> = unat v"
  by (simp add: credit_amount_def parse_word_to_string)

lemma settle_row_inv:
  assumes ok: "registry_ok r" and inv: "settle_inv r h xs st" and step: "settle_row r h st s = Inr st'"
  shows "settle_inv r h (xs @ [s]) st'"
proof -
  obtain credits rows budgets where st: "st = (credits, rows, budgets)" by (cases st)
  let ?f = "pb_family_id s"
  from inv have wfs: "bt_wf rows" "bt_wf budgets" and rows: "unat (bt_get_or 0 rows f) = rows_of f xs"
    and fam: "family_settled r h xs credits budgets f" and pos: "\<forall>c \<in> set credits. 0 < credit_amount c"
    and dec: "\<forall>s \<in> set xs. (parse_word (pb_reward s) :: u128 option) \<noteq> None" for f
    by (simp_all add: settle_inv_def st)
  from settle_row_Inr [OF ok step [unfolded st]] obtain m seen reward where
    m: "registry_get r ?f = Some m" "settlement_eligible m h" "checked_add (bt_get_or 0 rows ?f) 1 = Some seen"
      "seen \<le> max_rows m" "parse_word (pb_reward s) = Some (reward :: u128)"
    and st': "st' = (if pays_no_reward m then (credits, bt_insert ?f seen rows, budgets)
       else let budgets' = bt_or_insert ?f (credit_budget m) budgets;
              left = bt_get_or 0 budgets' ?f; credit = min reward left
         in if credit > 0
            then (credits @ [\<lparr>pc_family_id = ?f, pc_bounty_id = pb_bounty_id s,
                     pc_prover = pb_prover s, pc_amount = word_to_string credit\<rparr>],
                  bt_insert ?f seen rows, bt_insert ?f (left - credit) budgets')
            else (credits, bt_insert ?f seen rows, budgets'))" .
  have seen: "unat seen = rows_of ?f xs + 1" using m(3) rows [of ?f] by (simp add: checked_simps)
  have rows': "bt_wf (bt_insert ?f seen rows)" "unat (bt_get_or 0 (bt_insert ?f seen rows) f) = rows_of f (xs @ [s])" for f
    using wfs rows [of f] seen by (simp_all add: bt_wf_insert bt_get_or_insert)
  have le: "rows_of ?f (xs @ [s]) \<le> unat (max_rows m)" using m(4) seen by (simp add: word_le_nat_alt)
  have dec': "\<forall>s \<in> set (xs @ [s]). (parse_word (pb_reward s) :: u128 option) \<noteq> None" using dec m(5) by auto
  have rew: "share_reward s = unat reward" by (simp add: share_reward_def m(5))
  show ?thesis
  proof (cases "pays_no_reward m")
    case True
    have "credited ?f credits = 0" using fam [of ?f] m(1) True by (auto simp: family_settled_def split: if_split_asm)
    then have "family_settled r h (xs @ [s]) credits budgets ?f" using m le True by (simp add: family_settled_def)
    with fam have "\<forall>f. family_settled r h (xs @ [s]) credits budgets f"
      using family_settled_other by metis
    then show ?thesis using True st' rows' wfs pos dec' by (simp add: settle_inv_def)
  next
    case False
    define left where "left = (case map_of budgets ?f of None \<Rightarrow> credit_budget m | Some b \<Rightarrow> b)"
    define credit where "credit = min reward left"
    define credits' where "credits' = (if credit > 0 then credits @ [\<lparr>pc_family_id = ?f, pc_bounty_id = pb_bounty_id s,
                     pc_prover = pb_prover s, pc_amount = word_to_string credit\<rparr>] else credits)"
    define budgets' where "budgets' = (if credit > 0 then bt_insert ?f (left - credit) (bt_or_insert ?f (credit_budget m) budgets)
       else bt_or_insert ?f (credit_budget m) budgets)"
    have st'_eq: "st' = (credits', bt_insert ?f seen rows, budgets')"
      using st' False by (simp add: Let_def budget_left_eq wfs left_def credit_def credits'_def budgets'_def)
    have cr: "unat credit = min (unat reward) (unat left)" by (simp add: credit_def min_def word_le_nat_alt)
    have credited': "credited f credits' = credited f credits + (if f = ?f then unat credit else 0)" for f
      by (auto simp: credits'_def word_gt_0)
    have sub: "unat (left - credit) = unat left - unat credit" by (rule unat_sub) (simp add: credit_def)
    have get': "map_of budgets' f = (if f = ?f then Some (left - credit) else map_of budgets f)" for f
      using wfs by (auto simp: budgets'_def bt_wf_or_insert map_of_bt_insert map_of_bt_or_insert left_def word_gt_0 split: option.split)
    note bud = settle_budget [OF fam m(1) False left_def]
    have "family_settled r h (xs @ [s]) credits' budgets' ?f"
      using m le False get' [of ?f] credited' [of ?f] sub cr bud rew by (simp add: family_settled_def) linarith
    moreover have "family_settled r h (xs @ [s]) credits' budgets' f" if "?f \<noteq> f" for f
      using fam that by (rule family_settled_other) (use that get' [of f] credited' [of f] in auto)
    ultimately have "\<forall>f. family_settled r h (xs @ [s]) credits' budgets' f" by metis
    moreover have "\<forall>c \<in> set credits'. 0 < credit_amount c"
      using pos by (auto simp: credits'_def word_gt_0 unat_gt_0)
    moreover have "bt_wf budgets'" using wfs by (simp add: budgets'_def bt_wf_insert bt_wf_or_insert)
    ultimately show ?thesis using st'_eq rows' dec' by (simp add: settle_inv_def)
  qed
qed

lemma settle_row_ok:
  assumes "registry_ok r" and "settle_inv r h xs st" and "row_ok r h (xs @ [s]) s"
  shows "\<exists>st'. settle_row r h st s = Inr st'"
proof -
  obtain credits rows budgets where st: "st = (credits, rows, budgets)" by (cases st)
  from assms(3) obtain m reward where m: "registry_get r (pb_family_id s) = Some m" "settlement_eligible m h"
    "rows_of (pb_family_id s) xs + 1 \<le> unat (max_rows m)" "parse_word (pb_reward s) = Some (reward :: u128)"
    by (auto simp: row_ok_def)
  note id = registry_get_id [OF assms(1) m(1)]
  have rows: "unat (bt_get_or 0 rows (pb_family_id s)) = rows_of (pb_family_id s) xs"
    using assms(2) by (simp add: settle_inv_def st)
  then obtain seen where seen: "checked_add (bt_get_or 0 rows (pb_family_id s)) 1 = Some seen" "unat seen = rows_of (pb_family_id s) xs + 1"
    using m(3) unat_u64_less [of "max_rows m"]
    by (cases "checked_add (bt_get_or 0 rows (pb_family_id s)) 1") (simp_all add: checked_simps)
  then have "\<not> seen > max_rows m" using m(3) by (simp add: word_less_nat_alt)
  then show ?thesis using m seen by (simp add: settle_row_def st id Let_def)
qed

lemma settle_run:
  assumes "registry_ok r" and "try_fold (settle_row r h) ([], [], []) xs = Inr st"
  shows "settle_inv r h xs st"
  using assms(2)
proof (induction xs arbitrary: st rule: rev_induct)
  case Nil
  then show ?case using settle_inv_start by simp
next
  case (snoc s xs)
  then obtain st0 where "try_fold (settle_row r h) ([], [], []) xs = Inr st0" "settle_row r h st0 s = Inr st"
    by (auto simp: try_fold_snoc rbind_eq_Inr)
  with snoc.IH show ?case by (blast intro: settle_row_inv [OF assms(1)])
qed

lemma row_ok_prefix: "row_ok r h (xs @ ys) s \<Longrightarrow> row_ok r h xs s"
  by (auto simp: row_ok_def rows_of_def)

lemma settle_rows_ok:
  assumes "registry_ok r" and "\<forall>s \<in> set xs. row_ok r h xs s"
  shows "\<exists>st. try_fold (settle_row r h) ([], [], []) xs = Inr st"
  using assms(2)
proof (induction xs rule: rev_induct)
  case (snoc s xs)
  then have "\<forall>s \<in> set xs. row_ok r h xs s" by (auto dest: row_ok_prefix)
  with snoc.IH obtain st where st: "try_fold (settle_row r h) ([], [], []) xs = Inr st" by blast
  obtain st' where "settle_row r h st s = Inr st'"
    using settle_row_ok [OF assms(1) settle_run [OF assms(1) st], of s] snoc.prems by (simp del: split_paired_Ex) blast
  with st show ?case by (simp add: try_fold_snoc del: split_paired_Ex)
qed simp

text \<open>A list of committed shares settles exactly when each of its rows is acceptable.\<close>

lemma settlement_ok_iff:
  assumes "registry_ok r"
  shows "is_ok (derive_bounty_settlement xs r h) \<longleftrightarrow> (\<forall>s \<in> set xs. row_ok r h xs s)"
proof
  assume "is_ok (derive_bounty_settlement xs r h)"
  then obtain st where "try_fold (settle_row r h) ([], [], []) xs = Inr st"
    by (auto simp: derive_bounty_settlement_def is_ok_iff rbind_eq_Inr)
  from settle_run [OF assms this] have inv: "settle_inv r h xs st" .
  show "\<forall>s \<in> set xs. row_ok r h xs s"
  proof
    fix s assume s: "s \<in> set xs"
    then have "rows_of (pb_family_id s) xs \<noteq> 0" by (auto simp: rows_of_def filter_empty_conv)
    with inv s show "row_ok r h xs s"
      by (cases st) (auto simp: settle_inv_def row_ok_def family_settled_def dest!: spec [of _ "pb_family_id s"])
  qed
next
  assume "\<forall>s \<in> set xs. row_ok r h xs s"
  from settle_rows_ok [OF assms this] show "is_ok (derive_bounty_settlement xs r h)"
    by (auto simp: derive_bounty_settlement_def split: prod.split)
qed

lemma settlement_credits:
  assumes "registry_ok r" and "derive_bounty_settlement xs r h = Inr credits"
  shows "credited f credits = (case registry_get r f of None \<Rightarrow> 0 | Some m \<Rightarrow>
           if pays_no_reward m then 0 else min (unat (credit_budget m)) (rewards_of f xs))"
    and "\<forall>c \<in> set credits. 0 < credit_amount c"
proof -
  from assms(2) obtain rows budgets where "try_fold (settle_row r h) ([], [], []) xs = Inr (credits, rows, budgets)"
    by (auto simp: derive_bounty_settlement_def rbind_eq_Inr)
  from settle_run [OF assms(1) this] have "family_settled r h xs credits budgets f" "\<forall>c \<in> set credits. 0 < credit_amount c"
    by (simp_all add: settle_inv_def)
  then show "credited f credits = (case registry_get r f of None \<Rightarrow> 0 | Some m \<Rightarrow>
           if pays_no_reward m then 0 else min (unat (credit_budget m)) (rewards_of f xs))"
    "\<forall>c \<in> set credits. 0 < credit_amount c"
    by (auto simp: family_settled_def split: if_split_asm option.split)
qed

text \<open>
  What one row is paid, after the rows before it: the lesser of its reward and what these left of the family's budget,
  to the row's own prover; a row that is paid nothing gives no credit.
\<close>

definition row_credit :: "family_manifest_registry \<Rightarrow> promoted_bounty_share list \<Rightarrow> promoted_bounty_share \<Rightarrow> promoted_bounty_credit list" where
  "row_credit r earlier s =
     (case registry_get r (pb_family_id s) of
        None \<Rightarrow> []
      | Some m \<Rightarrow>
          let amount = min (share_reward s) (unat (credit_budget m) - rewards_of (pb_family_id s) earlier)
          in if fp_mode (fm_reward_policy m) = ''no_protocol_reward'' \<or> amount = 0 then []
             else [\<lparr>pc_family_id = pb_family_id s, pc_bounty_id = pb_bounty_id s, pc_prover = pb_prover s,
                    pc_amount = nat_to_dec amount\<rparr>])"

lemma settle_row_credit:
  assumes ok: "registry_ok r" and inv: "settle_inv r h xs (credits, rows, budgets)"
    and step: "settle_row r h (credits, rows, budgets) s = Inr (credits', rows', budgets')"
  shows "credits' = credits @ row_credit r xs s"
proof -
  let ?f = "pb_family_id s"
  from inv have wf: "bt_wf budgets" and fam: "family_settled r h xs credits budgets ?f" by (simp_all add: settle_inv_def)
  from settle_row_Inr [OF ok step] obtain m seen reward where
    m: "registry_get r ?f = Some m" "parse_word (pb_reward s) = Some (reward :: u128)"
    and st': "(credits', rows', budgets') = (if pays_no_reward m then (credits, bt_insert ?f seen rows, budgets)
       else let budgets' = bt_or_insert ?f (credit_budget m) budgets;
              left = bt_get_or 0 budgets' ?f; credit = min reward left
         in if credit > 0
            then (credits @ [\<lparr>pc_family_id = ?f, pc_bounty_id = pb_bounty_id s,
                     pc_prover = pb_prover s, pc_amount = word_to_string credit\<rparr>],
                  bt_insert ?f seen rows, bt_insert ?f (left - credit) budgets')
            else (credits, bt_insert ?f seen rows, budgets'))" .
  show ?thesis
  proof (cases "pays_no_reward m")
    case True
    with st' m(1) show ?thesis by (simp add: row_credit_def pays_no_reward_def)
  next
    case False
    define left where "left = (case map_of budgets ?f of None \<Rightarrow> credit_budget m | Some b \<Rightarrow> b)"
    from settle_budget [OF fam m(1) False left_def] have "unat left = unat (credit_budget m) - rewards_of ?f xs" by linarith
    moreover define n where "n = min (share_reward s) (unat (credit_budget m) - rewards_of ?f xs)"
    ultimately have n: "unat (min reward left) = n" using m(2) by (simp add: share_reward_def min_def word_le_nat_alt)
    then have pos: "0 < min reward left \<longleftrightarrow> n \<noteq> 0" by (metis unat_eq_0 word_gt_0)
    have "row_credit r xs s = (if n = 0 then [] else [\<lparr>pc_family_id = ?f, pc_bounty_id = pb_bounty_id s,
        pc_prover = pb_prover s, pc_amount = nat_to_dec n\<rparr>])"
      unfolding row_credit_def Let_def n_def [symmetric] using False m(1) by (simp add: pays_no_reward_def n_def [symmetric])
    moreover have "credits' = (if 0 < min reward left then credits @ [\<lparr>pc_family_id = ?f, pc_bounty_id = pb_bounty_id s,
        pc_prover = pb_prover s, pc_amount = word_to_string (min reward left)\<rparr>] else credits)"
      using st' False by (simp add: Let_def budget_left_eq [OF wf] left_def split: if_split_asm)
    ultimately show ?thesis unfolding pos by (simp add: word_to_string_def n)
  qed
qed

lemma settlement_rows:
  assumes ok: "registry_ok r" and "try_fold (settle_row r h) ([], [], []) xs = Inr (credits, rows, budgets)"
  shows "credits = concat (map (\<lambda>i. row_credit r (take i xs) (xs ! i)) [0..<length xs])"
  using assms(2)
proof (induction xs arbitrary: credits rows budgets rule: rev_induct)
  case (snoc s xs)
  then obtain c0 r0 b0 where st0: "try_fold (settle_row r h) ([], [], []) xs = Inr (c0, r0, b0)"
    and step: "settle_row r h (c0, r0, b0) s = Inr (credits, rows, budgets)"
    by (auto simp: try_fold_snoc rbind_eq_Inr)
  have "map (\<lambda>i. row_credit r (take i (xs @ [s])) ((xs @ [s]) ! i)) [0..<length xs] =
      map (\<lambda>i. row_credit r (take i xs) (xs ! i)) [0..<length xs]"
    by (rule map_cong) (simp_all add: nth_append)
  moreover have "take (length xs) (xs @ [s]) = xs" by simp
  ultimately have "concat (map (\<lambda>i. row_credit r (take i (xs @ [s])) ((xs @ [s]) ! i)) [0..<length (xs @ [s])]) = c0 @ row_credit r xs s"
    using snoc.IH [OF st0] by (simp del: take_append map_eq_conv)
  then show ?case using settle_row_credit [OF ok settle_run [OF ok st0] step] by (simp only:)
qed simp

section \<open>The side pool\<close>

text \<open>The requests the node makes of the pool.\<close>

datatype side_pool_op = InsertShare bounty_share | RemovePromoted "promoted_bounty_share list"

fun side_pool_op_step :: "bounty_side_pool \<Rightarrow> side_pool_op \<Rightarrow> bounty_side_pool" where
  "side_pool_op_step p (InsertShare s) = side_pool_insert s p"
| "side_pool_op_step p (RemovePromoted ps) = fst (remove_promoted p ps)"

definition side_pool_ok :: "bounty_side_pool \<Rightarrow> bool" where
  "side_pool_ok p \<longleftrightarrow> bt_wf p \<and> (\<forall>(k, ss) \<in> set p. ss \<noteq> [] \<and> (\<forall>s \<in> set ss. bs_family_id s = k))"

lemma bucket_ok: "side_pool_ok p \<Longrightarrow> s \<in> set (bt_get_or [] p f) \<Longrightarrow> bs_family_id s = f"
  by (cases "map_of p f") (auto simp: side_pool_ok_def bt_get_or_def dest!: map_of_SomeD)

lemma side_pool_ok_put:
  assumes "side_pool_ok p" and "ss \<noteq> []" and "\<forall>s \<in> set ss. bs_family_id s = k"
  shows "side_pool_ok (bt_insert k ss p)"
  using assms set_bt_insert_subset [of k ss p] by (fastforce simp: side_pool_ok_def bt_wf_insert)

lemma side_pool_ok_insert: "side_pool_ok p \<Longrightarrow> side_pool_ok (side_pool_insert s p)"
  by (auto simp: side_pool_insert_def intro!: side_pool_ok_put dest: bucket_ok)

lemma side_pool_ok_remove_step:
  assumes "side_pool_ok p" shows "side_pool_ok (fst (remove_promoted_step e (p, n)))"
proof (cases "map_of p (pb_family_id e)")
  case None
  with assms show ?thesis by (simp add: remove_promoted_step_def)
next
  case (Some bucket)
  have "bs_family_id s = pb_family_id e" if "s \<in> set bucket" for s
    using bucket_ok [OF assms, of s "pb_family_id e"] that Some by (simp add: bt_get_or_def)
  then show ?thesis
    using assms Some by (auto simp: remove_promoted_step_def Let_def filter_empty_conv intro!: side_pool_ok_put)
      (auto simp: side_pool_ok_def bt_wf_filter bt_remove_def)
qed

lemma side_pool_ok_remove: "side_pool_ok p \<Longrightarrow> side_pool_ok (fst (remove_promoted p ps))"
proof -
  have "side_pool_ok (fst q) \<Longrightarrow> side_pool_ok (fst (fold remove_promoted_step ps q))" for q
    by (induction ps arbitrary: q) (simp, metis fold_simps(2) prod.collapse side_pool_ok_remove_step)
  then show "side_pool_ok p \<Longrightarrow> ?thesis" by (simp add: remove_promoted_def)
qed

interpretation side_pool: total_system side_pool_op_step side_pool_ok
proof
  show "side_pool_ok (side_pool_op_step p x)" if "side_pool_ok p" for p x
    using that by (cases x) (simp_all add: side_pool_ok_insert side_pool_ok_remove)
qed

lemma side_pool_reachable_ok: "side_pool_ok (foldl side_pool_op_step side_pool_new ops)"
  by (rule side_pool.foldl_inv) (simp add: side_pool_new_def side_pool_ok_def)

section \<open>Promotion\<close>

lemma promote_family_rows:
  assumes "side_pool_ok p" and "s \<in> set (promote_family E p h pks m)"
  shows "pb_family_id s = fm_family_id m \<and> settlement_eligible m h \<and> (parse_word (pb_reward s) :: u128 option) \<noteq> None"
  using assms bucket_ok [OF assms(1)]
  by (auto simp: promote_family_def promote_share_def shares_for_family_def parse_word_to_string
      split: if_split_asm option.split_asm dest!: in_set_takeD)

lemma promote_family_length: "length (promote_family E p h pks m) \<le> unat (max_rows m)"
  by (auto simp: promote_family_def max_rows_def split: option.split)

lemma rows_of_concat:
  assumes "side_pool_ok p" and "distinct (map fm_family_id ms)" and "m \<in> set ms"
  shows "rows_of (fm_family_id m) (concat (map (promote_family E p h pks) ms)) = length (promote_family E p h pks m)"
proof -
  have other: "filter (\<lambda>s. pb_family_id s = f) (promote_family E p h pks m') = []" if "fm_family_id m' \<noteq> f" for m' f
    using that promote_family_rows [OF assms(1)] by (auto simp: filter_empty_conv)
  have none: "filter (\<lambda>s. pb_family_id s = f) (concat (map (promote_family E p h pks) ms)) = []"
    if "f \<notin> fm_family_id ` set ms" for f and ms :: "family_manifest list"
    using that other by (induction ms) auto
  have own: "filter (\<lambda>s. pb_family_id s = fm_family_id m) (promote_family E p h pks m) = promote_family E p h pks m"
    using promote_family_rows [OF assms(1)] by (auto simp: filter_id_conv)
  show ?thesis
    using assms(2,3) unfolding rows_of_def
  proof (induction ms)
    case (Cons a ms)
    show ?case
    proof (cases "m = a")
      case True
      with Cons.prems(1) own none [of "fm_family_id a" ms] show ?thesis by simp
    next
      case False
      with Cons.prems have "fm_family_id a \<noteq> fm_family_id m" by force
      with Cons False other show ?thesis by simp
    qed
  qed simp
qed

lemma promotion_rows_ok:
  assumes "side_pool_ok p" and "registry_ok r"
  shows "\<forall>s \<in> set (concat (map (promote_family E p h pks) (registry_iter r))).
    row_ok r h (concat (map (promote_family E p h pks) (registry_iter r))) s"
proof
  let ?shares = "concat (map (promote_family E p h pks) (registry_iter r))"
  have ids: "map fm_family_id (registry_iter r) = map fst r"
    using assms(2) by (auto simp: registry_ok_def registry_iter_def)
  then have dist: "distinct (map fm_family_id (registry_iter r))"
    using assms(2) by (simp add: registry_ok_def bt_wf_distinct)
  fix s assume "s \<in> set ?shares"
  then obtain m where m: "m \<in> set (registry_iter r)" "s \<in> set (promote_family E p h pks m)" by auto
  from m(1) assms(2) have "(fm_family_id m, m) \<in> set r" by (auto simp: registry_iter_def registry_ok_def)
  then have "registry_get r (fm_family_id m) = Some m"
    using assms(2) by (simp add: registry_get_def registry_ok_def bt_wf_distinct)
  then show "row_ok r h ?shares s"
    using promote_family_rows [OF assms(1) m(2)] rows_of_concat [OF assms(1) dist m(1)] promote_family_length
    by (auto simp: row_ok_def)
qed

section \<open>Properties\<close>

text \<open>C37. Settlement pays row by row, in the committed order: each row's prover gets the lesser of the reward the row
  announces and what the earlier rows of its family left of the family's credit budget per block, and nothing when
  the family pays no protocol reward; a row that is paid nothing leaves no credit. So a family is paid exactly
  the sum of its rewards, cut off at its budget. Settlement succeeds exactly when every row names a registered family
  that is active and eligible at the height, no family has more rows than its cap, and every reward is a
  decimal number.\<close>

theorem settlement_pays_capped_rewards:
  fixes ms :: "family_manifest list"
  defines "r \<equiv> fold registry_register ms registry_new"
  shows "(is_ok (derive_bounty_settlement committed r h) \<longleftrightarrow>
      (\<forall>s \<in> set committed. (parse_word (pb_reward s) :: u128 option) \<noteq> None \<and>
         (\<exists>m. registry_get r (pb_family_id s) = Some m \<and> settlement_eligible m h \<and>
            length (filter (\<lambda>s'. pb_family_id s' = pb_family_id s) committed) \<le> unat (max_rows m)))) \<and>
    (derive_bounty_settlement committed r h = Ok credits \<longrightarrow>
      credits = concat (map (\<lambda>i. row_credit r (take i committed) (committed ! i)) [0..<length committed]) \<and>
      credited f credits = (case registry_get r f of None \<Rightarrow> 0 | Some m \<Rightarrow>
        if fp_mode (fm_reward_policy m) = ''no_protocol_reward'' then 0 else min (unat (credit_budget m)) (rewards_of f committed)) \<and>
      (\<forall>c \<in> set credits. 0 < credit_amount c))"
proof -
  have "credits = concat (map (\<lambda>i. row_credit r (take i committed) (committed ! i)) [0..<length committed])"
    if "derive_bounty_settlement committed r h = Ok credits"
    using that settlement_rows [OF registry_ok_fold [of ms, folded r_def], of h committed]
    by (auto simp: derive_bounty_settlement_def rbind_eq_Inr)
  then show ?thesis
    using settlement_ok_iff [OF registry_ok_fold, of committed ms h] settlement_credits [OF registry_ok_fold, of committed ms h credits]
    unfolding r_def row_ok_def rows_of_def pays_no_reward_def by blast
qed

definition ex_promoted :: promoted_bounty_share where
  "ex_promoted = \<lparr>pb_family_id = ''v1-lenbound'', pb_bounty_id = ''b1'', pb_proof_hash = ''00'', pb_prover = ''p'', pb_reward = ''9''\<rparr>"

definition ex_credit :: promoted_bounty_credit where
  "ex_credit = \<lparr>pc_family_id = ''v1-lenbound'', pc_bounty_id = ''b1'', pc_prover = ''p'', pc_amount = ''7''\<rparr>"

lemma ex_settlement:
  "derive_bounty_settlement [ex_promoted] (fold registry_register [ex_manifest] registry_new) 5 = Ok [ex_credit]"
proof -
  have "char_of (55 :: nat) = CHR ''7''" by code_simp
  then have p: "(parse_word ''7'' :: u128 option) = Some 7" "(parse_word ''9'' :: u128 option) = Some 9"
    "word_to_string (7 :: u128) = ''7''"
    by (simp_all add: parse_word_def parse_uint_def digit_val_def word_to_string_def nat_to_dec.simps)
  show ?thesis
    by (simp add: derive_bounty_settlement_def settle_row_def registry_register_def registry_new_def registry_get_def
        ex_manifest_def ex_promoted_def ex_credit_def Let_def settlement_eligible_def SETTLEMENT_ELIGIBLE_STATUSES_def
        checked_add_def bt_get_or_def bt_or_insert_def max_rows_def credit_budget_def p)
qed

theorem settlement_pays_capped_rewards_witness:
  "derive_bounty_settlement [ex_promoted] (fold registry_register [ex_manifest] registry_new) 5 = Ok [ex_credit] \<and>
   row_credit (fold registry_register [ex_manifest] registry_new) [] ex_promoted = [ex_credit] \<and>
   credited ''v1-lenbound'' [ex_credit] = 7 \<and> rewards_of ''v1-lenbound'' [ex_promoted] = 9"
proof -
  have get: "registry_get (fold registry_register [ex_manifest] registry_new) ''v1-lenbound'' = Some ex_manifest"
    by (simp add: registry_register_def registry_new_def registry_get_def ex_manifest_def Let_def)
  have r: "rewards_of ''v1-lenbound'' [ex_promoted] = 9" "unat (credit_budget ex_manifest) = 7"
    "fp_mode (fm_reward_policy ex_manifest) \<noteq> ''no_protocol_reward''"
    by (simp_all add: rewards_of_def share_reward_def ex_promoted_def credit_budget_def ex_manifest_def Let_def
        parse_word_def parse_uint_def digit_val_def)
  from settlement_pays_capped_rewards [of "[ex_promoted]" "[ex_manifest]" 5 "[ex_credit]" "''v1-lenbound''"]
  show ?thesis using ex_settlement get r by force
qed

text \<open>C38. The proposer's selection of bounty shares never reaches its panic: whatever was inserted into the side
  pool and removed from it, and whatever manifests are registered, the chosen shares settle, so the credits
  the proposer announces are those that replay derives from the committed rows.\<close>

theorem promotion_always_settles:
  "\<exists>sel. select_promoted_bounty_selection E (foldl side_pool_op_step side_pool_new ops)
      (fold registry_register ms registry_new) h pks = Some sel \<and>
    derive_bounty_settlement (sel_shares sel) (fold registry_register ms registry_new) h = Ok (sel_credits sel)"
proof -
  let ?p = "foldl side_pool_op_step side_pool_new ops" and ?r = "fold registry_register ms registry_new"
  have "is_ok (derive_bounty_settlement (concat (map (promote_family E ?p h pks) (registry_iter ?r))) ?r h)"
    by (intro settlement_ok_iff [THEN iffD2] registry_ok_fold promotion_rows_ok side_pool_reachable_ok)
  then show ?thesis by (auto simp: is_ok_iff select_promoted_bounty_selection_def Let_def)
qed

end
