(* ===== verification/Replay_Accounting.thy ===== *)
theory Replay_Accounting
  imports Replay Bounty_Theorems
begin

text \<open>
  Lemmas on the replay loop: what one accepted block does to the replay state, how the loop runs over
  a chain, and the balances it leaves.
\<close>

section \<open>Sets of credited proofs\<close>

lemma insert_fresh_Inr [result_simps]:
  "insert_fresh err seen xs = Inr seen' \<longleftrightarrow> distinct xs \<and> set xs \<inter> seen = {} \<and> seen' = seen \<union> set xs"
  unfolding insert_fresh_def by (induction xs arbitrary: seen) auto

section \<open>Balances\<close>

definition bal :: "(string, u128) btree \<Rightarrow> string \<Rightarrow> nat" where
  "bal b pk = unat (bt_get_or 0 b pk)"

definition amount_of :: "string \<Rightarrow> nat" where
  "amount_of s = (case parse_word s :: u128 option of None \<Rightarrow> 0 | Some v \<Rightarrow> unat v)"

lemma bal_Nil [simp]: "bal [] pk = 0"
  by (simp add: bal_def bt_get_or_def)

lemma amount_of_word [simp]: "amount_of (word_to_string (v :: u128)) = unat v"
  by (simp add: amount_of_def parse_word_to_string)

lemma credit_amount_of: "credit_amount c = amount_of (pc_amount c)"
  by (simp add: credit_amount_def amount_of_def)

lemma credit_amount_to_Inr:
  assumes "bt_wf b" and "credit_amount_to b k txt = Inr b'"
  shows "bt_wf b'" and "bal b' pk = bal b pk + (if pk = k then amount_of txt else 0)"
  using assms
  by (auto simp: credit_amount_to_def checked_credit_def result_simps checked_simps bt_wf_insert bal_def bt_get_or_insert
      amount_of_def)

definition paid_to :: "string \<Rightarrow> persisted_credit list \<Rightarrow> nat" where
  "paid_to pk credits = sum_list (map (amount_of \<circ> pr_amount) (filter (\<lambda>c. pr_pk c = pk) credits))"

definition proved_by :: "string \<Rightarrow> promoted_bounty_credit list \<Rightarrow> nat" where
  "proved_by pk credits = sum_list (map credit_amount (filter (\<lambda>c. pc_prover c = pk) credits))"

lemma credit_base_Inr:
  assumes "bt_wf b" and "credit_base b credits = Inr b'"
  shows "bt_wf b' \<and> bal b' pk = bal b pk + paid_to pk credits"
  using assms unfolding credit_base_def
proof (induction credits arbitrary: b)
  case (Cons c credits)
  then obtain b1 where 1: "credit_amount_to b (pr_pk c) (pr_amount c) = Inr b1"
    "try_fold (\<lambda>b credit. credit_amount_to b (pr_pk credit) (pr_amount credit)) b1 credits = Inr b'"
    by (auto split: sum.split_asm)
  note step = credit_amount_to_Inr [OF Cons.prems(1) 1(1)]
  from Cons.IH [OF step(1) 1(2)] step(2) [of pk] show ?case by (simp add: paid_to_def)
qed (simp add: paid_to_def)

lemma credit_bounty_Inr:
  assumes "bt_wf b" and "bt_wf f" and "credit_bounty (b, f) credits = Inr (b', f')"
  shows "bt_wf b' \<and> bt_wf f' \<and> bal b' pk = bal b pk + proved_by pk credits \<and> bal f' fam = bal f fam + credited fam credits"
  using assms unfolding credit_bounty_def
proof (induction credits arbitrary: b f)
  case (Cons c credits)
  then obtain b1 f1 where 1: "credit_amount_to b (pc_prover c) (pc_amount c) = Inr b1"
    "credit_amount_to f (pc_family_id c) (pc_amount c) = Inr f1"
    "try_fold (\<lambda>(balances, by_family) credit.
       rbind (credit_amount_to balances (pc_prover credit) (pc_amount credit)) (\<lambda>balances.
       rbind (credit_amount_to by_family (pc_family_id credit) (pc_amount credit)) (\<lambda>by_family.
       Ok (balances, by_family)))) (b1, f1) credits = Inr (b', f')"
    by (auto simp: rbind_eq_Inr split: sum.split_asm)
  note sb = credit_amount_to_Inr [OF Cons.prems(1) 1(1)] and sf = credit_amount_to_Inr [OF Cons.prems(2) 1(2)]
  from Cons.IH [OF sb(1) sf(1) 1(3)] sb(2) [of pk] sf(2) [of fam] show ?case
    by (simp add: proved_by_def credited_def credit_amount_of)
qed (simp add: proved_by_def credited_def)

section \<open>Base credits\<close>

lemma count_credit_Inr:
  assumes "bt_wf t" and "count_credit t k = Inr t'"
  shows "bt_wf t' \<and> bal t' pk = bal t pk + (if pk = k then 1 else 0) \<and>
    ((\<forall>p \<in> set t. 0 < snd p) \<longrightarrow> (\<forall>p \<in> set t'. 0 < snd p))"
proof -
  from assms(2) obtain v where v: "unat v = unat (bt_get_or 0 t k) + 1" "t' = bt_insert k v t"
    by (auto simp: count_credit_def result_simps checked_simps)
  then have "v > 0" by (simp add: word_gt_0 word_unat_eq_iff)
  then have "(\<forall>p \<in> set t. 0 < snd p) \<Longrightarrow> (\<forall>p \<in> set t'. 0 < snd p)"
    using v(2) set_bt_insert_subset [of k v t] by auto
  then show ?thesis using assms(1) v by (auto simp: bt_wf_insert bal_def bt_get_or_insert)
qed

lemma paid_to_totals:
  assumes "bt_wf t"
  shows "paid_to pk (map (\<lambda>(pk, amount). \<lparr>pr_pk = pk, pr_amount = word_to_string amount\<rparr>) t) = bal t pk"
  using assms
proof (induction t)
  case (Cons p t)
  obtain a v where p: "p = (a, v)" by (cases p)
  have "map_of t a = None" using Cons.prems by (auto simp: p bt_wf_Cons map_of_eq_None_iff)
  with Cons show ?case by (auto simp: p bt_wf_Cons paid_to_def bal_def bt_get_or_def)
qed (simp add: paid_to_def)

lemma compute_credits_Inr:
  assumes "compute_block_credits_for_reward_pks E proposer sinks = Inr credits"
  shows "paid_to pk credits = count_list sinks pk + (if pk = proposer then 1 else 0)"
    and "\<forall>c \<in> set credits. 0 < amount_of (pr_amount c) \<and> (parse_word (pr_amount c) :: u128 option) \<noteq> None"
    and "credits \<noteq> []"
proof -
  let ?step = "\<lambda>totals pk. rbind (map_err CreditHex (hex32_from_hex E pk)) (\<lambda>_. count_credit totals pk)"
  let ?list = "map (\<lambda>(pk, amount). \<lparr>pr_pk = pk, pr_amount = word_to_string (amount :: u128)\<rparr>)"
  from assms obtain t t' where t: "try_fold ?step [] sinks = Inr t" "count_credit t proposer = Inr t'" "credits = ?list t'"
    unfolding compute_block_credits_for_reward_pks_def by (auto simp: result_simps)
  have run: "bt_wf u' \<and> bal u' pk = bal u pk + count_list xs pk \<and> ((\<forall>p \<in> set u. 0 < snd p) \<longrightarrow> (\<forall>p \<in> set u'. 0 < snd p))"
    if "bt_wf u" "try_fold ?step u xs = Inr u'" for u u' xs and pk :: string
    using that
  proof (induction xs arbitrary: u)
    case (Cons x xs)
    then obtain u1 where 1: "count_credit u x = Inr u1" "try_fold ?step u1 xs = Inr u'"
      by (auto simp: result_simps split: sum.split_asm)
    from count_credit_Inr [OF Cons.prems(1) 1(1), of pk] Cons.IH [OF _ 1(2)] show ?case by auto
  qed simp
  from run [OF _ t(1)] have t1: "bt_wf t" "bal t pk = count_list sinks pk" "\<forall>p \<in> set t. 0 < snd p" for pk by auto
  from count_credit_Inr [OF t1(1) t(2)] have t2: "bt_wf t'" "bal t' pk = bal t pk + (if pk = proposer then 1 else 0)"
    "\<forall>p \<in> set t'. 0 < snd p" for pk using t1(3) by auto
  show "paid_to pk credits = count_list sinks pk + (if pk = proposer then 1 else 0)"
    using paid_to_totals [OF t2(1)] t2(2) t1(2) t(3) by simp
  show "\<forall>c \<in> set credits. 0 < amount_of (pr_amount c) \<and> (parse_word (pr_amount c) :: u128 option) \<noteq> None"
    using t2(3) t(3) by (auto simp: word_gt_0 unat_gt_0 parse_word_to_string)
  have "bal t' proposer \<noteq> 0" using t2(2) by simp
  then show "credits \<noteq> []" using t(3) by auto
qed

section \<open>One block\<close>

lemma replay_step_Inr:
  assumes "replay_step E pol gp net reg st (i, b) = Inr st'"
  obtains credits balances bounty balances' by_family where
    "validate_shape E b = Inr ()" "bl_height b = of_nat i" "bl_prev_c b = rs_latest_c st" "bl_c b = hex32_to_hex E (block_hash E b)"
    "verify_selected_share_evidence E b pol net = Inr ()" "check_genesis_params gp b = Inr ()" "verify_canonical_selection E b = Inr ()"
    "distinct (map ev_canon_hash (bl_selected_share_evidence b))"
    "set (map ev_canon_hash (bl_selected_share_evidence b)) \<inter> rs_credited_canon_hashes st = {}"
    "distinct (map bounty_identity (bl_promoted_bounty_shares b))"
    "set (map bounty_identity (bl_promoted_bounty_shares b)) \<inter> rs_credited_bounty_proofs st = {}"
    "compute_block_reward_credits E b = Inr credits" "credit_base (rs_balances st) credits = Inr balances"
    "derive_bounty_settlement (bl_promoted_bounty_shares b) reg (bl_height b) = Inr bounty"
    "credit_bounty (balances, rs_bounty_credit_by_family st) bounty = Inr (balances', by_family)"
    "st' = \<lparr>rs_latest_c = bl_c b, rs_balances = balances', rs_bounty_credit_by_family = by_family,
       rs_credited_canon_hashes = rs_credited_canon_hashes st \<union> set (map ev_canon_hash (bl_selected_share_evidence b)),
       rs_credited_bounty_proofs = rs_credited_bounty_proofs st \<union> set (map bounty_identity (bl_promoted_bounty_shares b))\<rparr>"
proof -
  note step = assms [unfolded replay_step_def prod.case rbind_eq_Inr map_err_eq_Inr ensure_eq_Inr insert_fresh_Inr]
  from step show thesis
    apply (elim exE conjE)
    subgoal for _ _ _ _ _ _ _ _ _ _ _ _ x
      by (cases x, rule that) (simp_all only: prod.case sum.inject, (erule sym | rule unit_eq)+)
    done
qed

section \<open>A chain\<close>

definition replay_run ::
    "ext \<Rightarrow> evidence_policy \<Rightarrow> genesis_params option \<Rightarrow> string option \<Rightarrow> family_manifest_registry \<Rightarrow> string \<Rightarrow>
     persisted_block list \<Rightarrow> replay_error + replay_state" where
  "replay_run E pol gp net reg g blocks = try_fold (replay_step E pol gp net reg) (replay_start g) (enumerate 0 blocks)"

lemma replay_run_Nil [simp]: "replay_run E pol gp net reg g [] = Inr (replay_start g)"
  by (simp add: replay_run_def)

lemma replay_run_snoc:
  "replay_run E pol gp net reg g (blocks @ [b]) =
     rbind (replay_run E pol gp net reg g blocks) (\<lambda>st. replay_step E pol gp net reg st (length blocks, b))"
  by (simp add: replay_run_def enumerate_append_eq try_fold_snoc)

lemma replay_run_prefix:
  assumes "replay_run E pol gp net reg g (xs @ ys) = Inr st"
  shows "\<exists>st'. replay_run E pol gp net reg g xs = Inr st'"
  using assms
proof (induction ys arbitrary: st rule: rev_induct)
  case (snoc y ys)
  have "replay_run E pol gp net reg g (xs @ ys @ [y]) = replay_run E pol gp net reg g ((xs @ ys) @ [y])" by simp
  with snoc.prems obtain st1 where "replay_run E pol gp net reg g (xs @ ys) = Inr st1"
    by (simp only: replay_run_snoc rbind_eq_Inr) blast
  with snoc.IH show ?case by blast
qed simp

lemma replay_run_block:
  assumes "replay_run E pol gp net reg g blocks = Inr st" and "i < length blocks"
  obtains st0 st1 where "replay_run E pol gp net reg g (take i blocks) = Inr st0"
    "replay_step E pol gp net reg st0 (i, blocks ! i) = Inr st1"
proof -
  have "blocks = (take i blocks @ [blocks ! i]) @ drop (Suc i) blocks"
    using assms(2) by (simp add: take_Suc_conv_app_nth [symmetric])
  with assms(1) have "\<exists>st'. replay_run E pol gp net reg g (take i blocks @ [blocks ! i]) = Inr st'"
    using replay_run_prefix by metis
  then show thesis using that assms(2) by (auto simp: replay_run_snoc rbind_eq_Inr)
qed

definition chain_proofs :: "persisted_block list \<Rightarrow> string list" where
  "chain_proofs blocks = concat (map (\<lambda>b. map ev_canon_hash (bl_selected_share_evidence b)) blocks)"

definition chain_bounties :: "persisted_block list \<Rightarrow> (string \<times> string \<times> string) list" where
  "chain_bounties blocks = concat (map (\<lambda>b. map bounty_identity (bl_promoted_bounty_shares b)) blocks)"

text \<open>What a block pays to a key, and to a family.\<close>

definition block_bounty :: "family_manifest_registry \<Rightarrow> persisted_block \<Rightarrow> promoted_bounty_credit list" where
  "block_bounty reg b =
     (case derive_bounty_settlement (bl_promoted_bounty_shares b) reg (bl_height b) of Inl _ \<Rightarrow> [] | Inr cs \<Rightarrow> cs)"

definition block_pays :: "family_manifest_registry \<Rightarrow> string \<Rightarrow> persisted_block \<Rightarrow> nat" where
  "block_pays reg pk b = count_list (share_reward_sinks b) pk + (if pk = proposer_reward_sink b then 1 else 0) +
     proved_by pk (block_bounty reg b)"

definition replay_ok_state ::
    "family_manifest_registry \<Rightarrow> string \<Rightarrow> persisted_block list \<Rightarrow> replay_state \<Rightarrow> bool" where
  "replay_ok_state reg g blocks st \<longleftrightarrow>
     rs_latest_c st = (if blocks = [] then g else bl_c (last blocks)) \<and>
     distinct (chain_proofs blocks) \<and> rs_credited_canon_hashes st = set (chain_proofs blocks) \<and>
     distinct (chain_bounties blocks) \<and> rs_credited_bounty_proofs st = set (chain_bounties blocks) \<and>
     bt_wf (rs_balances st) \<and> bt_wf (rs_bounty_credit_by_family st) \<and>
     (\<forall>pk. bal (rs_balances st) pk = sum_list (map (block_pays reg pk) blocks)) \<and>
     (\<forall>f. bal (rs_bounty_credit_by_family st) f = sum_list (map (credited f \<circ> block_bounty reg) blocks))"

lemma replay_step_ok_state:
  assumes "replay_ok_state reg g blocks st" and "replay_step E pol gp net reg st (i, b) = Inr st'"
  shows "replay_ok_state reg g (blocks @ [b]) st'"
proof -
  from assms(2) obtain credits balances bounty balances' by_family where
    s: "distinct (map ev_canon_hash (bl_selected_share_evidence b))"
    "set (map ev_canon_hash (bl_selected_share_evidence b)) \<inter> rs_credited_canon_hashes st = {}"
    "distinct (map bounty_identity (bl_promoted_bounty_shares b))"
    "set (map bounty_identity (bl_promoted_bounty_shares b)) \<inter> rs_credited_bounty_proofs st = {}"
    "compute_block_reward_credits E b = Inr credits" "credit_base (rs_balances st) credits = Inr balances"
    "derive_bounty_settlement (bl_promoted_bounty_shares b) reg (bl_height b) = Inr bounty"
    "credit_bounty (balances, rs_bounty_credit_by_family st) bounty = Inr (balances', by_family)"
    "st' = \<lparr>rs_latest_c = bl_c b, rs_balances = balances', rs_bounty_credit_by_family = by_family,
       rs_credited_canon_hashes = rs_credited_canon_hashes st \<union> set (map ev_canon_hash (bl_selected_share_evidence b)),
       rs_credited_bounty_proofs = rs_credited_bounty_proofs st \<union> set (map bounty_identity (bl_promoted_bounty_shares b))\<rparr>"
    by (rule replay_step_Inr)
  from assms(1) have ok: "bt_wf (rs_balances st)" "bt_wf (rs_bounty_credit_by_family st)"
    "\<And>pk. bal (rs_balances st) pk = sum_list (map (block_pays reg pk) blocks)"
    "\<And>f. bal (rs_bounty_credit_by_family st) f = sum_list (map (credited f \<circ> block_bounty reg) blocks)"
    by (simp_all add: replay_ok_state_def)
  from assms(1) have seen: "distinct (chain_proofs blocks)" "rs_credited_canon_hashes st = set (chain_proofs blocks)"
    "distinct (chain_bounties blocks)" "rs_credited_bounty_proofs st = set (chain_bounties blocks)"
    by (simp_all add: replay_ok_state_def)
  have app: "chain_proofs (blocks @ [b]) = chain_proofs blocks @ map ev_canon_hash (bl_selected_share_evidence b)"
    "chain_bounties (blocks @ [b]) = chain_bounties blocks @ map bounty_identity (bl_promoted_bounty_shares b)"
    by (simp_all add: chain_proofs_def chain_bounties_def)
  have bb: "block_bounty reg b = bounty" by (simp add: block_bounty_def s(7))
  have base: "bt_wf balances" "bal balances pk = bal (rs_balances st) pk + paid_to pk credits" for pk
    using credit_base_Inr [OF ok(1) s(6)] by auto
  have paid: "paid_to pk credits = count_list (share_reward_sinks b) pk + (if pk = proposer_reward_sink b then 1 else 0)" for pk
    by (rule compute_credits_Inr(1)) (rule s(5) [unfolded compute_block_reward_credits_def])
  have bnt: "bt_wf balances'" "bt_wf by_family" "bal balances' pk = bal balances pk + proved_by pk bounty"
    "bal by_family f = bal (rs_bounty_credit_by_family st) f + credited f bounty" for pk f
    using credit_bounty_Inr [OF base(1) ok(2) s(8)] by auto
  show ?thesis
    unfolding replay_ok_state_def
  proof (intro conjI allI)
    show "bal (rs_balances st') pk = sum_list (map (block_pays reg pk) (blocks @ [b]))" for pk
      by (simp add: s(9) bnt base paid ok(3) block_pays_def bb)
    show "bal (rs_bounty_credit_by_family st') f = sum_list (map (credited f \<circ> block_bounty reg) (blocks @ [b]))" for f
      by (simp add: s(9) bnt ok(4) bb)
    show "distinct (chain_proofs (blocks @ [b]))" "distinct (chain_bounties (blocks @ [b]))"
      using seen s(1-4) by (simp_all add: app) blast+
  qed (simp_all add: s(9) bnt app seen)
qed

lemma replay_run_ok_state:
  "replay_run E pol gp net reg g blocks = Inr st \<Longrightarrow> replay_ok_state reg g blocks st"
proof (induction blocks arbitrary: st rule: rev_induct)
  case Nil
  then show ?case by (auto simp: replay_ok_state_def replay_start_def chain_proofs_def chain_bounties_def)
next
  case (snoc b blocks)
  then obtain st0 where "replay_run E pol gp net reg g blocks = Inr st0" "replay_step E pol gp net reg st0 (length blocks, b) = Inr st"
    by (auto simp: replay_run_snoc rbind_eq_Inr)
  with snoc.IH show ?case by (blast intro: replay_step_ok_state)
qed

lemma replay_rules_Inr:
  assumes "replay_blocks_with_rules E blocks pol g gp net reg = Inr r"
  obtains st where "verify_block_ts_median_time_past blocks = Inr ()" "replay_run E pol gp net reg g blocks = Inr st"
    "r = \<lparr>rr_latest_c = rs_latest_c st, rr_height = of_nat (length blocks), rr_balances = rs_balances st,
         rr_bounty_credit_by_family = rs_bounty_credit_by_family st\<rparr>"
  using assms unfolding replay_blocks_with_rules_def replay_run_def by (auto simp: result_simps)

end
