(* ===== verification/Production.thy ===== *)
theory Production
  imports Runtime Block_Builder_Theorems Replay_Accounting
begin

text \<open>
  From admission to replay: every candidate that admission leaves in the runtime satisfies what replay
  demands of a selected share, so the block assembled from a selection passes replay's shape, evidence
  and selection checks.
\<close>

section \<open>Laws in use\<close>

definition production_laws :: "ext \<Rightarrow> bool" where
  "production_laws E \<longleftrightarrow> digest32 E \<and> hex_laws E \<and> biguint_laws E"

lemma production_laws_ref_ext: "production_laws ref_ext"
  by (simp add: production_laws_def digest32_ref_ext hex_laws_ref_ext biguint_laws_ref_ext)

lemma parse_fmt_0x064: "biguint_laws E \<Longrightarrow> parse_biguint_hex E (fmt_0x064 E n) = Some n"
  by (simp add: parse_biguint_hex_def fmt_0x064_def strip_0x_def biguint_laws_def)

lemma blake3_hex:
  assumes "production_laws E" shows "hex32_from_hex E (hex32_to_hex E (ext_blake3 E bs)) = Inr (ext_blake3 E bs)"
  using assms hex32_from_to [of E "ext_blake3 E bs"] by (simp add: production_laws_def digest32_def)

lemma sha256_hex:
  assumes "production_laws E" shows "hex32_from_hex E (ext_hex_encode E (ext_sha256 E bs)) = Inr (ext_sha256 E bs)"
  using assms hex32_from_to [of E "ext_sha256 E bs"] by (simp add: production_laws_def digest32_def hex32_to_hex_def)

section \<open>Sound candidates\<close>

definition package_fits :: "u8 list \<Rightarrow> bool" where
  "package_fits bytes \<longleftrightarrow>
     (\<exists>d n u. validate_proof_package_with_limits bytes (unat BASE_LANE_MAX_PROOF_BYTES) (unat BASE_LANE_MAX_DECLS) = ValidationOk d n u)"

lemma check_package_fits: "package_fits bytes \<Longrightarrow> check_package bytes idx = Inr ()"
  by (auto simp: package_fits_def check_package_def)

definition share_ok :: "ext \<Rightarrow> candidate_share \<Rightarrow> bool" where
  "share_ok E s \<longleftrightarrow>
     (\<exists>c pk n j bytes.
        hex32_from_hex E (cs_c s) = Inr c \<and> hex32_from_hex E (cs_pk s) = Inr pk \<and>
        hex32_from_hex E (cs_n s) = Inr n \<and> hex32_from_hex E (cs_j s) = Inr j \<and>
        cs_proof_package s = ext_hex_encode E bytes \<and> package_fits bytes \<and>
        cs_canon_hash s = ext_hex_encode E (ext_sha256 E bytes) \<and>
        cs_share_hash s = hex32_to_hex E (share_hash E c pk n j (ext_sha256 E bytes)) \<and>
        cs_score s = ext_biguint_to_string E (share_score (share_hash E c pk n j (ext_sha256 E bytes))) \<and>
        (cs_seed_hex s \<noteq> [] \<longrightarrow> find_target_seed_j_index E c pk n (cs_seed_hex s) \<noteq> None) \<and>
        (cs_reward_pk s \<noteq> [] \<longrightarrow> is_ok (hex32_from_hex E (cs_reward_pk s))))"

text \<open>The admission limits of the policy do not exceed the limits that replay enforces.\<close>

definition limits_within_rules :: "calibration_policy \<Rightarrow> bool" where
  "limits_within_rules policy \<longleftrightarrow>
     cp_l policy \<le> unat BASE_LANE_MAX_PROOF_BYTES \<and> cp_d_max policy \<le> unat BASE_LANE_MAX_DECLS"

lemma policy_package_fits:
  assumes "validate_proof_package_with_policy bytes policy = ValidationOk d n u" and "limits_within_rules policy"
  shows "package_fits bytes"
proof -
  from assms obtain walked where w: "walk_package bytes = Inr walked" "length bytes \<le> cp_l policy" "wr_size walked \<le> cp_l policy"
    "wr_decl_count walked \<le> usize_as_u32 (cp_d_max policy)"
    unfolding validate_proof_package_with_policy_def validate_proof_package_with_limits_def
    by (auto split: if_split_asm sum.split_asm)
  have d: "cp_d_max policy \<le> 1024" "cp_l policy \<le> 16384"
    using assms(2) by (simp_all add: limits_within_rules_def BASE_LANE_MAX_DECLS_def BASE_LANE_MAX_PROOF_BYTES_def)
  then have "usize_as_u32 (cp_d_max policy) \<le> usize_as_u32 1024"
    by (simp add: usize_as_u32_def word_le_nat_alt unat_of_nat)
  with w d show ?thesis
    by (simp add: package_fits_def validate_proof_package_with_limits_def BASE_LANE_MAX_DECLS_def BASE_LANE_MAX_PROOF_BYTES_def)
qed

section \<open>Admission yields sound candidates\<close>

lemma parse_submission_hex:
  assumes "parse_submission_body E body = Inr s"
  shows "hex32_from_hex E (sub_c_hex s) = Inr (sub_c s)" "hex32_from_hex E (sub_pk_hex s) = Inr (sub_pk s)"
    "hex32_from_hex E (sub_n_hex s) = Inr (sub_n s)" "hex32_from_hex E (sub_j_hex s) = Inr (sub_j s)"
  using assms unfolding parse_submission_body_def
  by (auto simp only: rbind_eq_Inr hex32_field_def map_err_eq_Inr sum.inject parsed_submission.simps)

lemma check_submission_Inr:
  assumes "check_submission E policy limiter pool s = Some (Inr canon_hash)"
  shows "canon_hash = ext_sha256 E (sub_package_bytes s)"
    and "\<exists>d n u. validate_proof_package_with_policy (sub_package_bytes s) policy = ValidationOk d n u"
    and "sub_seed_hex s \<noteq> [] \<longrightarrow> find_target_seed_j_index E (sub_c s) (sub_pk s) (sub_n s) (sub_seed_hex s) \<noteq> None"
    and "sp_current_c pool = None \<or> sp_current_c pool = Some (sub_c_hex s)"
  using assms unfolding check_submission_def Let_def
  by (auto split: if_split_asm option.split_asm ticket_admission_result.split_asm validation_result.split_asm
      submission_pow_result.split_asm)

lemma check_submission_Inl:
  "check_submission E policy limiter pool s = Some (Inl decision) \<Longrightarrow> decision \<noteq> AdmissionAccepted digest"
  unfolding check_submission_def Let_def
  by (auto simp: unprocessable_def split: if_split_asm option.split_asm ticket_admission_result.split_asm
      validation_result.split_asm submission_pow_result.split_asm)

lemma admitted_digest:
  assumes "admit_parsed_submission_typed E policy limiter pool now ip s = Some (AdmissionAccepted digest, limiter', pool')"
  shows "check_submission E policy limiter pool s = Some (Inr (ext_sha256 E (sub_package_bytes s)))"
    and "digest = share_hash E (sub_c s) (sub_pk s) (sub_n s) (sub_j s) (ext_sha256 E (sub_package_bytes s))"
proof -
  from assms obtain r where r: "check_submission E policy limiter pool s = Some r"
    unfolding admit_parsed_submission_typed_def by (cases "check_submission E policy limiter pool s") simp_all
  obtain canon where c: "r = Inr canon" and d: "digest = share_hash E (sub_c s) (sub_pk s) (sub_n s) (sub_j s) canon"
  proof (cases r)
    case (Inl decision)
    with assms r have "decision = AdmissionAccepted digest" by (simp add: admit_parsed_submission_typed_def)
    with check_submission_Inl r Inl show ?thesis by blast
  next
    case (Inr canon)
    with assms r obtain rate where rate: "peek limiter now ip (sub_pk_hex s) (sub_c_hex s) = Some rate"
      unfolding admit_parsed_submission_typed_def by (cases "peek limiter now ip (sub_pk_hex s) (sub_c_hex s)") simp_all
    obtain res p where acc: "accept pool (admission_pool_share s) = (res, p)" by fastforce
    from assms r Inr rate acc have "digest = share_hash E (sub_c s) (sub_pk s) (sub_n s) (sub_j s) canon"
      unfolding admit_parsed_submission_typed_def
      by (cases rate; cases "accept_result_reason_typed res"; cases "commit limiter now ip (sub_pk_hex s) (sub_c_hex s)")
        (simp_all add: unprocessable_def Let_def)
    with Inr that show ?thesis by blast
  qed
  from r c have c: "check_submission E policy limiter pool s = Some (Inr canon)" by simp
  with d check_submission_Inr(1) [OF c] show "check_submission E policy limiter pool s = Some (Inr (ext_sha256 E (sub_package_bytes s)))"
    "digest = share_hash E (sub_c s) (sub_pk s) (sub_n s) (sub_j s) (ext_sha256 E (sub_package_bytes s))" by simp_all
qed

lemma admitted_candidate_ok:
  assumes "parse_submission_body E body = Inr s"
    and "admit_parsed_submission_typed E policy limiter pool now ip s = Some (AdmissionAccepted digest, limiter', pool')"
    and "limits_within_rules policy" and "case reward_pk of None \<Rightarrow> True | Some pk \<Rightarrow> is_ok (hex32_from_hex E pk)"
  shows "share_ok E (admitted_candidate E s digest tag reward_pk work)"
proof -
  note d = admitted_digest [OF assms(2)]
  note chk = check_submission_Inr [OF d(1)]
  from chk(2) assms(3) have "package_fits (sub_package_bytes s)" by (auto intro: policy_package_fits)
  with parse_submission_hex [OF assms(1)] chk(3) assms(4) d(2) show ?thesis
    unfolding share_ok_def admitted_candidate_def by (auto split: option.split_asm)
qed

section \<open>The machine of admissions\<close>

text \<open>
  What callers do to the runtime between two blocks, with the candidates that a caller holds for semantic
  verification: only such a candidate is restored.
\<close>

datatype admission_op =
    ObserveTicket "(string \<times> json) list"
  | Admit int string "(string \<times> json) list" u8 "string option" "share_work_authorization option"
  | Quarantine string
  | TakeForReverify string int string
  | RestoreReverified nat
  | ReleaseReservation nat int string

fun admission_op_ok :: "ext \<Rightarrow> admission_op \<Rightarrow> bool" where
  "admission_op_ok E (Admit _ _ _ _ reward_pk _) =
     (case reward_pk of None \<Rightarrow> True | Some pk \<Rightarrow> is_ok (hex32_from_hex E pk))"
| "admission_op_ok E _ = True"

fun admission_op_step ::
    "ext \<Rightarrow> runtime_state \<times> candidate_share list \<Rightarrow> admission_op \<Rightarrow> runtime_state \<times> candidate_share list" where
  "admission_op_step E (rt, held) (ObserveTicket body) = (snd (observe_ticket_from_body rt body), held)"
| "admission_op_step E (rt, held) (Admit now ip body tag reward_pk work) =
     (case admit_body_with_submitter_context E rt now ip body tag reward_pk work of
        None \<Rightarrow> (rt, held) | Some (_, rt') \<Rightarrow> (rt', held))"
| "admission_op_step E (rt, held) (Quarantine digest) = (snd (quarantine_candidate rt digest), held)"
| "admission_op_step E (rt, held) (TakeForReverify digest at ip) =
     (case take_candidate_for_reverify rt digest at ip of
        (None, rt') \<Rightarrow> (rt', held) | (Some s, rt') \<Rightarrow> (rt', held @ [s]))"
| "admission_op_step E (rt, held) (RestoreReverified i) =
     (if i < length held then (snd (restore_reverified_candidate rt (held ! i)), remove_nth i held) else (rt, held))"
| "admission_op_step E (rt, held) (ReleaseReservation i at ip) =
     (if i < length held then (snd (runtime_release_semantic_reservation rt (held ! i) at ip), remove_nth i held)
      else (rt, held))"

text \<open>What admissions keep: sound candidates, and every part of the state that belongs to the chain.\<close>

definition chain_part :: "runtime_state \<Rightarrow> _" where
  "chain_part rt = (rt_config rt, rt_current_c rt, rt_block_cache rt, rt_reward_ledger_path rt, rt_reward_ledger rt,
     rt_family_registry rt, rt_boot_genesis rt, rt_authorization_network_id rt, rt_canonical_state_failure rt)"

definition admission_inv :: "ext \<Rightarrow> runtime_state \<Rightarrow> runtime_state \<times> candidate_share list \<Rightarrow> bool" where
  "admission_inv E rt0 = (\<lambda>(rt, held). chain_part rt = chain_part rt0 \<and>
     (\<forall>s \<in> set (rt_candidates rt) \<union> set held. share_ok E s))"

lemma position_bound: "position P xs = Some i \<Longrightarrow> i < length xs"
  by (induction xs arbitrary: i) (auto split: if_split_asm)

lemma set_remove_nth: "set (remove_nth i xs) \<subseteq> set xs"
  by (auto simp: remove_nth_def dest: in_set_takeD in_set_dropD)

lemma admission_op_inv:
  assumes inv: "admission_inv E rt0 st" and ok: "admission_op_ok E p" and lim: "limits_within_rules (rc_policy (rt_config rt0))"
  shows "admission_inv E rt0 (admission_op_step E st p)"
proof -
  obtain rt held where st: "st = (rt, held)" by (cases st)
  have cs: "chain_part rt = chain_part rt0" "\<And>s. s \<in> set (rt_candidates rt) \<Longrightarrow> share_ok E s" "\<And>s. s \<in> set held \<Longrightarrow> share_ok E s"
    using inv by (auto simp: admission_inv_def st)
  have rem: "s \<in> set (remove_nth i xs) \<Longrightarrow> s \<in> set xs" for s i and xs :: "candidate_share list"
    by (rule subsetD [OF set_remove_nth])
  show ?thesis
  proof (cases p)
    case (ObserveTicket body)
    then show ?thesis using cs
      by (auto simp: st admission_inv_def observe_ticket_from_body_def chain_part_def split: sum.split prod.split)
  next
    case (Admit now ip body tag reward_pk work)
    have "rc_policy (rt_config rt) = rc_policy (rt_config rt0)" using cs(1) by (simp add: chain_part_def)
    then have new: "share_ok E (admitted_candidate E s digest tag reward_pk work)"
      if "parse_submission_body E body = Inr s" and
        "admit_parsed_submission_typed E (rc_policy (rt_config rt)) (rt_rate_limiter rt) (rt_pool rt) now ip s =
           Some (AdmissionAccepted digest, limiter', pool')" for s digest limiter' pool'
      using admitted_candidate_ok [OF that] lim ok Admit by simp
    show ?thesis using cs new
      by (auto simp: st Admit admission_inv_def admit_body_with_submitter_context_def chain_part_def Let_def bind_eq_Some_conv
          split: sum.split option.split admission_decision.split_asm if_split_asm)
  next
    case (Quarantine digest)
    then show ?thesis using cs
      by (auto simp: st admission_inv_def quarantine_candidate_def chain_part_def split: option.split prod.split dest: rem)
  next
    case (TakeForReverify digest at ip)
    then show ?thesis using cs position_bound [of "\<lambda>s. cs_share_hash s = digest" "rt_candidates rt"]
      by (auto simp: st admission_inv_def take_candidate_for_reverify_def chain_part_def Let_def
          split: option.split prod.split if_split_asm dest: rem)
  next
    case (RestoreReverified i)
    then show ?thesis using cs
      by (auto simp: st admission_inv_def restore_reverified_candidate_def chain_part_def Let_def
          split: prod.split dest: rem)
  next
    case (ReleaseReservation i at ip)
    then show ?thesis using cs
      by (auto simp: st admission_inv_def runtime_release_semantic_reservation_def chain_part_def
          split: prod.split dest: rem)
  qed
qed

lemma admission_run_inv:
  assumes "list_all (admission_op_ok E) ops" and "limits_within_rules (rc_policy (rt_config rt0))" and "admission_inv E rt0 st"
  shows "admission_inv E rt0 (foldl (admission_op_step E) st ops)"
  using assms by (induction ops arbitrary: st) (simp_all add: admission_op_inv del: split_paired_All)

section \<open>The assembled block\<close>

text \<open>What the builder's configuration guarantees.\<close>

definition builder_config_ok :: "ext \<Rightarrow> block_builder_config \<Rightarrow> bool" where
  "builder_config_ok E cfg \<longleftrightarrow>
     bc_min_share_score_multiplier_nanos cfg = MIN_SHARE_SCORE_MULTIPLIER_NANOS \<and>
     (\<exists>t. parse_biguint_hex E (bc_t_share cfg) = Some t \<and>
        min_share_score t MIN_SHARE_SCORE_MULTIPLIER_NANOS = Inr (bc_min_share_score cfg)) \<and>
     (\<exists>t w. parse_biguint_hex E (bc_t_block cfg) = Some t \<and> difficulty_weight t = Inr w \<and>
        bc_difficulty_weight cfg = ext_biguint_to_string E w)"

lemma from_policy_with_t_block_ok:
  assumes "production_laws E" and "from_policy_with_t_block E policy t epoch = Inr cfg"
  shows "builder_config_ok E cfg" and "bc_k_max cfg = cp_k_max policy"
  using assms parse_fmt_0x064 [of E]
  by (auto simp: from_policy_with_t_block_def builder_config_ok_def result_simps production_laws_def)

lemma config_for_height_ok:
  assumes "production_laws E" and "block_builder_config_for_height E rt blocks = Inr cfg"
  shows "builder_config_ok E cfg \<and> bc_k_max cfg = cp_k_max (rc_policy (rt_config rt))"
  using assms from_policy_with_t_block_ok [OF assms(1)]
  by (auto simp: block_builder_config_for_height_def from_policy_def result_simps split: option.split_asm)

lemma assemble_block_fields [simp]:
  fixes E h prev ts cfg sel p
  defines "b \<equiv> assemble_block E h prev ts cfg sel p"
  shows "bl_height b = h" "bl_prev_c b = prev" "bl_proposer_pk b = cs_pk p"
    "bl_selected_share_hashes b = map cs_share_hash (bb_selected sel)" "bl_selected_share_pks b = map cs_pk (bb_selected sel)"
    "bl_selected_share_reward_pks b =
       (if list_ex (\<lambda>s. cs_reward_pk s \<noteq> []) (bb_selected sel) then map reward_sink (bb_selected sel) else [])"
    "bl_proposer_reward_pk b = cs_reward_pk p" "bl_selected_share_evidence b = map share_evidence (bb_selected sel)"
    "bl_min_share_score b = ext_biguint_to_string E (bc_min_share_score cfg)"
    "bl_min_share_score_multiplier_nanos b = bc_min_share_score_multiplier_nanos cfg"
    "bl_kmax_applied b = of_nat (length (bb_selected sel))" "bl_t_block b = bc_t_block cfg" "bl_t_share b = bc_t_share cfg"
    "bl_difficulty_weight b = bc_difficulty_weight cfg" "bl_difficulty_epoch b = bc_difficulty_epoch cfg" "bl_ts b = ts"
    "bl_promoted_bounty_shares b = bb_promoted_bounty_shares sel"
  unfolding b_def by (simp_all add: assemble_block_def Let_def)

lemma assemble_block_hash: "bl_c (assemble_block E h prev ts cfg sel p) = hex32_to_hex E (block_hash E (assemble_block E h prev ts cfg sel p))"
  by (simp add: assemble_block_def Let_def block_hash_def block_preimage_def)

lemma share_ok_shape:
  assumes "production_laws E" and "share_ok E s"
  shows "is_ok (hex32_from_hex E (cs_share_hash s))" "is_ok (hex32_from_hex E (cs_pk s))" "is_ok (hex32_from_hex E (reward_sink s))"
    "cs_canon_hash s \<noteq> []"
proof -
  from assms(2) obtain c pk n j bytes where s: "hex32_from_hex E (cs_pk s) = Inr pk"
    "cs_share_hash s = hex32_to_hex E (share_hash E c pk n j (ext_sha256 E bytes))"
    "cs_reward_pk s \<noteq> [] \<longrightarrow> is_ok (hex32_from_hex E (cs_reward_pk s))" "cs_canon_hash s = ext_hex_encode E (ext_sha256 E bytes)"
    unfolding share_ok_def by blast
  then show "is_ok (hex32_from_hex E (cs_pk s))" "is_ok (hex32_from_hex E (reward_sink s))" by (simp_all add: reward_sink_def)
  show "is_ok (hex32_from_hex E (cs_share_hash s))"
    by (simp add: s(2) share_hash_def h_protocol_def blake3_hex [OF assms(1)])
  have "length (cs_canon_hash s) = 64" using assms(1) by (simp add: s(4) production_laws_def digest32_def hex_laws_def)
  then show "cs_canon_hash s \<noteq> []" by auto
qed

text \<open>The evidence of a sound, screened share in an assembled block.\<close>

lemma assembled_evidence_ok:
  assumes E: "production_laws E" and cfg: "builder_config_ok E cfg"
    and s: "i < length (bb_selected sel)" "share_ok E (bb_selected sel ! i)" "screened E prev cfg seen net (bb_selected sel ! i)"
  shows "check_evidence E (assemble_block E h prev ts cfg sel p) (bc_min_share_score cfg) net (i, share_evidence (bb_selected sel ! i)) = Inr ()"
proof -
  let ?s = "bb_selected sel ! i"
  from s(2) obtain c pk n j bytes where k: "hex32_from_hex E (cs_c ?s) = Inr c" "hex32_from_hex E (cs_pk ?s) = Inr pk"
    "hex32_from_hex E (cs_n ?s) = Inr n" "hex32_from_hex E (cs_j ?s) = Inr j"
    "cs_proof_package ?s = ext_hex_encode E bytes" "package_fits bytes"
    "cs_canon_hash ?s = ext_hex_encode E (ext_sha256 E bytes)"
    "cs_share_hash ?s = hex32_to_hex E (share_hash E c pk n j (ext_sha256 E bytes))"
    "cs_score ?s = ext_biguint_to_string E (share_score (share_hash E c pk n j (ext_sha256 E bytes)))"
    "cs_seed_hex ?s \<noteq> [] \<longrightarrow> find_target_seed_j_index E c pk n (cs_seed_hex ?s) \<noteq> None"
    unfolding share_ok_def by blast
  have dec: "ext_hex_decode E (ext_hex_encode E bytes) = Inr bytes"
    and prs: "ext_biguint_parse E (ext_biguint_to_string E m) = Some m" for m
    using E by (simp_all add: production_laws_def hex_laws_def biguint_laws_def)
  from s(3) obtain v where v: "verify_share_work_authorization_for_network E (cs_signed_work ?s) net = Inr v" "authorization_matches v ?s"
    and head: "cs_c ?s = prev" and score: "bc_min_share_score cfg \<le> share_score (share_hash E c pk n j (ext_sha256 E bytes))"
    by (auto simp: screened_def k(9) prs split: sum.split_asm)
  let ?b = "assemble_block E h prev ts cfg sel p"
  have reward: "(if bl_selected_share_reward_pks ?b = [] then Inr (cs_pk ?s) else index (bl_selected_share_reward_pks ?b) i) = Inr (reward_sink ?s)"
  proof (cases "list_ex (\<lambda>s. cs_reward_pk s \<noteq> []) (bb_selected sel)")
    case True
    with s(1) have "bl_selected_share_reward_pks ?b = map reward_sink (bb_selected sel)" "bb_selected sel \<noteq> []" by auto
    with s(1) show ?thesis by (simp add: index_def)
  next
    case False
    with nth_mem [OF s(1)] have "cs_reward_pk ?s = []" by (auto simp: list_ex_iff)
    with False show ?thesis by (simp add: reward_sink_def)
  qed
  have auth: "check_evidence_authorization E ?b net i (share_evidence ?s) = Inr ()"
  proof (cases v)
    case None
    with v(1) show ?thesis by (simp add: check_evidence_authorization_def share_evidence_def)
  next
    case (Some a)
    with v(2) have "va_signer_pk a = cs_pk ?s" "va_work_pk a = cs_pk ?s" "va_work_n a = cs_n ?s" "va_work_j a = cs_j ?s"
      "va_work_c a = cs_c ?s" "va_work_bytes_hex a = cs_proof_package ?s" "va_reward_recipient a = reward_sink ?s"
      by (simp_all add: authorization_matches_def)
    with v(1) Some reward show ?thesis
      unfolding check_evidence_authorization_def share_evidence_def
      by (simp del: assemble_block_fields split: if_split_asm)
  qed
  show ?thesis
    using auth k(1-4) dec head score s(1) k(10) check_package_fits [OF k(6)] sha256_hex [OF E, of bytes]
    by (simp add: check_evidence_def share_evidence_def index_def k(5,7,8) ev_hex32_def) (auto simp: result_simps)
qed

lemma assembled_selection_ok:
  fixes h ts :: u64
  assumes E: "production_laws E" and cfg: "builder_config_ok E cfg"
    and built: "build_block_selection_for_network E prev shares cfg tags seen promoted net = Inr (SelectionOk sel)"
    and shares: "\<forall>s \<in> set shares. share_ok E s"
  defines "b \<equiv> assemble_block E h prev ts cfg sel (bb_selected sel ! bb_proposer_index sel)"
  shows "verify_selected_share_evidence E b Strict net = Inr ()" "verify_canonical_selection E b = Inr ()"
proof -
  note sel = build_SelectionOk [OF built]
  note facts = chosen_facts [of E prev cfg tags seen net shares, folded sel(1)]
  have win: "find (\<lambda>k. below_target (bc_t_block cfg) (map cs_share_hash (bb_selected sel) ! k)) [0..<length (bb_selected sel)] =
      Some (bb_proposer_index sel)"
    using sel(3) by (simp add: select_qualifying_proposer_Inr)
  then have idx: "bb_proposer_index sel < length (bb_selected sel)" by (simp add: find_upt_first)
  then have ne: "bb_selected sel \<noteq> []" by auto
  have ev: "check_evidence E b (bc_min_share_score cfg) net (i, share_evidence (bb_selected sel ! i)) = Inr ()"
    if "i < length (bb_selected sel)" for i
    unfolding b_def
  proof (rule assembled_evidence_ok [OF E cfg that])
    show "share_ok E (bb_selected sel ! i)" "screened E prev cfg seen net (bb_selected sel ! i)"
      using nth_mem [OF that] facts(2) shares by auto
  qed
  from cfg obtain t where t: "parse_biguint_hex E (bc_t_share cfg) = Some t"
    "min_share_score t MIN_SHARE_SCORE_MULTIPLIER_NANOS = Inr (bc_min_share_score cfg)"
    "bc_min_share_score_multiplier_nanos cfg = MIN_SHARE_SCORE_MULTIPLIER_NANOS"
    by (auto simp: builder_config_ok_def)
  have all: "try_for_each (check_evidence E b (bc_min_share_score cfg) net) (enumerate 0 (map share_evidence (bb_selected sel))) = Inr ()"
    using ev by (auto simp: try_for_each_eq_Inr in_set_enumerate_eq)
  have b: "bl_selected_share_evidence b = map share_evidence (bb_selected sel)" "bl_min_share_score b = ext_biguint_to_string E (bc_min_share_score cfg)"
    "bl_min_share_score_multiplier_nanos b = bc_min_share_score_multiplier_nanos cfg" "bl_t_share b = bc_t_share cfg"
    "bl_selected_share_hashes b = map cs_share_hash (bb_selected sel)" "bl_selected_share_pks b = map cs_pk (bb_selected sel)"
    "bl_t_block b = bc_t_block cfg" "bl_proposer_pk b = cs_pk (bb_selected sel ! bb_proposer_index sel)"
    "bl_proposer_reward_pk b = cs_reward_pk (bb_selected sel ! bb_proposer_index sel)"
    by (simp_all add: b_def)
  show "verify_selected_share_evidence E b Strict net = Inr ()"
    using t all ne by (simp add: verify_selected_share_evidence_def b)
  let ?w = "bb_selected sel ! bb_proposer_index sel"
  have "screened E prev cfg seen net ?w" using nth_mem [OF idx] facts(2) by auto
  then have auth: "cs_signed_work ?w = Some a \<Longrightarrow>
      \<exists>v. verify_share_work_authorization E a = Inr v \<and> va_reward_recipient v = reward_sink ?w" for a
    using verify_auth_for_network_present [of E a net] verify_auth_for_network_Some [of E a net]
    by (fastforce simp: screened_def authorization_matches_def split: sum.split_asm option.split_asm)
  have order: "try_for_each check_window (enumerate 0 (zip (map share_evidence (bb_selected sel)) (tl (map share_evidence (bb_selected sel))))) = Inr ()"
  proof -
    have key: "evidence_order_key (share_evidence s) = candidate_order_key s" for s
      by (simp add: evidence_order_key_def share_evidence_def candidate_order_key_def)
    have "compare_canonical (evidence_order_key (share_evidence (bb_selected sel ! i)))
        (evidence_order_key (share_evidence (bb_selected sel ! Suc i))) \<noteq> Greater" if "Suc i < length (bb_selected sel)" for i
      using facts(1) that sorted_nth_mono [of "map candidate_order_key (bb_selected sel)" i "Suc i"]
      by (auto simp: compare_canonical_cmp cmp_def key)
    then show ?thesis
      by (auto simp: try_for_each_eq_Inr in_set_enumerate_eq check_window_def ensure_eq_Inr nth_tl map_tl [symmetric])
  qed
  show "verify_canonical_selection E b = Inr ()"
    using ne order sel(3) idx auth
    by (auto simp: verify_canonical_selection_def b Let_def index_def share_evidence_def reward_sink_def ensure_def split: option.split)
qed

text \<open>The proposer's index is in range, so production fails only without a head or without a proposer.\<close>

lemma produce_Inr:
  assumes "produce_block_for_current_c_with_config E rt h ts tags cfg promoted = Inr b"
  obtains c sel where "rt_current_c rt = Some c"
    "build_block_selection_for_network E c (candidate_shares_for_current_c rt) cfg tags (credited_canon_hashes rt) promoted
       (rt_authorization_network_id rt) = Inr (SelectionOk sel)"
    "bb_proposer_index sel < length (bb_selected sel)"
    "b = assemble_block E h c ts cfg sel (bb_selected sel ! bb_proposer_index sel)"
proof -
  from assms obtain c r where c: "rt_current_c rt = Some c" and r: "build_block_selection_for_network E c
      (candidate_shares_for_current_c rt) cfg tags (credited_canon_hashes rt) promoted (rt_authorization_network_id rt) = Inr r"
    and b: "(case r of NoProposer _ _ _ \<Rightarrow> Err RtNoProposer
     | SelectionOk selection \<Rightarrow>
         if bb_proposer_index selection < length (bb_selected selection)
         then Ok (assemble_block E h c ts cfg selection (bb_selected selection ! bb_proposer_index selection))
         else Err RtProposerIndex) = Inr b"
    unfolding produce_block_for_current_c_with_config_def by (auto simp only: rbind_eq_Inr ok_or_eq_Inr map_err_eq_Inr)
  from b r show thesis by (cases r) (auto intro: that [OF c] split: if_split_asm)
qed

lemma assembled_shape_ok:
  fixes h ts :: u64
  assumes E: "production_laws E" and cfg: "builder_config_ok E cfg" and c: "is_ok (hex32_from_hex E c)"
    and sel: "\<forall>s \<in> set (bb_selected sel). share_ok E s" "p \<in> set (bb_selected sel)" "length (bb_selected sel) < 2 ^ 64"
    and promoted: "\<forall>s \<in> set (bb_promoted_bounty_shares sel). validate_bounty_share_shape E s = Inr ()"
  shows "validate_shape E (assemble_block E h c ts cfg sel p) = Inr ()"
proof -
  let ?b = "assemble_block E h c ts cfg sel p"
  have hex: "hex32_ok E x = Inr ()" if "is_ok (hex32_from_hex E x)" for x
    using that by (auto simp: hex32_ok_def is_ok_iff)
  have hash: "hex32_ok E (bl_c ?b) = Inr ()"
    unfolding assemble_block_hash block_hash_def by (rule hex) (simp add: blake3_hex [OF E])
  note shp = share_ok_shape [OF E]
  have rew: "hex32_ok E (cs_reward_pk p) = Inr ()" if "cs_reward_pk p \<noteq> []"
    using shp(3) [of p] sel(1,2) that by (auto intro: hex simp: reward_sink_def)
  from cfg obtain t w where t: "parse_biguint_hex E (bc_t_block cfg) = Some t" "difficulty_weight t = Inr w"
    "bc_difficulty_weight cfg = ext_biguint_to_string E w" by (auto simp: builder_config_ok_def)
  from cfg obtain u where u: "parse_biguint_hex E (bc_t_share cfg) = Some u" by (auto simp: builder_config_ok_def)
  have prs: "ext_biguint_parse E (ext_biguint_to_string E m) = Some m" for m
    using E by (simp add: production_laws_def biguint_laws_def)
  have each: "try_for_each (hex32_ok E) (map cs_share_hash (bb_selected sel)) = Inr ()"
    "try_for_each (hex32_ok E) (map cs_pk (bb_selected sel)) = Inr ()"
    "try_for_each (hex32_ok E) (map reward_sink (bb_selected sel)) = Inr ()"
    using sel(1) shp by (auto simp: try_for_each_eq_Inr intro!: hex)
  have pk: "hex32_ok E (cs_pk p) = Inr ()" using sel(1,2) shp(2) by (auto intro: hex)
  have len: "unat (of_nat (length (bb_selected sel)) :: u64) = length (bb_selected sel)"
    using sel(3) by (simp add: unat_of_nat)
  have bounty: "try_for_each (validate_bounty_share_shape E) (bb_promoted_bounty_shares sel) = Inr ()"
    using promoted by (simp add: try_for_each_eq_Inr)
  show ?thesis
    unfolding validate_shape_def using hash each pk rew hex [OF c] t u prs len bounty by simp
qed

lemma credited_canon_hashes_eq: "credited_canon_hashes rt = set (chain_proofs (rt_block_cache rt))"
  by (simp add: credited_canon_hashes_def chain_proofs_def)

section \<open>Accounting of the assembled block\<close>

lemma count_credit_ok:
  assumes "bal t k + 1 < 2 ^ 128" shows "\<exists>t'. count_credit t k = Inr t'"
  using assms by (auto simp: count_credit_def checked_add_def bal_def)

lemma compute_credits_ok:
  assumes "sinks \<noteq> []" and "\<forall>pk \<in> set (proposer # sinks). is_ok (hex32_from_hex E pk)" and "length sinks + 1 < 2 ^ 128"
  shows "\<exists>credits. compute_block_credits_for_reward_pks E proposer sinks = Inr credits"
proof -
  let ?step = "\<lambda>totals pk. rbind (map_err CreditHex (hex32_from_hex E pk)) (\<lambda>_. count_credit totals pk)"
  have run: "\<exists>u. try_fold ?step t xs = Inr u \<and> bt_wf u \<and> (\<forall>k. bal u k \<le> m + length xs)"
    if "bt_wf t" "\<forall>k. bal t k \<le> m" "m + length xs < 2 ^ 128" "\<forall>pk \<in> set xs. is_ok (hex32_from_hex E pk)" for t m xs
    using that
  proof (induction xs arbitrary: t m)
    case (Cons x xs)
    have "bal t x \<le> m" "m + Suc (length xs) < 2 ^ 128" using Cons.prems(2,3) by auto
    then have "bal t x + 1 < 2 ^ 128" by linarith
    then obtain t' where t': "count_credit t x = Inr t'" using count_credit_ok by blast
    from count_credit_Inr [OF Cons.prems(1) t'] Cons.prems(2) have "bt_wf t'" "\<forall>k. bal t' k \<le> m + 1" by (auto intro: le_SucI)
    moreover have "try_fold ?step t (x # xs) = try_fold ?step t' xs" using Cons.prems(4) t' by (auto simp: is_ok_iff)
    ultimately show ?case using Cons.IH [of t' "m + 1"] Cons.prems(3,4) by auto
  qed auto
  have "\<exists>u. try_fold ?step [] sinks = Inr u \<and> bt_wf u \<and> (\<forall>k. bal u k \<le> 0 + length sinks)"
    using assms by (intro run) auto
  then obtain u where u: "try_fold ?step [] sinks = Inr u" "bal u proposer \<le> length sinks" by auto
  with assms(3) obtain u' where "count_credit u proposer = Inr u'" using count_credit_ok [of u proposer] by auto
  with u assms show ?thesis by (auto simp: compute_block_credits_for_reward_pks_def is_ok_iff)
qed

lemma credit_base_ok:
  assumes "bt_wf b" and "\<forall>c \<in> set credits. (parse_word (pr_amount c) :: u128 option) \<noteq> None"
    and "\<forall>pk. bal b pk + paid_to pk credits < 2 ^ 128"
  shows "\<exists>b'. credit_base b credits = Inr b'"
  using assms unfolding credit_base_def
proof (induction credits arbitrary: b)
  case (Cons c credits)
  from Cons.prems(2) obtain v :: u128 where v: "parse_word (pr_amount c) = Some v" by auto
  have "bal b (pr_pk c) + unat v < 2 ^ 128"
    using spec [OF Cons.prems(3), of "pr_pk c"] by (simp add: paid_to_def amount_of_def v)
  then obtain b1 where b1: "credit_amount_to b (pr_pk c) (pr_amount c) = Inr b1"
    by (simp add: credit_amount_to_def v checked_credit_def checked_add_def bal_def)
  note step = credit_amount_to_Inr [OF Cons.prems(1) b1]
  have "\<forall>pk. bal b1 pk + paid_to pk credits < 2 ^ 128"
    using Cons.prems(3) by (auto simp: step(2) paid_to_def add.assoc split: if_split_asm)
  with Cons.IH [OF step(1)] Cons.prems(2) b1 show ?case by simp
qed simp

end
