(* ===== verification/Production_Examples.thy ===== *)
theory Production_Examples
  imports Production Validator_Package
begin

text \<open>
  A small network evaluated on the concrete instance of the third-party functions: a node boots on an
  empty chain, observes a ticket, admits a share and produces the first block.
\<close>

definition zeros64 :: string where
  "zeros64 = replicate 64 (CHR ''0'')"

lemma zeros64_hex: "hex32_from_hex ref_ext zeros64 = Inr (replicate 32 0)"
  by (simp add: hex32_from_hex_def zeros64_def ref_ext_def ref_hex_decode_to_slice_def hex_digit_def is_lower_hex_def
      numeral_nat)

lemma ref_digest_small: "digest_to_biguint (ref_digest bs) < 65536"
proof -
  have "foldl (\<lambda>acc b. acc * 256 + unat (b :: u8)) 0 (replicate 30 0) = (0 :: nat)" by (simp add: numeral_nat)
  then have "digest_to_biguint (ref_digest bs) = unat (of_nat (length bs) :: u8) * 256 + unat (sum_list bs)"
    by (simp add: digest_to_biguint_def ref_digest_def)
  moreover have "unat (w :: u8) < 256" for w
    by (rule order.strict_trans2 [OF unsigned_less]) simp
  then have "unat (of_nat (length bs) :: u8) < 256" "unat (sum_list bs) < 256" by blast+
  ultimately show ?thesis by linarith
qed

definition ex_bytes :: "u8 list" where
  "ex_bytes = enc_package ex_package"

lemma ex_bytes_walk: "\<exists>u. walk_package ex_bytes = Inr \<lparr>wr_decl_count = 1, wr_size = 48, wr_universe_arity = u\<rparr>"
  unfolding walk_package_iff using ex_package_ok ex_package_length
  by (auto simp: ex_bytes_def) (auto simp: ex_package_def)

definition ex_policy :: calibration_policy where
  "ex_policy = \<lparr>cp_thresholds = \<lparr>ct_t_submit = 2 ^ 255, ct_t_share = 2 ^ 255, ct_t_block = 2 ^ 254, ct_t_ticket = 2 ^ 255\<rparr>,
     cp_k_max = 4, cp_share_cap_per_pk_block = 4, cp_global_share_cap = 4, cp_l = 16384, cp_d_max = 1024, cp_m = 10,
     cp_per_ip_rate_limit_per_60s = 10, cp_min_share_score_multiplier_nanos = 1000000000\<rparr>"

definition ex_config :: runtime_config where
  "ex_config = \<lparr>rc_policy = ex_policy, rc_admission_window_ms = 60000, rc_difficulty_retarget = None,
     rc_useful_base_mode = Disabled\<rparr>"

definition ex_genesis :: genesis_spec where
  "ex_genesis = config_genesis_spec ref_ext ex_config ''local'' zeros64"

text \<open>The runtime after booting on an empty store.\<close>

definition ex_runtime0 :: runtime_state where
  "ex_runtime0 = set_current_c ((runtime_new ex_config)\<lparr>rt_boot_genesis := Some ex_genesis,
     rt_authorization_network_id := Some ''local''\<rparr>) zeros64"

definition ex_body :: "(string \<times> json) list" where
  "ex_body = [(''bytes'', JString (ext_hex_encode ref_ext ex_bytes)), (''c'', JString zeros64), (''j'', JString zeros64),
     (''n'', JString zeros64), (''nonceS'', JString zeros64), (''pk'', JString zeros64)]"

definition ex_ops :: "admission_op list" where
  "ex_ops = [ObserveTicket ex_body, Admit 0 ''127.0.0.1'' ex_body 0 None None]"

definition ex_share_digest :: "u8 list" where
  "ex_share_digest = share_hash ref_ext (replicate 32 0) (replicate 32 0) (replicate 32 0) (replicate 32 0) (ext_sha256 ref_ext ex_bytes)"

definition ex_submission :: parsed_submission where
  "ex_submission = \<lparr>sub_c_hex = zeros64, sub_pk_hex = zeros64, sub_n_hex = zeros64, sub_j_hex = zeros64, sub_nonce_s_hex = zeros64,
     sub_c = replicate 32 0, sub_pk = replicate 32 0, sub_n = replicate 32 0, sub_j = replicate 32 0, sub_nonce_s = replicate 32 0,
     sub_package_bytes = ex_bytes, sub_seed_hex = []\<rparr>"

definition ex_share :: candidate_share where
  "ex_share = admitted_candidate ref_ext ex_submission ex_share_digest 0 None None"

lemma ex_parse: "parse_submission_body ref_ext ex_body = Inr ex_submission"
proof -
  have dec: "ext_hex_decode ref_ext (ext_hex_encode ref_ext ex_bytes) = Inr ex_bytes"
    using hex_laws_ref_ext by (simp add: hex_laws_def)
  show ?thesis
    by (simp add: parse_submission_body_def ex_body_def SUBMISSION_FIELDS_def try_for_each_Cons string_field_def
        hex32_field_def zeros64_hex dec ex_submission_def)
qed

lemma ex_below: "digest_to_biguint (ext_blake3 ref_ext bs) < 65536" "digest_to_biguint (ext_sha256 ref_ext bs) < 65536"
  by (simp_all add: ref_ext_def ref_digest_small)

lemma ex_ticket: "tr_valid (ticket ref_ext c pk n (2 ^ 255))"
  using ex_below(1) [of "DOMAIN_TICKET @ c @ pk @ n"] by (simp add: ticket_def h_protocol_def Let_def)

lemma ex_pow: "\<exists>m. submission_pow_ok ref_ext c pk nonce_s canon (2 ^ 255) = (True, m)"
  using ex_below(1) [of "DOMAIN_SUBMIT @ c @ pk @ nonce_s @ canon"]
  by (simp add: submission_pow_ok_def submission_pow_hash_def h_protocol_def Let_def)

lemma ex_valid: "\<exists>d n u. validate_proof_package_with_policy ex_bytes ex_policy = ValidationOk d n u"
  using ex_bytes_walk ex_package_length
  by (auto simp: validate_proof_package_with_policy_def validate_proof_package_with_limits_def ex_policy_def ex_bytes_def usize_as_u32_def)

lemma ex_check:
  assumes "has_observed_ticket limiter zeros64 zeros64 zeros64" and "sp_current_c pool = Some zeros64"
  shows "check_submission ref_ext ex_policy limiter pool ex_submission = Some (Inr (ext_sha256 ref_ext ex_bytes))"
proof -
  obtain d n u where v: "validate_proof_package_with_policy ex_bytes ex_policy = ValidationOk d n u" using ex_valid by blast
  have "length (ext_sha256 ref_ext ex_bytes) = 32" using digest32_ref_ext by (simp add: digest32_def)
  then have "\<exists>m. check_submission_pow_with_policy ref_ext (replicate 32 0) (replicate 32 0) (replicate 32 0) (ext_sha256 ref_ext ex_bytes) ex_policy = Some (PowOk m)"
    using ex_pow [of "replicate 32 0" "replicate 32 0" "replicate 32 0" "ext_sha256 ref_ext ex_bytes"]
    by (auto simp: check_submission_pow_with_policy_def hex32_from_slice_def submission_pow_result_of_def ex_policy_def)
  moreover have "ct_t_ticket (cp_thresholds ex_policy) = 2 ^ 255" by (simp add: ex_policy_def)
  then have "tr_valid (ticket ref_ext c pk n (ct_t_ticket (cp_thresholds ex_policy)))" for c pk n by (simp only: ex_ticket)
  ultimately show ?thesis using v assms
    by (auto simp: check_submission_def ex_submission_def check_admission_ticket_def Let_def)
qed

text \<open>The state after the ticket is observed, and after the share is admitted.\<close>

definition ex_limiter1 :: rate_limiter where
  "ex_limiter1 = snd (observe_ticket (rt_rate_limiter ex_runtime0) zeros64 zeros64 (Some zeros64))"

definition ex_limiter2 :: rate_limiter where
  "ex_limiter2 = the (commit ex_limiter1 0 ''127.0.0.1'' zeros64 zeros64)"

definition ex_pool1 :: share_pool where
  "ex_pool1 = snd (accept (rt_pool ex_runtime0) (admission_pool_share ex_submission))"

definition ex_runtime1 :: runtime_state where
  "ex_runtime1 = ex_runtime0\<lparr>rt_rate_limiter := ex_limiter2, rt_pool := ex_pool1, rt_candidates := [ex_share]\<rparr>"

lemma ex_runtime0_fields:
  "rt_config ex_runtime0 = ex_config" "rt_current_c ex_runtime0 = Some zeros64" "rt_candidates ex_runtime0 = []"
  "rt_block_cache ex_runtime0 = []" "rt_boot_genesis ex_runtime0 = Some ex_genesis" "rt_family_registry ex_runtime0 = registry_new"
  "rt_authorization_network_id ex_runtime0 = Some ''local''" "rt_reward_ledger_path ex_runtime0 = None"
  "rt_canonical_state_failure ex_runtime0 = None"
  by (simp_all add: ex_runtime0_def set_current_c_def runtime_new_def)

lemma ex_limiter1_eq:
  "ex_limiter1 = (rt_rate_limiter ex_runtime0)\<lparr>rl_seen_tickets := {ticket_key zeros64 zeros64 zeros64},
     rl_exact_tickets_per_pk_c := [(rate_key zeros64 zeros64, 1)], rl_pk_tickets := [(rate_key zeros64 zeros64, 1)],
     rl_tracked_identities := {rate_key zeros64 zeros64}, rl_identity_order := [rate_key zeros64 zeros64]\<rparr>"
  "fst (observe_ticket (rt_rate_limiter ex_runtime0) zeros64 zeros64 (Some zeros64))"
  by (simp_all add: ex_limiter1_def ex_runtime0_def set_current_c_def runtime_new_def limiter_set_current_c_def limiter_from_policy_def
      clear_identity_state_def observe_ticket_def track_identity_def MAX_CURRENT_HEAD_RATE_IDENTITIES_def SEEN_TICKETS_CAP_def
      bump_def bt_get_or_def Let_def)

lemma ex_limits:
  "has_observed_ticket ex_limiter1 zeros64 zeros64 zeros64" "peek ex_limiter1 0 ''127.0.0.1'' zeros64 zeros64 = Some Allowed"
  "commit ex_limiter1 0 ''127.0.0.1'' zeros64 zeros64 = Some ex_limiter2"
  by (simp_all add: ex_limiter1_eq(1) ex_limiter2_def ex_runtime0_def set_current_c_def runtime_new_def limiter_set_current_c_def
      limiter_from_policy_def clear_identity_state_def has_observed_ticket_def peek_def commit_def i64_checked_def
      ex_config_def ex_policy_def MAX_ACTIVE_RATE_SOURCE_IPS_def bt_get_or_def Let_def)

lemma ex_accept: "accept (rt_pool ex_runtime0) (admission_pool_share ex_submission) = (AcceptOk, ex_pool1)"
  "sp_current_c (rt_pool ex_runtime0) = Some zeros64"
  by (simp_all add: ex_pool1_def ex_runtime0_def set_current_c_def runtime_new_def pool_set_current_c_def pool_from_policy_def
      pool_new_with_global_cap_def accept_def admission_pool_share_def ex_submission_def ex_config_def ex_policy_def bt_get_or_def Let_def)

lemma ex_admission_run: "foldl (admission_op_step ref_ext) (ex_runtime0, []) ex_ops = (ex_runtime1, [])"
proof -
  let ?rt = "ex_runtime0\<lparr>rt_rate_limiter := ex_limiter1\<rparr>"
  have obs: "observe_ticket_from_body ex_runtime0 ex_body = (Ok True, ?rt)"
    using ex_limiter1_eq(2)
    by (cases "observe_ticket (rt_rate_limiter ex_runtime0) zeros64 zeros64 (Some zeros64)")
      (simp add: observe_ticket_from_body_def required_string_def ex_body_def ex_limiter1_def)
  have "check_submission ref_ext ex_policy ex_limiter1 (rt_pool ex_runtime0) ex_submission = Some (Inr (ext_sha256 ref_ext ex_bytes))"
    by (rule ex_check) (simp_all add: ex_limits ex_accept)
  then have "admit_parsed_submission_typed ref_ext ex_policy ex_limiter1 (rt_pool ex_runtime0) 0 ''127.0.0.1'' ex_submission =
      Some (AdmissionAccepted ex_share_digest, ex_limiter2, ex_pool1)"
    using ex_limits ex_accept by (simp add: admit_parsed_submission_typed_def ex_submission_def ex_share_digest_def)
  then have "admit_body_with_submitter_context ref_ext ?rt 0 ''127.0.0.1'' ex_body 0 None None = Some (AdmissionAccepted ex_share_digest, ex_runtime1)"
    by (simp add: admit_body_with_submitter_context_def ex_parse ex_runtime0_fields ex_config_def ex_runtime1_def ex_share_def Let_def)
      (simp add: ex_policy_def)
  with obs show ?thesis by (simp add: ex_ops_def)
qed

section \<open>The first block\<close>

lemma lower_hex_text:
  assumes "\<forall>ch \<in> set s. is_lower_hex ch"
  shows "strip_0x s = s" and "list_all is_ascii_hexdigit s"
proof -
  have ch: "ch \<noteq> CHR ''x''" "ch \<noteq> CHR ''X''" "is_ascii_hexdigit ch" if "is_lower_hex ch" for ch
    using that by (auto simp: is_lower_hex_def is_ascii_hexdigit_def hex_digit_def Let_def)
  then show "list_all is_ascii_hexdigit s" using assms by (simp add: list_all_iff)
  have "CHR ''x'' \<notin> set (take 2 s)" "CHR ''X'' \<notin> set (take 2 s)" using assms ch(1,2) by (blast dest: in_set_takeD)+
  then show "strip_0x s = s" by (auto simp: strip_0x_def)
qed

lemma digest_text:
  assumes "length bs = 32"
  shows "is_ok (normalize_hex256 (hex32_to_hex ref_ext bs))" and "hex_num (strip_0x (hex32_to_hex ref_ext bs)) = digest_to_biguint bs"
proof -
  have lower: "\<forall>ch \<in> set (hex32_to_hex ref_ext bs). is_lower_hex ch" "length (hex32_to_hex ref_ext bs) = 64"
    using hex_laws_ref_ext assms by (simp_all add: hex_laws_def hex32_to_hex_def)
  show "is_ok (normalize_hex256 (hex32_to_hex ref_ext bs))"
    using lower_hex_text [OF lower(1)] lower(2) by (simp add: normalize_hex256_def Let_def)
  show "hex_num (strip_0x (hex32_to_hex ref_ext bs)) = digest_to_biguint bs"
    using lower_hex_text [OF lower(1)]
    by (simp add: hex_num_def hex32_to_hex_def ref_ext_def hex_value_encode digest_to_biguint_def)
qed

lemma target_text:
  assumes "n < 2 ^ 256"
  shows "is_ok (normalize_hex256 (fmt_0x064 ref_ext n))" and "hex_num (strip_0x (fmt_0x064 ref_ext n)) = n"
proof -
  have strip: "strip_0x (fmt_0x064 ref_ext n) = ext_biguint_fmt_064x ref_ext n" by (simp add: fmt_0x064_def strip_0x_def)
  have lower: "\<forall>ch \<in> set (ext_biguint_fmt_064x ref_ext n). is_lower_hex ch" "length (ext_biguint_fmt_064x ref_ext n) = 64"
    using fmt_laws_ref_ext assms by (simp_all add: fmt_laws_def)
  show "is_ok (normalize_hex256 (fmt_0x064 ref_ext n))"
    using lower_hex_text [OF lower(1)] lower(2) by (simp add: normalize_hex256_def strip Let_def)
  show "hex_num (strip_0x (fmt_0x064 ref_ext n)) = n"
    unfolding strip by (simp add: hex_num_def ref_ext_def hex_value_zeros hex_value_nat_to_hex)
qed

definition ex_cfg :: block_builder_config where
  "ex_cfg = \<lparr>bc_t_block = fmt_0x064 ref_ext (2 ^ 254), bc_t_share = fmt_0x064 ref_ext (2 ^ 255), bc_min_share_score = 2,
     bc_min_share_score_multiplier_nanos = MIN_SHARE_SCORE_MULTIPLIER_NANOS, bc_k_max = 4, bc_difficulty_epoch = 0,
     bc_difficulty_weight = ext_biguint_to_string ref_ext 4\<rparr>"

lemma ex_cfg_eq: "block_builder_config_for_height ref_ext ex_runtime1 [] = Inr ex_cfg"
  by (simp add: block_builder_config_for_height_def ex_runtime1_def ex_runtime0_fields ex_config_def from_policy_def
      from_policy_with_t_block_def ex_policy_def min_share_score_def difficulty_weight_def MIN_SHARE_SCORE_MULTIPLIER_NANOS_def
      parse_fmt_0x064 [OF biguint_laws_ref_ext] ex_cfg_def)

definition ex_selection :: built_block_selection where
  "ex_selection = \<lparr>bb_selected = [ex_share], bb_proposer_index = 0, bb_tied_proposer_count = 1, bb_dropped_below_min_score = 0,
     bb_dropped_kernel_reject = 0, bb_truncated_by_kmax = 0, bb_kernel_checked_tags = [0], bb_kernel_accepted = [True],
     bb_promoted_bounty_shares = []\<rparr>"

lemma ex_share_digest_small: "digest_to_biguint ex_share_digest < 65536" "length ex_share_digest = 32"
  using ex_below(1) digest32_ref_ext by (simp_all add: ex_share_digest_def share_hash_def h_protocol_def digest32_def)

lemma ex_score: "2 \<le> share_score ex_share_digest"
proof -
  have "digest_to_biguint ex_share_digest + 1 \<le> 65536" using ex_share_digest_small(1) by simp
  then have "2 ^ 256 div 65536 \<le> share_score ex_share_digest" unfolding share_score_def by (intro div_le_mono2) simp_all
  then show ?thesis by simp
qed

lemma ex_proposer: "select_qualifying_proposer [cs_share_hash ex_share] (bc_t_block ex_cfg) = Inr (Some 0, 1)"
proof -
  have t: "is_ok (normalize_hex256 (bc_t_block ex_cfg))" "hex_num (strip_0x (bc_t_block ex_cfg)) = 2 ^ 254"
    using target_text [of "2 ^ 254"] by (simp_all add: ex_cfg_def)
  have h: "is_ok (normalize_hex256 (cs_share_hash ex_share))" "hex_num (strip_0x (cs_share_hash ex_share)) = digest_to_biguint ex_share_digest"
    using digest_text [OF ex_share_digest_small(2)] by (simp_all add: ex_share_def admitted_candidate_def)
  from t h ex_share_digest_small(1) have "below_target (bc_t_block ex_cfg) (cs_share_hash ex_share)" by (simp add: below_target_def)
  with t h show ?thesis by (simp add: select_qualifying_proposer_Inr)
qed

lemma ex_built:
  "build_block_selection_for_network ref_ext zeros64 [ex_share] ex_cfg {0} {} [] (Some ''local'') = Inr (SelectionOk ex_selection)"
proof -
  have prs: "ext_biguint_parse ref_ext (ext_biguint_to_string ref_ext n) = Some n" for n
    using biguint_laws_ref_ext by (simp add: biguint_laws_def)
  obtain t where t: "normalize_hex256 (bc_t_block ex_cfg) = Inr t" using target_text(1) [of "2 ^ 254"] by (auto simp: ex_cfg_def is_ok_iff)
  have s: "cs_c ex_share = zeros64" "cs_score ex_share = ext_biguint_to_string ref_ext (share_score ex_share_digest)"
    "cs_signed_work ex_share = None" "cs_canon_tag ex_share = 0"
    by (simp_all add: ex_share_def admitted_candidate_def ex_submission_def)
  have "bc_min_share_score ex_cfg = 2" "bc_k_max ex_cfg = 4" by (simp_all add: ex_cfg_def)
  with s ex_score have "screen_share ref_ext zeros64 ex_cfg {} (Some ''local'') (0, []) ex_share = Inr (0, [ex_share])"
    by (simp add: screen_share_def parse_score_decimal_def prs verify_share_work_authorization_for_network_def
        AUTHORIZATION_REQUIRED_NETWORK_ID_def authorization_matches_def)
  with t s(4) \<open>bc_k_max ex_cfg = 4\<close> select_proposer_normalized [OF t] ex_proposer show ?thesis
    by (simp add: build_block_selection_for_network_def sort_by_def ex_selection_def Let_def)
qed

definition ex_first_block :: persisted_block where
  "ex_first_block = assemble_block ref_ext 0 zeros64 7 ex_cfg ex_selection ex_share"

lemma ex_produced: "produce_block_for_current_c ref_ext ex_runtime1 0 7 {0} = Inr ex_first_block"
proof -
  have "cs_c ex_share = zeros64" by (simp add: ex_share_def admitted_candidate_def ex_submission_def)
  then have "candidate_shares_for_current_c ex_runtime1 = [ex_share]" "rt_current_c ex_runtime1 = Some zeros64"
    "rt_block_cache ex_runtime1 = []" "credited_canon_hashes ex_runtime1 = {}" "rt_authorization_network_id ex_runtime1 = Some ''local''"
    by (simp_all add: candidate_shares_for_current_c_def ex_runtime1_def ex_runtime0_fields credited_canon_hashes_def)
  with ex_cfg_eq ex_built show ?thesis
    by (simp add: produce_block_for_current_c_def produce_block_for_current_c_with_config_def ex_first_block_def)
      (simp add: ex_selection_def)
qed

text \<open>Replay of the empty chain under the network's genesis.\<close>

lemma ex_genesis_fields:
  "gs_network_id ex_genesis = ''local''" "gp_retarget (gs_params ex_genesis) = None" "gp_t_block (gs_params ex_genesis) = fmt_0x064 ref_ext (2 ^ 254)"
  "gp_t_share (gs_params ex_genesis) = fmt_0x064 ref_ext (2 ^ 255)" "gi_genesis_c (gs_initial_state ex_genesis) = zeros64"
  "gp_seed_binding_required (gs_params ex_genesis) = False" "gp_family_manifest_root (gs_params ex_genesis) = None"
  by (simp_all add: ex_genesis_def config_genesis_spec_def network_genesis_preset_def ex_config_def ex_policy_def)

lemma ex_boot_replay:
  "replay_under_boot_contract ref_ext ex_runtime0 [] =
     Ok \<lparr>rr_latest_c = zeros64, rr_height = 0, rr_balances = [], rr_bounty_credit_by_family = []\<rparr>"
  by (simp add: replay_under_boot_contract_def ex_runtime0_fields ex_genesis_fields
      replay_blocks_with_genesis_and_registry_for_authorization_network_def validate_static_difficulty_def validate_static_t_share_def
      parse_fmt_0x064 [OF biguint_laws_ref_ext] replay_blocks_with_rules_def verify_block_ts_median_time_past_def replay_start_def)

lemma ex_limits_within: "limits_within_rules ex_policy"
  by (simp add: limits_within_rules_def ex_policy_def BASE_LANE_MAX_PROOF_BYTES_def BASE_LANE_MAX_DECLS_def)

end
