(* ===== verification/Selection_Theorems.thy ===== *)
theory Selection_Theorems
  imports Production_Examples
begin

text \<open>
  What the block builder selects: only eligible shares, all of them while they fit, and the same ones
  whatever the order in which the candidates arrived.
\<close>

lemma screened_iff:
  "screened E head cfg spent net s \<longleftrightarrow>
     cs_c s = head \<and> (cs_canon_hash s \<noteq> [] \<longrightarrow> cs_canon_hash s \<notin> spent) \<and>
     (\<exists>v. verify_share_work_authorization_for_network E (cs_signed_work s) net = Inr v \<and> authorization_matches v s) \<and>
     (\<exists>score \<ge> bc_min_share_score cfg. ext_biguint_parse E (cs_score s) = Some score)"
  by (auto simp: screened_def split: sum.split_asm sum.split option.split_asm option.split)

lemma proposer_first:
  assumes "select_qualifying_proposer (map cs_share_hash xs) t = Inr (Some i, q)"
  shows "i < length xs" "below_target t (cs_share_hash (xs ! i))" "\<forall>j < i. \<not> below_target t (cs_share_hash (xs ! j))"
proof -
  from assms have "find (\<lambda>k. below_target t (map cs_share_hash xs ! k)) [0..<length xs] = Some i"
    by (simp add: select_qualifying_proposer_Inr)
  then show "i < length xs" "below_target t (cs_share_hash (xs ! i))" "\<forall>j < i. \<not> below_target t (cs_share_hash (xs ! j))"
    by (auto simp: find_upt_first)
qed

text \<open>
  A contender is an eligible candidate that is the best-ranked eligible one with its proof; a candidate without a proof hash
  contends by itself.
\<close>

definition contender ::
    "ext \<Rightarrow> string \<Rightarrow> block_builder_config \<Rightarrow> string set \<Rightarrow> string option \<Rightarrow> candidate_share list \<Rightarrow> candidate_share \<Rightarrow> bool" where
  "contender E head cfg spent net shares s \<longleftrightarrow> s \<in> set shares \<and> screened E head cfg spent net s \<and>
     (cs_canon_hash s = [] \<or>
      (\<forall>s' \<in> set shares. screened E head cfg spent net s' \<and> cs_canon_hash s' = cs_canon_hash s \<longrightarrow>
         preselection_key E s \<le> preselection_key E s'))"

lemma retain_fresh_exact:
  "sorted_wrt (<) (map f xs) \<Longrightarrow> set (retain_fresh seen xs) =
     {s \<in> set xs. cs_canon_hash s = [] \<or>
        cs_canon_hash s \<notin> seen \<and> (\<forall>s' \<in> set xs. cs_canon_hash s' = cs_canon_hash s \<longrightarrow> (f s :: 'a::linorder) \<le> f s')}"
proof (induction xs arbitrary: seen)
  case (Cons x xs)
  then have less: "\<forall>s \<in> set xs. f x < f s" and IH: "set (retain_fresh seen xs) = {s \<in> set xs. cs_canon_hash s = [] \<or>
      cs_canon_hash s \<notin> seen \<and> (\<forall>s' \<in> set xs. cs_canon_hash s' = cs_canon_hash s \<longrightarrow> f s \<le> f s')}" for seen by simp_all
  show ?case
  proof (cases "cs_canon_hash x = [] \<or> cs_canon_hash x \<in> seen")
    case True
    then show ?thesis using less IH by (auto simp: order.strict_implies_order)
  next
    case False
    have "s \<in> set xs \<Longrightarrow> (cs_canon_hash s \<notin> insert (cs_canon_hash x) seen \<and> (\<forall>s' \<in> set xs. cs_canon_hash s' = cs_canon_hash s \<longrightarrow> f s \<le> f s')) =
        (cs_canon_hash s \<notin> seen \<and> (\<forall>s' \<in> set (x # xs). cs_canon_hash s' = cs_canon_hash s \<longrightarrow> f s \<le> f s'))" for s
      using less by (auto simp: not_le)
    then show ?thesis using False less IH by (auto simp: order.strict_implies_order)
  qed
qed simp

lemma retain_fresh_sorted: "sorted_wrt (<) (map f xs) \<Longrightarrow> sorted_wrt (<) (map f (retain_fresh seen xs))"
proof (induction xs arbitrary: seen)
  case (Cons x xs)
  then show ?case using retain_fresh_subset [of _ xs] by auto
qed simp

lemma in_take_iff:
  fixes f :: "'b \<Rightarrow> 'a::linorder"
  assumes "sorted_wrt (<) (map f ys)"
  shows "s \<in> set (take k ys) \<longleftrightarrow> s \<in> set ys \<and> card {s' \<in> set ys. f s' < f s} < k"
proof (cases "s \<in> set ys")
  case True
  then obtain i where i: "i < length ys" "s = ys ! i" by (auto simp: in_set_conv_nth)
  have mono: "f (ys ! j) < f (ys ! j') \<longleftrightarrow> j < j'" if "j < length ys" "j' < length ys" for j j'
    using that assms by (metis (no_types, lifting) length_map linorder_neqE_nat nth_map order.asym order_less_irrefl sorted_wrt_nth_less)
  have "ys ! j \<in> {s' \<in> set ys. f s' < f s}" if "j < i" for j using that i mono [of j i] by simp
  moreover have "\<exists>j < i. s' = ys ! j" if "s' \<in> set ys" "f s' < f s" for s'
    using that i mono by (metis in_set_conv_nth)
  ultimately have "{s' \<in> set ys. f s' < f s} = (!) ys ` {..<i}" by blast
  moreover have "inj_on ((!) ys) {..<i}" using mono i(1) by (intro inj_onI) (metis lessThan_iff linorder_neqE_nat order.strict_trans order_less_irrefl)
  ultimately have "card {s' \<in> set ys. f s' < f s} = i" by (simp add: card_image)
  moreover have "s \<in> set (take k ys) \<longleftrightarrow> i < k"
  proof
    assume "s \<in> set (take k ys)"
    then obtain j where "j < k" "j < length ys" "s = ys ! j" by (auto simp: in_set_conv_nth)
    then show "i < k" using i mono [of i j] mono [of j i] by (metis linorder_neqE_nat order_less_irrefl)
  qed (use i in \<open>auto simp: in_set_conv_nth intro!: exI [of _ i]\<close>)
  ultimately show ?thesis using True by simp
qed (auto dest: in_set_takeD)

lemma ranked_exact:
  assumes "distinct (map candidate_order_key shares)"
  shows "set (ranked E head cfg spent net shares) = {s. contender E head cfg spent net shares s}"
    and "sorted_wrt (<) (map (preselection_key E) (ranked E head cfg spent net shares))"
proof -
  let ?xs = "sort_key (preselection_key E) (filter (screened E head cfg spent net) shares)"
  have "inj_on (preselection_key E) (set shares)" using assms by (auto simp: distinct_map inj_on_def preselection_key_def)
  then have "distinct (map (preselection_key E) (filter (screened E head cfg spent net) shares))"
    using assms by (auto simp: distinct_map intro: inj_on_subset)
  then have "distinct (map (preselection_key E) ?xs)" by (simp add: distinct_map)
  then have strict: "sorted_wrt (<) (map (preselection_key E) ?xs)" by (simp add: strict_sorted_iff)
  show "set (ranked E head cfg spent net shares) = {s. contender E head cfg spent net shares s}"
    unfolding ranked_def retain_fresh_exact [OF strict] by (auto simp: contender_def)
  show "sorted_wrt (<) (map (preselection_key E) (ranked E head cfg spent net shares))"
    unfolding ranked_def using strict by (rule retain_fresh_sorted)
qed

lemma chosen_exact:
  assumes "distinct (map candidate_order_key shares)"
  shows "s \<in> set (chosen E head cfg tags spent net shares) \<longleftrightarrow> contender E head cfg spent net shares s \<and> cs_canon_tag s \<in> tags \<and>
    card {s'. contender E head cfg spent net shares s' \<and> preselection_key E s' < preselection_key E s} < bc_k_max cfg"
  using in_take_iff [OF ranked_exact(2) [OF assms], of s "bc_k_max cfg"] ranked_exact(1) [OF assms]
  by (auto simp: chosen_def)



text \<open>C39. The result of the builder, with its counters, its proposer and its failures to
  find one, depends on the set of candidates and not on the order in which they reached the node, as long as no two
  candidates have the same canonical order key.\<close>

theorem selection_order_independent:
  assumes "mset shares = mset shares'" and "inj_on candidate_order_key (set shares)"
    and "is_ok (build_block_selection_for_network E head shares cfg tags spent promoted net)"
  shows "build_block_selection_for_network E head shares' cfg tags spent promoted net =
    build_block_selection_for_network E head shares cfg tags spent promoted net"
proof -
  from assms(3) obtain r where r: "build_block_selection_for_network E head shares cfg tags spent promoted net = Inr r"
    by (auto simp: is_ok_iff)
  then show ?thesis using build_permuted [OF assms(1,2) r] by simp
qed

text \<open>The example share and the same work mined with another ticket.\<close>

definition ex_share2 :: candidate_share where
  "ex_share2 = ex_share\<lparr>cs_n := CHR ''1'' # replicate 63 (CHR ''0'')\<rparr>"

lemma build_total:
  assumes "is_ok (normalize_hex256 (bc_t_block cfg))"
    and "\<forall>s \<in> set shares. ext_biguint_parse E (cs_score s) \<noteq> None \<and> is_ok (normalize_hex256 (cs_share_hash s))"
  shows "is_ok (build_block_selection_for_network E head shares cfg tags spent promoted net)"
proof -
  from assms(1) obtain t where t: "normalize_hex256 (bc_t_block cfg) = Inr t" by (auto simp: is_ok_iff)
  let ?fits = "filter (screened E head cfg spent net) shares"
  have scr: "try_fold (screen_share E head cfg spent net) (0, []) shares =
      Inr (length (filter (below_min E head cfg spent net) shares), ?fits)"
    using assms(2) by (simp add: screen_fold_Inr)
  have "\<exists>w q. select_qualifying_proposer (map cs_share_hash xs) t = Inr (w, q)" if "set xs \<subseteq> set shares" for xs
    using assms that unfolding select_proposer_normalized [OF t] by (auto simp: select_qualifying_proposer_Inr)
  moreover have "set (sort_key candidate_order_key (filter P (take k (retain_fresh {} (sort_key (preselection_key E) ?fits))))) \<subseteq> set shares"
    for P k using retain_fresh_subset by (fastforce dest: in_set_takeD)
  ultimately obtain w q where "select_qualifying_proposer (map cs_share_hash (sort_key candidate_order_key
      (filter (\<lambda>s. cs_canon_tag s \<in> tags) (take (bc_k_max cfg) (retain_fresh {} (sort_key (preselection_key E) ?fits)))))) t = Inr (w, q)"
    by blast
  then show ?thesis
    unfolding build_block_selection_for_network_def
    by (simp add: t scr Let_def sort_by_preselection sort_by_canonical split: option.split)
qed

theorem selection_order_independent_witness:
  "is_ok (build_block_selection_for_network ref_ext zeros64 [ex_share, ex_share2] ex_cfg {0} {} [] (Some ''local'')) \<and>
   build_block_selection_for_network ref_ext zeros64 [ex_share2, ex_share] ex_cfg {0} {} [] (Some ''local'') =
   build_block_selection_for_network ref_ext zeros64 [ex_share, ex_share2] ex_cfg {0} {} [] (Some ''local'')"
proof -
  have "cs_n ex_share = zeros64" by (simp add: ex_share_def admitted_candidate_def ex_submission_def)
  then have keys: "candidate_order_key ex_share \<noteq> candidate_order_key ex_share2"
    by (simp add: candidate_order_key_def ex_share2_def zeros64_def numeral_nat)
  have "ext_biguint_parse ref_ext (ext_biguint_to_string ref_ext n) = Some n" for n
    using biguint_laws_ref_ext by (simp add: biguint_laws_def)
  then have "ext_biguint_parse ref_ext (cs_score s) \<noteq> None \<and> is_ok (normalize_hex256 (cs_share_hash s))" if "s \<in> {ex_share, ex_share2}" for s
    using that digest_text(1) [OF ex_share_digest_small(2)] by (auto simp: ex_share2_def ex_share_def admitted_candidate_def)
  moreover have "is_ok (normalize_hex256 (bc_t_block ex_cfg))" using target_text(1) [of "2 ^ 254"] by (simp add: ex_cfg_def)
  ultimately have ok: "is_ok (build_block_selection_for_network ref_ext zeros64 [ex_share, ex_share2] ex_cfg {0} {} [] (Some ''local''))"
    by (intro build_total) auto
  have "inj_on candidate_order_key (set [ex_share, ex_share2])" using keys by auto
  from selection_order_independent [OF _ this ok, of "[ex_share2, ex_share]"] ok show ?thesis by (simp add: add_mset_commute)
qed

end
