(* ===== verification/Replay_Rules.thy ===== *)
theory Replay_Rules
  imports Replay_Accounting
begin

text \<open>
  The replay under a genesis as a conjunction of its rules, and that each rule holds of every prefix of a
  chain it holds of.
\<close>

section \<open>The rules\<close>

definition scope_rule :: "genesis_spec \<Rightarrow> string option \<Rightarrow> bool" where
  "scope_rule spec net \<longleftrightarrow>
     (case net of Some scope \<Rightarrow> scope = gs_network_id spec | None \<Rightarrow> gs_network_id spec = LEGACY_UNNAMED_FALLBACK_NETWORK_ID)"

definition difficulty_rule :: "ext \<Rightarrow> genesis_spec \<Rightarrow> persisted_block list \<Rightarrow> bool" where
  "difficulty_rule E spec blocks \<longleftrightarrow>
     (case gp_retarget (gs_params spec) of
        Some policy \<Rightarrow> validate_retargeted_difficulty E blocks (gp_t_block (gs_params spec)) policy = Inr ()
      | None \<Rightarrow> validate_static_difficulty E blocks (gp_t_block (gs_params spec)) = Inr ()) \<and>
     validate_static_t_share E blocks (gp_t_share (gs_params spec)) = Inr ()"

definition genesis_run ::
    "ext \<Rightarrow> genesis_spec \<Rightarrow> family_manifest_registry \<Rightarrow> string option \<Rightarrow> persisted_block list \<Rightarrow> replay_error + replay_state" where
  "genesis_run E spec reg net blocks =
     replay_run E Strict (Some (gs_params spec)) net reg (gi_genesis_c (gs_initial_state spec)) blocks"

definition result_of :: "nat \<Rightarrow> replay_state \<Rightarrow> replay_result" where
  "result_of n st = \<lparr>rr_latest_c = rs_latest_c st, rr_height = of_nat n, rr_balances = rs_balances st,
     rr_bounty_credit_by_family = rs_bounty_credit_by_family st\<rparr>"

lemma rbind_unit_eq_Inr: "rbind (x :: 'e + unit) f = Inr y \<longleftrightarrow> x = Inr () \<and> f () = Inr y"
  by (auto simp: rbind_eq_Inr)

lemma rules_eq:
  "replay_blocks_with_rules E blocks pol g gp net reg = Inr r \<longleftrightarrow>
     verify_block_ts_median_time_past blocks = Inr () \<and>
     (\<exists>st. replay_run E pol gp net reg g blocks = Inr st \<and> r = result_of (length blocks) st)"
  unfolding replay_blocks_with_rules_def replay_run_def [symmetric] result_of_def
  by (auto simp: rbind_unit_eq_Inr rbind_eq_Inr map_err_eq_Inr)

lemma genesis_replay_eq:
  "replay_blocks_with_genesis_and_registry_for_authorization_network E blocks spec reg net = Inr r \<longleftrightarrow>
     scope_rule spec net \<and> difficulty_rule E spec blocks \<and> verify_block_ts_median_time_past blocks = Inr () \<and>
     (\<exists>st. genesis_run E spec reg net blocks = Inr st \<and> r = result_of (length blocks) st)"
  unfolding replay_blocks_with_genesis_and_registry_for_authorization_network_def
    scope_rule_def difficulty_rule_def genesis_run_def
  by (cases net; cases "gp_retarget (gs_params spec)") (auto simp: rbind_unit_eq_Inr rules_eq ensure_eq_Inr map_err_eq_Inr)

section \<open>Prefixes\<close>

lemma try_fold_prefix: "try_fold f s (xs @ ys) = Inr t \<Longrightarrow> \<exists>t'. try_fold f s xs = Inr t'"
  by (auto simp: try_fold_append rbind_eq_Inr)

lemma median_prefix:
  assumes "verify_block_ts_median_time_past (xs @ ys) = Inr ()" shows "verify_block_ts_median_time_past xs = Inr ()"
proof -
  let ?rule = "\<lambda>blocks i. \<not> bl_ts (blocks ! i) \<le>
    sort (map bl_ts (drop (i - MEDIAN_TIME_PAST_WINDOW) (take i blocks))) !
      (length (sort (map bl_ts (drop (i - MEDIAN_TIME_PAST_WINDOW) (take i blocks)))) div 2)"
  have iff: "verify_block_ts_median_time_past blocks = Inr () \<longleftrightarrow> (\<forall>i \<in> {1..<length blocks}. ?rule blocks i)" for blocks
    unfolding verify_block_ts_median_time_past_def Let_def try_for_each_eq_Inr ensure_eq_Inr by auto
  have "?rule (xs @ ys) i = ?rule xs i" if "i \<in> {1..<length xs}" for i using that by (simp add: nth_append)
  moreover have "\<forall>i \<in> {1..<length xs}. ?rule (xs @ ys) i" 
    by (rule ballI, rule bspec [OF assms [unfolded iff]]) simp
  ultimately show ?thesis unfolding iff by blast
qed

lemma difficulty_rule_prefix: "difficulty_rule E spec (xs @ ys) \<Longrightarrow> difficulty_rule E spec xs"
  unfolding difficulty_rule_def
  by (auto simp: validate_retargeted_difficulty_def validate_static_difficulty_def validate_static_t_share_def rbind_eq_Inr
      try_for_each_eq_Inr split: option.split_asm dest: try_fold_prefix)

lemma genesis_replay_prefix:
  assumes "replay_blocks_with_genesis_and_registry_for_authorization_network E (xs @ ys) spec reg net = Inr r"
  shows "\<exists>r'. replay_blocks_with_genesis_and_registry_for_authorization_network E xs spec reg net = Inr r'"
proof -
  from assms obtain st where "genesis_run E spec reg net (xs @ ys) = Inr st" by (auto simp: genesis_replay_eq)
  then obtain st' where "genesis_run E spec reg net xs = Inr st'" using replay_run_prefix by (fastforce simp: genesis_run_def)
  with assms show ?thesis by (auto simp: genesis_replay_eq dest: median_prefix difficulty_rule_prefix)
qed

lemma rules_prefix:
  assumes "replay_blocks_with_rules E (xs @ ys) pol g gp net reg = Inr r"
  shows "\<exists>r'. replay_blocks_with_rules E xs pol g gp net reg = Inr r'"
proof -
  from assms obtain st where "replay_run E pol gp net reg g (xs @ ys) = Inr st" by (auto simp: rules_eq)
  then obtain st' where "replay_run E pol gp net reg g xs = Inr st'" using replay_run_prefix by blast
  with assms show ?thesis by (auto simp: rules_eq dest: median_prefix)
qed

end
