(* ===== verification/Line_Files.thy ===== *)
theory Line_Files
  imports Stores
begin

text \<open>
  What the operations of durability.rs do to a file of complete lines: every ledger of the node is such a file,
  possibly followed by the torn rest of a failed append.
\<close>

definition holds_lines :: "disk \<Rightarrow> string \<Rightarrow> string list \<Rightarrow> string \<Rightarrow> bool" where
  "holds_lines d path ls torn \<longleftrightarrow>
     (\<forall>l \<in> set ls. line_ok l) \<and> newline \<notin> set torn \<and> file_bytes d path = ndjson ls @ torn"

text \<open>A working disk: every call succeeds and no file is fenced.\<close>

definition working :: "disk \<Rightarrow> bool" where
  "working d \<longleftrightarrow> dk_outcomes d = [] \<and> dk_fenced d = {}"

lemma next_outcome_disk:
  obtains x os where "next_outcome d = (x, d\<lparr>dk_outcomes := os\<rparr>)"
  by (cases "dk_outcomes d") (auto simp: next_outcome_def intro: that [of IoDone "[]"])

lemma holds_lines_outcomes [simp]: "holds_lines (d\<lparr>dk_outcomes := os\<rparr>) path ls torn = holds_lines d path ls torn"
  and holds_lines_fenced [simp]: "holds_lines (d\<lparr>dk_fenced := F\<rparr>) path ls torn = holds_lines d path ls torn"
  by (simp_all add: holds_lines_def file_bytes_def)

lemma put_file_rest [simp]: "dk_fenced (put_file d path s) = dk_fenced d" "dk_outcomes (put_file d path s) = dk_outcomes d"
  by (simp_all add: put_file_def)

lemma holds_lines_other: "dk_files d' path = dk_files d path \<Longrightarrow> holds_lines d' path ls torn = holds_lines d path ls torn"
  by (simp add: holds_lines_def file_bytes_def)

lemma holds_lines_put: "\<forall>l \<in> set ls. line_ok l \<Longrightarrow> newline \<notin> set torn \<Longrightarrow> holds_lines (put_file d path (ndjson ls @ torn)) path ls torn"
  by (simp add: holds_lines_def file_bytes_def put_file_def)

section \<open>Reading\<close>

lemma stored_lines_ndjson: "\<forall>l \<in> set ls. line_ok l \<Longrightarrow> stored_lines (ndjson ls) = ls"
  by (simp add: stored_lines_def str_lines_ndjson filter_line_ok)

lemma read_lines:
  assumes held: "holds_lines d path ls torn" and run: "read_stable_prefix d path = (r, d')"
  shows "((r = Inr (Some (ndjson ls)) \<or> r = Inr None \<and> ls = []) \<and> holds_lines d' path ls [] \<and> dk_fenced d' = dk_fenced d) \<or>
      (\<exists>e torn'. r = Inl e \<and> torn' \<in> {torn, []} \<and> holds_lines d' path ls torn')"
    and "working d \<Longrightarrow> (\<exists>s. r = Inr s) \<and> working d'"
proof -
  have lines: "\<forall>l \<in> set ls. line_ok l" using held by (simp add: holds_lines_def)
  have read: "read_stable_prefix_on_file d0 path (ndjson ls @ torn) = (Inr (ndjson ls), put_file d0 path (ndjson ls))" for d0
    using held stable_prefix_torn [of torn ls] utf8_valid_ndjson [OF lines]
    by (simp add: holds_lines_def read_stable_prefix_on_file_def Let_def del: take_append)
  have fix_file: "holds_lines (put_file d0 path (ndjson ls)) path ls []" for d0 using holds_lines_put [OF lines, of "[]"] by simp
  obtain x os where x: "next_outcome d = (x, d\<lparr>dk_outcomes := os\<rparr>)" by (rule next_outcome_disk)
  have "(r = Inr None \<and> ls = [] \<and> torn = [] \<and> d' = d) \<or>
      (if x = IoDone then r = Inr (Some (ndjson ls)) \<and> d' = put_file (d\<lparr>dk_outcomes := os\<rparr>) path (ndjson ls)
       else r = Inl IoFailed \<and> d' \<in> {d\<lparr>dk_outcomes := os\<rparr>, put_file (d\<lparr>dk_outcomes := os\<rparr>) path (ndjson ls)})"
  proof (cases "dk_files d path")
    case None
    with held have "ls = []" "torn = []" by (cases ls; auto simp: holds_lines_def file_bytes_def)+
    with None run show ?thesis by (simp add: read_stable_prefix_def)
  next
    case (Some bytes)
    then have "bytes = ndjson ls @ torn" using held by (simp add: holds_lines_def file_bytes_def)
    moreover have "take (stable_jsonl_prefix_len (ndjson ls @ torn)) (ndjson ls @ torn) = ndjson ls"
      using held by (intro stable_prefix_torn) (simp add: holds_lines_def)
    ultimately show ?thesis using run Some
      by (cases x) (auto simp: read_stable_prefix_def x read simp del: take_append)
  qed
  then show "((r = Inr (Some (ndjson ls)) \<or> r = Inr None \<and> ls = []) \<and> holds_lines d' path ls [] \<and> dk_fenced d' = dk_fenced d) \<or>
      (\<exists>e torn'. r = Inl e \<and> torn' \<in> {torn, []} \<and> holds_lines d' path ls torn')"
    and "working d \<Longrightarrow> (\<exists>s. r = Inr s) \<and> working d'"
    using held fix_file [of "d\<lparr>dk_outcomes := os\<rparr>"] x by (auto simp: working_def next_outcome_def split: if_split_asm)
qed

section \<open>Writing\<close>

lemma append_lines:
  assumes held: "holds_lines d path ls torn" and fence: "torn \<noteq> [] \<longrightarrow> path \<in> dk_fenced d" and l: "line_ok l"
    and run: "append_ndjson_line_durable d path l = (q, d')"
  shows "(q = Inr () \<and> holds_lines d' path (ls @ [l]) []) \<or>
    (\<exists>e ls' torn'. q = Inl e \<and> ls' \<in> {ls, ls @ [l]} \<and> holds_lines d' path ls' torn' \<and> (torn' \<noteq> [] \<longrightarrow> path \<in> dk_fenced d'))"
proof (cases "path \<in> dk_fenced d")
  case True
  then show ?thesis
    using run held by (auto simp: append_ndjson_line_durable_def append_ndjson_line_with_handle_def check_append_fence_def)
next
  case False
  then have lines: "\<forall>k \<in> set ls. line_ok k" and bytes: "file_bytes d path = ndjson ls" and nl: "newline \<notin> set l"
    using held fence l by (auto simp: holds_lines_def line_ok_def)
  have undone: "holds_lines (put_file d0 path (ndjson ls)) path ls []" for d0 using holds_lines_put [OF lines, of "[]"] by simp
  have added: "holds_lines (put_file d0 path (ndjson ls @ l @ [newline])) path (ls @ [l]) []" for d0
    using holds_lines_put [of "ls @ [l]" "[]"] lines l by simp
  have torn: "\<exists>ls' torn'. ls' \<in> {ls, ls @ [l]} \<and>
      holds_lines (fence_failed_append (put_file d0 path (ndjson ls @ take k (l @ [newline]))) path) path ls' torn'" for d0 k
  proof (rule torn_append [OF nl, of k])
    assume "take k (l @ [newline]) = l @ [newline]"
    then show ?thesis using added by (auto simp: fence_failed_append_def simp del: take_append)
  next
    fix t assume "take k (l @ [newline]) = t" "newline \<notin> set t"
    then show ?thesis using holds_lines_put [OF lines, of t d0 path] by (auto simp: fence_failed_append_def simp del: take_append)
  qed
  have fenced: "path \<in> dk_fenced (fence_failed_append d0 path)" for d0 by (simp add: fence_failed_append_def)
  obtain x os where x: "next_outcome d = (x, d\<lparr>dk_outcomes := os\<rparr>)" by (rule next_outcome_disk)
  have t: "append_ndjson_transaction d path l = (q, d')"
    using run False by (simp add: append_ndjson_line_durable_def append_ndjson_line_with_handle_def check_append_fence_def)
  have same: "holds_lines d path ls []" using bytes lines by (simp add: holds_lines_def)
  show ?thesis
  proof (cases x)
    case IoDone
    with t added show ?thesis by (auto simp: append_ndjson_transaction_def bytes x)
  next
    case IoRefused
    with t have "q = Inl IoFailed" "d' = d\<lparr>dk_outcomes := os\<rparr>" by (simp_all add: append_ndjson_transaction_def x)
    with same show ?thesis by (intro disjI2 exI [of _ IoFailed] exI [of _ ls] exI [of _ "[]"]) simp
  next
    case IoUndone
    with t have "q = Inl IoFailed" "d' = put_file (d\<lparr>dk_outcomes := os\<rparr>) path (ndjson ls)"
      by (simp_all add: append_ndjson_transaction_def bytes x)
    with undone show ?thesis by (intro disjI2 exI [of _ IoFailed] exI [of _ ls] exI [of _ "[]"]) simp
  next
    case (IoTorn k)
    with t have "q = Inl IoFailed" "d' = fence_failed_append (put_file (d\<lparr>dk_outcomes := os\<rparr>) path (ndjson ls @ take k (l @ [newline]))) path"
      by (simp_all add: append_ndjson_transaction_def bytes x del: take_append)
    with torn [of "d\<lparr>dk_outcomes := os\<rparr>" k] fenced show ?thesis by blast
  qed
qed

text \<open>The same for a file of records, each written as a line.\<close>

lemma append_records:
  assumes "holds_lines d path (map f xs) torn" and "torn \<noteq> [] \<longrightarrow> path \<in> dk_fenced d" and "line_ok (f x)"
    and "append_ndjson_line_durable d path (f x) = (q, d')"
  shows "(q = Inr () \<and> holds_lines d' path (map f (xs @ [x])) []) \<or>
    (\<exists>e xs' torn'. q = Inl e \<and> xs' \<in> {xs, xs @ [x]} \<and> holds_lines d' path (map f xs') torn' \<and> (torn' \<noteq> [] \<longrightarrow> path \<in> dk_fenced d'))"
proof -
  have "map f xs @ [f x] = map f (xs @ [x])" by simp
  with append_lines [OF assms] show ?thesis by (metis insert_iff singletonD)
qed

lemma rewrite_lines:
  assumes "holds_lines d path ls torn" and "\<forall>l \<in> set new. line_ok l" and "write_ndjson_lines_atomic d path new = (q, d')"
  shows "(q = Inr () \<and> holds_lines d' path new []) \<or>
    (\<exists>e ls' torn'. q = Inl e \<and> ls' \<in> {ls, new} \<and> holds_lines d' path ls' torn')"
proof -
  obtain x os where x: "next_outcome d = (x, d\<lparr>dk_outcomes := os\<rparr>)" by (rule next_outcome_disk)
  have "holds_lines (put_file d0 path (ndjson new)) path new []" for d0 using holds_lines_put [OF assms(2), of "[]"] by simp
  moreover have "(q = Inr () \<and> d' = put_file (d\<lparr>dk_outcomes := os\<rparr>) path (ndjson new)) \<or>
      (\<exists>e. q = Inl e \<and> d' \<in> {d, d\<lparr>dk_outcomes := os\<rparr>, put_file (d\<lparr>dk_outcomes := os\<rparr>) path (ndjson new)})"
    using assms(3) x by (cases "path \<in> dk_fenced d"; cases x)
      (auto simp: write_ndjson_lines_atomic_def write_file_atomic_def check_append_fence_def)
  moreover have "holds_lines (d\<lparr>dk_outcomes := os\<rparr>) path ls torn" using assms(1) by simp
  ultimately show ?thesis using assms(1) by blast
qed

text \<open>Every operation changes only the file it names, and a working disk goes on working.\<close>

lemma other_file:
  assumes "bp \<noteq> path"
  shows "dk_files (snd (read_stable_prefix d path)) bp = dk_files d bp"
    and "dk_files (snd (write_ndjson_lines_atomic d path ls)) bp = dk_files d bp"
    and "dk_files (snd (append_ndjson_line_durable d path line)) bp = dk_files d bp"
  using assms
  by (auto simp: read_stable_prefix_def read_stable_prefix_on_file_def write_ndjson_lines_atomic_def write_file_atomic_def
      append_ndjson_line_durable_def append_ndjson_line_with_handle_def append_ndjson_transaction_def next_outcome_def put_file_def
      fence_failed_append_def Let_def split: option.split list.split sum.split io_outcome.split prod.split)

lemma working_calls:
  assumes "working d"
  shows "working (snd (read_stable_prefix d path))"
    and "fst (write_ndjson_lines_atomic d path ls) = Inr () \<and> working (snd (write_ndjson_lines_atomic d path ls))"
    and "fst (append_ndjson_line_durable d path line) = Inr () \<and> working (snd (append_ndjson_line_durable d path line))"
  using assms
  by (auto simp: working_def read_stable_prefix_def read_stable_prefix_on_file_def write_ndjson_lines_atomic_def write_file_atomic_def
      append_ndjson_line_durable_def append_ndjson_line_with_handle_def append_ndjson_transaction_def check_append_fence_def next_outcome_def put_file_def Let_def split: option.split)

end
