(* ===== verification/Recovery.thy ===== *)
theory Recovery
  imports Runtime Replay_Rules Line_Files
begin

text \<open>
  Lemmas on recovery: a block file with a torn tail yields its complete blocks, the reward ledger derived from a
  chain has the balances of its replay, and boot heals the ledger file whatever it holds.
\<close>

section \<open>The block file\<close>

text \<open>The file of a chain, with the torn bytes that a failed append can leave after it.\<close>

definition holds_chain :: "store_codec \<Rightarrow> disk \<Rightarrow> string \<Rightarrow> persisted_block list \<Rightarrow> string \<Rightarrow> bool" where
  "holds_chain C d path chain torn \<longleftrightarrow>
     newline \<notin> set torn \<and> file_bytes d path = ndjson (map (sc_block_to_string C) chain) @ torn"

definition store_chain :: "ext \<Rightarrow> persisted_block list \<Rightarrow> bool" where
  "store_chain E chain \<longleftrightarrow>
     (\<forall>i < length chain. validate_shape E (chain ! i) = Inr () \<and> bl_height (chain ! i) = of_nat i \<and>
        (0 < i \<longrightarrow> bl_prev_c (chain ! i) = bl_c (chain ! (i - 1))))"

lemma store_chain_snoc:
  "store_chain E (chain @ [b]) \<longleftrightarrow> store_chain E chain \<and> validate_shape E b = Inr () \<and> bl_height b = of_nat (length chain) \<and>
     (chain \<noteq> [] \<longrightarrow> bl_prev_c b = bl_c (last chain))"
  by (auto simp: store_chain_def nth_append less_Suc_eq last_conv_nth)

lemma replay_store_chain:
  "replay_run E pol gp net reg g chain = Inr st \<Longrightarrow> store_chain E chain"
proof (induction chain arbitrary: st rule: rev_induct)
  case (snoc b chain)
  then obtain st0 where st0: "replay_run E pol gp net reg g chain = Inr st0"
    and step: "replay_step E pol gp net reg st0 (length chain, b) = Inr st"
    by (auto simp: replay_run_snoc rbind_eq_Inr)
  from step have "validate_shape E b = Inr ()" "bl_height b = of_nat (length chain)" "bl_prev_c b = rs_latest_c st0"
    by (auto elim: replay_step_Inr)
  with snoc.IH [OF st0] replay_run_ok_state [OF st0] show ?case by (auto simp: store_chain_snoc replay_ok_state_def)
qed (simp add: store_chain_def)

lemma parse_lines:
  assumes "codec_laws C" and "store_chain E chain"
  shows "try_fold (parse_block_line E C) [] (enumerate 0 (map (sc_block_to_string C) chain)) = Inr chain"
  using assms(2)
proof (induction chain rule: rev_induct)
  case (snoc b chain)
  then show ?case
    using assms(1) by (simp add: store_chain_snoc enumerate_append_eq try_fold_snoc parse_block_line_def codec_laws_def)
qed simp

lemma holds_chain_lines:
  "codec_laws C \<Longrightarrow> holds_chain C d path chain torn = holds_lines d path (map (sc_block_to_string C) chain) torn"
  by (auto simp: holds_chain_def holds_lines_def codec_laws_def)

lemma recover_chain:
  assumes C: "codec_laws C" and chain: "store_chain E chain" and held: "holds_chain C d path chain torn"
    and run: "block_store_recover E C d path = (r, d')"
  shows "(r = Inr chain \<and> holds_chain C d' path chain []) \<or> (\<exists>e torn'. r = Inl e \<and> holds_chain C d' path chain torn')"
    and "working d \<Longrightarrow> r = Inr chain \<and> working d'"
proof -
  let ?ls = "map (sc_block_to_string C) chain"
  have parse: "block_store_parse E C (ndjson ?ls) = Inr chain"
    using C parse_lines [OF C chain] by (simp add: block_store_parse_def stored_lines_ndjson codec_laws_def)
  obtain q where q: "read_stable_prefix d path = (q, d')"
    and r: "r = (case q of Inl e \<Rightarrow> Err (StoreIo e) | Inr None \<Rightarrow> Ok [] | Inr (Some raw) \<Rightarrow> block_store_parse E C raw)"
    using run by (auto simp: block_store_recover_def split: prod.split_asm sum.split_asm option.split_asm)
  note read = read_lines [OF held [unfolded holds_chain_lines [OF C]] q]
  show "(r = Inr chain \<and> holds_chain C d' path chain []) \<or> (\<exists>e torn'. r = Inl e \<and> holds_chain C d' path chain torn')"
    using read(1) r parse by (auto simp: holds_chain_lines [OF C])
  show "r = Inr chain \<and> working d'" if "working d" using read that r parse by auto
qed

section \<open>The reward ledger of a chain\<close>

text \<open>Every settled credit is a positive amount.\<close>

lemma settlement_positive:
  assumes "derive_bounty_settlement xs reg h = Inr credits" and "c \<in> set credits"
  shows "0 < amount_of (pc_amount c)"
proof -
  have step: "\<forall>c \<in> set (fst st'). 0 < amount_of (pc_amount c)"
    if "settle_row reg h st x = Inr st'" and "\<forall>c \<in> set (fst st). 0 < amount_of (pc_amount c)" for st st' x
  proof -
    obtain credits rows budgets where st: "st = (credits, rows, budgets)" by (cases st)
    from that show ?thesis
      by (auto simp: st settle_row_def result_simps Let_def word_gt_0 unat_gt_0 split: if_split_asm)
  qed
  have "\<forall>c \<in> set (fst st'). 0 < amount_of (pc_amount c)"
    if "try_fold (settle_row reg h) st xs = Inr st'" and "\<forall>c \<in> set (fst st). 0 < amount_of (pc_amount c)" for st st'
    using that
  proof (induction xs arbitrary: st)
    case (Cons x xs)
    then obtain st1 where "settle_row reg h st x = Inr st1" "try_fold (settle_row reg h) st1 xs = Inr st'"
      by (auto split: sum.split_asm)
    with Cons.IH step Cons.prems(2) show ?case by blast
  qed simp
  with assms show ?thesis by (fastforce simp: derive_bounty_settlement_def rbind_eq_Inr)
qed

text \<open>The ledger applies credits as replay does, and refuses only a zero amount in addition.\<close>

lemma apply_credits_base:
  "credit_base b credits = Inr b' \<Longrightarrow> \<forall>c \<in> set credits. 0 < amount_of (pr_amount c) \<Longrightarrow> apply_credits b credits = (Inr (), b')"
  unfolding credit_base_def
proof (induction credits arbitrary: b)
  case (Cons c credits)
  then obtain b1 where 1: "credit_amount_to b (pr_pk c) (pr_amount c) = Inr b1"
    "try_fold (\<lambda>b credit. credit_amount_to b (pr_pk credit) (pr_amount credit)) b1 credits = Inr b'"
    by (auto split: sum.split_asm)
  then obtain v where v: "parse_word (pr_amount c) = Some (v :: u128)" "checked_credit b (pr_pk c) v = Inr b1"
    by (auto simp: credit_amount_to_def result_simps)
  moreover have "v \<noteq> 0" using v(1) Cons.prems(2) by (auto simp: amount_of_def)
  ultimately have "apply_credit b c = Inr b1" by (simp add: apply_credit_def)
  with Cons.IH [OF 1(2)] Cons.prems(2) show ?case by simp
qed simp

lemma credit_base_append: "credit_base b (cs @ cs') = rbind (credit_base b cs) (\<lambda>b. credit_base b cs')"
  by (simp add: credit_base_def try_fold_append)

lemma credit_bounty_base:
  assumes "credit_bounty (b, f) credits = Inr (b', f')"
  shows "credit_base b (map (\<lambda>c. \<lparr>pr_pk = pc_prover c, pr_amount = pc_amount c\<rparr>) credits) = Inr b'"
  using assms unfolding credit_bounty_def credit_base_def
proof (induction credits arbitrary: b f)
  case (Cons c credits)
  then obtain b1 f1 where 1: "credit_amount_to b (pc_prover c) (pc_amount c) = Inr b1"
    "try_fold (\<lambda>(balances, by_family) credit.
       rbind (credit_amount_to balances (pc_prover credit) (pc_amount credit)) (\<lambda>balances.
       rbind (credit_amount_to by_family (pc_family_id credit) (pc_amount credit)) (\<lambda>by_family.
       Ok (balances, by_family)))) (b1, f1) credits = Inr (b', f')"
    by (auto simp: rbind_eq_Inr split: sum.split_asm)
  from Cons.IH [OF 1(2)] 1(1) show ?case by simp
qed simp

text \<open>The ledger derived from a chain.\<close>

definition ledger_of_chain :: "ext \<Rightarrow> family_manifest_registry \<Rightarrow> persisted_block list \<Rightarrow> runtime_error + reward_ledger" where
  "ledger_of_chain E reg chain =
     rbind (try_map (\<lambda>block. derive_reward_event E block reg) chain) (\<lambda>events.
     map_err RtStore (try_fold ledger_applied reward_ledger_default events))"

lemma ledger_step:
  assumes "replay_step E pol gp net reg st (i, b) = Inr st'" and "lg_balances l = rs_balances st"
  shows "\<exists>ev. derive_reward_event E b reg = Inr ev \<and> re_height ev = bl_height b \<and>
    ledger_apply l ev = (Inr (), \<lparr>lg_events = lg_events l @ [ev], lg_balances = rs_balances st'\<rparr>)"
proof -
  from assms(1) obtain credits balances bounty balances' by_family where
    s: "compute_block_reward_credits E b = Inr credits" "credit_base (rs_balances st) credits = Inr balances"
    "derive_bounty_settlement (bl_promoted_bounty_shares b) reg (bl_height b) = Inr bounty"
    "credit_bounty (balances, rs_bounty_credit_by_family st) bounty = Inr (balances', by_family)"
    and st': "rs_balances st' = balances'"
    by (rule replay_step_Inr) simp
  let ?all = "credits @ map (\<lambda>c. \<lparr>pr_pk = pc_prover c, pr_amount = pc_amount c\<rparr>) bounty"
  note base = compute_credits_Inr(2,3) [OF s(1) [unfolded compute_block_reward_credits_def]]
  have "\<forall>c \<in> set ?all. 0 < amount_of (pr_amount c)" using base(1) settlement_positive [OF s(3)] by auto
  moreover have "credit_base (rs_balances st) ?all = Inr balances'"
    using s(2) credit_bounty_base [OF s(4)] by (simp add: credit_base_append)
  ultimately have "apply_credits (lg_balances l) ?all = (Inr (), balances')" using apply_credits_base assms(2) by simp
  then show ?thesis using s base(2) st' by (simp add: derive_reward_event_def ledger_apply_def)
qed

lemma ledger_of_chain_snoc:
  assumes "ledger_of_chain E reg chain = Inr l" and "derive_reward_event E b reg = Inr ev" and "ledger_apply l ev = (Inr (), l')"
  shows "ledger_of_chain E reg (chain @ [b]) = Inr l'"
proof -
  from assms(1) obtain evs where evs: "try_map (\<lambda>block. derive_reward_event E block reg) chain = Inr evs"
    "try_fold ledger_applied reward_ledger_default evs = Inr l" by (auto simp: ledger_of_chain_def rbind_eq_Inr map_err_eq_Inr)
  have "try_map (\<lambda>block. derive_reward_event E block reg) (chain @ [b]) = Inr (evs @ [ev])"
    using evs(1) assms(2) by (simp add: try_map_eq_Inr list_all2_appendI)
  with evs(2) assms(3) show ?thesis by (simp add: ledger_of_chain_def try_fold_snoc ledger_applied_def)
qed

lemma replay_ledger:
  assumes "replay_run E pol gp net reg g chain = Inr st"
  shows "\<exists>l. ledger_of_chain E reg chain = Inr l \<and> lg_balances l = rs_balances st"
  using assms
proof (induction chain arbitrary: st rule: rev_induct)
  case Nil
  then show ?case by (auto simp: ledger_of_chain_def replay_start_def reward_ledger_default_def)
next
  case (snoc b chain)
  then obtain st0 where st0: "replay_run E pol gp net reg g chain = Inr st0"
    and step: "replay_step E pol gp net reg st0 (length chain, b) = Inr st"
    by (auto simp: replay_run_snoc rbind_eq_Inr)
  from snoc.IH [OF st0] obtain l where "ledger_of_chain E reg chain = Inr l" "lg_balances l = rs_balances st0" by blast
  with ledger_step [OF step] ledger_of_chain_snoc show ?case by fastforce
qed

section \<open>Healing the reward ledger\<close>

lemma ledger_fold_events: "try_fold ledger_applied l0 evs = Inr l \<Longrightarrow> lg_events l = lg_events l0 @ evs"
proof (induction evs arbitrary: l0)
  case (Cons ev evs)
  then obtain l1 where 1: "ledger_applied l0 ev = Inr l1" "try_fold ledger_applied l1 evs = Inr l" by (auto split: sum.split_asm)
  from 1(1) have "lg_events l1 = lg_events l0 @ [ev]"
    by (auto simp: ledger_applied_def ledger_apply_def split: if_split_asm sum.split_asm prod.split_asm)
  with Cons.IH [OF 1(2)] show ?case by simp
qed simp

lemma recover_fold_events:
  "try_fold (recover_event C) l0 lines = Inr l \<Longrightarrow> \<exists>evs. try_fold ledger_applied l0 evs = Inr l"
proof (induction lines arbitrary: l0)
  case Nil
  then have "try_fold ledger_applied l0 [] = Inr l" by simp
  then show ?case by blast
next
  case (Cons x lines)
  obtain i line where x: "x = (i, line)" by (cases x)
  from Cons.prems obtain l1 where l1: "recover_event C l0 (i, line) = Inr l1" "try_fold (recover_event C) l1 lines = Inr l"
    by (auto simp: x split: sum.split_asm)
  then obtain ev where 1: "ledger_applied l0 ev = Inr l1" "try_fold (recover_event C) l1 lines = Inr l"
    by (auto simp: recover_event_def rbind_eq_Inr)
  from Cons.IH [OF 1(2)] obtain evs where "try_fold ledger_applied l1 evs = Inr l" by blast
  with 1(1) have "try_fold ledger_applied l0 (ev # evs) = Inr l" by simp
  then show ?case by blast
qed

lemma recovered_ledger:
  assumes "reward_ledger_recover C d path = (Inr l, d')"
  shows "try_fold ledger_applied reward_ledger_default (lg_events l) = Inr l"
proof -
  from assms obtain evs where "try_fold ledger_applied reward_ledger_default evs = Inr l"
    using recover_fold_events by (fastforce simp: reward_ledger_recover_def split: prod.split_asm sum.split_asm option.split_asm
        intro: exI [of _ "[]"])
  with ledger_fold_events [OF this] show ?thesis by (simp add: reward_ledger_default_def)
qed

lemma ledger_recover_disk: "snd (reward_ledger_recover C d path) = snd (read_stable_prefix d path)"
  by (auto simp: reward_ledger_recover_def split: prod.split sum.split option.split)

lemma heal_reward:
  assumes "bp \<noteq> lp" and "try_fold ledger_applied reward_ledger_default evs = Inr l"
    and run: "heal_reward_ledger C d lp evs = (r, d')"
  shows "dk_files d' bp = dk_files d bp" and "r = Inr l \<or> (\<exists>e. r = Inl e)" and "working d \<Longrightarrow> r = Inr l \<and> working d'"
proof -
  define d1 where "d1 = (if dk_files d lp = None then d else snd (read_stable_prefix d lp))"
  have d1: "dk_files d1 bp = dk_files d bp" "working d \<Longrightarrow> working d1"
    using other_file(1) [OF assms(1), of d] working_calls(1) [of d lp] by (simp_all add: d1_def)
  have rw: "reward_ledger_rewrite_atomic C d1 lp evs =
      (case write_ndjson_lines_atomic d1 lp (map (sc_event_to_string C) evs) of (Inl e, d) \<Rightarrow> (Inl (StoreIo e), d) | (Inr _, d) \<Rightarrow> (Inr l, d))"
    by (simp add: reward_ledger_rewrite_atomic_def assms(2))
  have "(r, d') = (Inr l, d1) \<or> (r, d') = reward_ledger_rewrite_atomic C d1 lp evs"
  proof (cases "dk_files d lp")
    case None
    then show ?thesis using run by (simp add: heal_reward_ledger_def d1_def)
  next
    case (Some bytes)
    obtain q e where q: "reward_ledger_recover C d lp = (q, e)" by (cases "reward_ledger_recover C d lp")
    then have "e = d1" using ledger_recover_disk [of C d lp] Some by (simp add: d1_def)
    moreover have "L = l" if "q = Inr L" "lg_events L = evs" for L
      using recovered_ledger [of C d lp L e] q that assms(2) by simp
    ultimately show ?thesis using run Some q
      by (cases q) (auto simp: heal_reward_ledger_def result_ok_def split: if_split_asm)
  qed
  then show "dk_files d' bp = dk_files d bp" "r = Inr l \<or> (\<exists>e. r = Inl e)" "working d \<Longrightarrow> r = Inr l \<and> working d'"
    using d1 other_file(2) [OF assms(1), of d1 "map (sc_event_to_string C) evs"] working_calls(2) [of d1 lp "map (sc_event_to_string C) evs"]
    by (auto simp: rw split: prod.split_asm sum.split_asm)
qed

lemma same_balances_refl: "bt_wf b \<Longrightarrow> same_balances err b b = Inr ()"
  using bt_wf_distinct [of b]
  by (force simp: same_balances_def try_for_each_eq_Inr rbind_unit_eq_Inr ensure_eq_Inr Let_def bt_get_or_def map_of_eq_None_iff)

section \<open>Boot\<close>

text \<open>How a node is set up: its configuration, files, registry and genesis.\<close>

record node_setup =
  ns_config :: runtime_config
  ns_block_path :: string
  ns_ledger_path :: string
  ns_registry :: family_manifest_registry
  ns_genesis :: genesis_spec
  ns_network :: "string option"

definition node_boot :: "ext \<Rightarrow> store_codec \<Rightarrow> node_setup \<Rightarrow> disk \<Rightarrow> (runtime_error + runtime_state) \<times> disk" where
  "node_boot E C S d = boot_from_store_with_genesis_and_authorization_network E C d (ns_config S) (ns_block_path S)
     (Some (ns_ledger_path S)) None (ns_registry S) (ns_genesis S) (ns_network S)"

definition node_replay :: "ext \<Rightarrow> node_setup \<Rightarrow> persisted_block list \<Rightarrow> replay_error + replay_result" where
  "node_replay E S chain = replay_blocks_with_genesis_and_registry_for_authorization_network E chain
     (ns_genesis S) (ns_registry S) (ns_network S)"

text \<open>A runtime of the set-up, and a runtime that mirrors a chain.\<close>

definition node_of :: "node_setup \<Rightarrow> runtime_state \<Rightarrow> bool" where
  "node_of S rt \<longleftrightarrow> rt_config rt = ns_config S \<and> rt_family_registry rt = ns_registry S \<and> rt_boot_genesis rt = Some (ns_genesis S) \<and>
     rt_authorization_network_id rt = ns_network S \<and> rt_reward_ledger_path rt = Some (ns_ledger_path S)"

definition healthy :: "runtime_state \<Rightarrow> bool" where
  "healthy rt \<longleftrightarrow> rt_canonical_state_failure rt = None"

definition mirrors :: "ext \<Rightarrow> node_setup \<Rightarrow> persisted_block list \<Rightarrow> runtime_state \<Rightarrow> bool" where
  "mirrors E S chain rt \<longleftrightarrow> rt_block_cache rt = chain \<and> (\<exists>r l. node_replay E S chain = Inr r \<and> rt_current_c rt = Some (rr_latest_c r) \<and>
     rt_reward_ledger rt = Some l \<and> ledger_of_chain E (ns_registry S) chain = Inr l \<and> lg_balances l = rr_balances r)"

lemma node_replay_facts:
  assumes "node_replay E S chain = Inr r"
  shows "store_chain E chain" and "\<exists>l. ledger_of_chain E (ns_registry S) chain = Inr l \<and> lg_balances l = rr_balances r"
    and "bt_wf (rr_balances r)" and "chain \<noteq> [] \<Longrightarrow> rr_latest_c r = bl_c (last chain)"
proof -
  from assms obtain st where run: "genesis_run E (ns_genesis S) (ns_registry S) (ns_network S) chain = Inr st"
    and r: "r = result_of (length chain) st" by (auto simp: node_replay_def genesis_replay_eq)
  note run' = run [unfolded genesis_run_def]
  show "store_chain E chain" by (rule replay_store_chain [OF run'])
  show "\<exists>l. ledger_of_chain E (ns_registry S) chain = Inr l \<and> lg_balances l = rr_balances r"
    using replay_ledger [OF run'] by (simp add: r result_of_def)
  show "bt_wf (rr_balances r)" and "chain \<noteq> [] \<Longrightarrow> rr_latest_c r = bl_c (last chain)"
    using replay_run_ok_state [OF run'] by (auto simp: r result_of_def replay_ok_state_def)
qed

lemma boot_ledger:
  assumes "bp \<noteq> lp" and rep: "node_replay E S chain = Inr r"
    and run: "boot_reward_ledger E C d (Some lp) None chain (ns_registry S) r = (res, d')"
  shows "dk_files d' bp = dk_files d bp"
    and "(\<exists>e. res = Inl e) \<or> (\<exists>l. res = Inr (Some l) \<and> ledger_of_chain E (ns_registry S) chain = Inr l \<and> lg_balances l = rr_balances r)"
    and "working d \<Longrightarrow> is_ok res"
proof -
  from node_replay_facts(2) [OF rep] obtain l where l: "ledger_of_chain E (ns_registry S) chain = Inr l" "lg_balances l = rr_balances r"
    by blast
  then obtain evs where evs: "try_map (\<lambda>block. derive_reward_event E block (ns_registry S)) chain = Inr evs"
    "try_fold ledger_applied reward_ledger_default evs = Inr l"
    by (auto simp: ledger_of_chain_def rbind_eq_Inr map_err_eq_Inr)
  obtain q d1 where q: "heal_reward_ledger C d lp evs = (q, d1)" by (cases "heal_reward_ledger C d lp evs")
  note heal = heal_reward [OF assms(1) evs(2) q]
  have same: "verify_ledger_matches_replay C d1 l (rr_balances r) None (rr_bounty_credit_by_family r) = (Inr (), d1)"
    using same_balances_refl [OF node_replay_facts(3) [OF rep]] l(2) by (simp add: verify_ledger_matches_replay_def)
  have res: "(res, d') = (case q of Inl e \<Rightarrow> (Inl (RtStore e), d1) | Inr _ \<Rightarrow> (Inr (Some l), d1))"
    using run heal(2) same by (auto simp: boot_reward_ledger_def evs(1) q)
  show "dk_files d' bp = dk_files d bp"
    "(\<exists>e. res = Inl e) \<or> (\<exists>l. res = Inr (Some l) \<and> ledger_of_chain E (ns_registry S) chain = Inr l \<and> lg_balances l = rr_balances r)"
    "working d \<Longrightarrow> is_ok res"
    using res heal l by (auto split: sum.split_asm)
qed

lemma node_boot_facts:
  assumes C: "codec_laws C" and paths: "ns_block_path S \<noteq> ns_ledger_path S"
    and held: "holds_chain C d (ns_block_path S) chain torn" and rep: "node_replay E S chain = Inr r"
    and run: "node_boot E C S d = (res, d')"
  shows "\<exists>torn'. holds_chain C d' (ns_block_path S) chain torn'"
    and "res = Inr rt \<Longrightarrow> holds_chain C d' (ns_block_path S) chain [] \<and> node_of S rt \<and> healthy rt \<and> mirrors E S chain rt"
    and "working d \<Longrightarrow> check_manifest_root E (ns_registry S) (Some (ns_genesis S)) = Inr () \<Longrightarrow> is_ok res"
proof -
  obtain q d1 where q: "block_store_recover E C d (ns_block_path S) = (q, d1)" by (cases "block_store_recover E C d (ns_block_path S)")
  note rec = recover_chain [OF C node_replay_facts(1) [OF rep] held q]
  obtain w d2 where w: "boot_reward_ledger E C d1 (Some (ns_ledger_path S)) None chain (ns_registry S) r = (w, d2)"
    by (cases "boot_reward_ledger E C d1 (Some (ns_ledger_path S)) None chain (ns_registry S) r")
  note led = boot_ledger [OF paths rep w]
  have held2: "holds_chain C d2 (ns_block_path S) chain t = holds_chain C d1 (ns_block_path S) chain t" for t
    using led(1) by (simp add: holds_chain_def file_bytes_def)
  let ?rt = "(runtime_new (ns_config S))\<lparr>rt_family_registry := ns_registry S, rt_boot_genesis := Some (ns_genesis S),
     rt_authorization_network_id := ns_network S\<rparr>"
  have contract: "replay_under_boot_contract E ?rt chain = Inr r"
    using rep by (simp add: replay_under_boot_contract_def node_replay_def)
  let ?booted = "\<lambda>l. (set_current_c (?rt\<lparr>rt_reward_ledger_path := Some (ns_ledger_path S), rt_reward_ledger := l\<rparr>)
     (rr_latest_c r))\<lparr>rt_block_cache := chain\<rparr>"
  have eq: "(res, d') = (case check_manifest_root E (ns_registry S) (Some (ns_genesis S)) of Inl e \<Rightarrow> (Inl e, d) | Inr _ \<Rightarrow>
      (case q of Inl e \<Rightarrow> (Inl (RtStore e), d1) | Inr _ \<Rightarrow> (case w of Inl e \<Rightarrow> (Inl e, d2) | Inr l \<Rightarrow> (Inr (?booted l), d2))))"
    using run rec(1) unfolding node_boot_def boot_from_store_with_genesis_and_authorization_network_def boot_from_store_inner_def q
    by (auto simp: contract w heal_bounty_ledger_def split: sum.split_asm sum.split)
  show "\<exists>torn'. holds_chain C d' (ns_block_path S) chain torn'"
    using eq rec(1) held2 held by (auto split: sum.split_asm)
  show "holds_chain C d' (ns_block_path S) chain [] \<and> node_of S rt \<and> healthy rt \<and> mirrors E S chain rt" if "res = Inr rt"
    using eq that rec(1) held2 led(2) rep
    by (auto simp: node_of_def healthy_def mirrors_def set_current_c_def runtime_new_def split: sum.split_asm)
  show "is_ok res" if "working d" "check_manifest_root E (ns_registry S) (Some (ns_genesis S)) = Inr ()"
    using eq that rec(2) led(3) by (auto split: sum.split_asm)
qed

end
