(* ===== verification/Node.thy ===== *)
theory Node
  imports Recovery Production
begin

text \<open>
  A node over time: admissions, commits, ingested blocks, reorganisations, crashes and restarts in any order,
  each with arbitrary outcomes of its disk calls. The block file always holds a chain that replays,
  and a healthy runtime mirrors exactly that chain.
\<close>

section \<open>Publishing a block\<close>

lemma append_chain:
  assumes C: "codec_laws C" and held: "holds_chain C d path chain []" and run: "block_store_append C d path b = (q, d')"
  shows "(q = Inr () \<and> holds_chain C d' path (chain @ [b]) []) \<or>
    (\<exists>e chain' torn. q = Inl e \<and> chain' \<in> {chain, chain @ [b]} \<and> holds_chain C d' path chain' torn)"
proof -
  obtain w where w: "append_ndjson_line_durable d path (sc_block_to_string C b) = (w, d')" and q: "q = map_err StoreIo w"
    using run by (auto simp: block_store_append_def split: prod.split_asm)
  have "line_ok (sc_block_to_string C b)" using C by (simp add: codec_laws_def)
  from append_records [OF held [unfolded holds_chain_lines [OF C]] _ this w]
  have "(w = Inr () \<and> holds_chain C d' path (chain @ [b]) []) \<or>
      (\<exists>e chain' torn. w = Inl e \<and> chain' \<in> {chain, chain @ [b]} \<and> holds_chain C d' path chain' torn)"
    unfolding holds_chain_lines [OF C] by blast
  then show ?thesis by (cases w) (simp_all add: q)
qed

lemma next_ledger:
  assumes "node_replay E S chain = Inr r" and "node_replay E S (chain @ [b]) = Inr r'" and "lg_balances l = rr_balances r"
    and "ledger_of_chain E (ns_registry S) chain = Inr l"
  shows "\<exists>ev l'. derive_reward_event E b (ns_registry S) = Inr ev \<and> ledger_apply l ev = (Inr (), l') \<and>
    ledger_of_chain E (ns_registry S) (chain @ [b]) = Inr l' \<and> lg_balances l' = rr_balances r' \<and> rr_latest_c r' = bl_c b"
proof -
  from assms(1) obtain st where st: "genesis_run E (ns_genesis S) (ns_registry S) (ns_network S) chain = Inr st"
    and r: "r = result_of (length chain) st" by (auto simp: node_replay_def genesis_replay_eq)
  from assms(2) obtain st' where "genesis_run E (ns_genesis S) (ns_registry S) (ns_network S) (chain @ [b]) = Inr st'"
    and r': "r' = result_of (length (chain @ [b])) st'" by (auto simp: node_replay_def genesis_replay_eq)
  with st obtain gp where step: "replay_step E Strict gp (ns_network S) (ns_registry S) st (length chain, b) = Inr st'"
    by (auto simp: genesis_run_def replay_run_snoc)
  have "lg_balances l = rs_balances st" using assms(3) by (simp add: r result_of_def)
  from ledger_step [OF step this] obtain ev where ev: "derive_reward_event E b (ns_registry S) = Inr ev"
    "ledger_apply l ev = (Inr (), \<lparr>lg_events = lg_events l @ [ev], lg_balances = rs_balances st'\<rparr>)" by blast
  moreover have "rr_latest_c r' = bl_c b" using node_replay_facts(4) [OF assms(2)] by simp
  ultimately show ?thesis using ledger_of_chain_snoc [OF assms(4) ev] by (simp add: r' result_of_def)
qed

text \<open>What the publications of a block and of a chain leave behind, whatever the disk does.\<close>

definition published ::
    "ext \<Rightarrow> store_codec \<Rightarrow> node_setup \<Rightarrow> persisted_block list \<Rightarrow> persisted_block list \<Rightarrow> bool \<Rightarrow> runtime_state \<Rightarrow> disk \<Rightarrow> bool" where
  "published E C S chain new acknowledged rt d \<longleftrightarrow> node_of S rt \<and>
     (if acknowledged then holds_chain C d (ns_block_path S) new [] \<and> healthy rt \<and> mirrors E S new rt
      else \<not> healthy rt \<and> (\<exists>chain' torn. chain' \<in> {chain, new} \<and> holds_chain C d (ns_block_path S) chain' torn))"

lemma publish_block_facts:
  assumes C: "codec_laws C" and paths: "ns_block_path S \<noteq> ns_ledger_path S" and rt: "node_of S rt" "mirrors E S chain rt"
    and held: "holds_chain C d (ns_block_path S) chain []" and new: "node_replay E S (chain @ [b]) = Inr r'"
    and ev: "reward_event_for E rt b = Inr ev" and run: "publish_block E C rt d (ns_block_path S) b ev = (res, rt', d')"
  shows "published E C S chain (chain @ [b]) (is_ok res) rt' d'"
proof -
  from rt(2) obtain r l where r: "node_replay E S chain = Inr r" "rt_current_c rt = Some (rr_latest_c r)" "rt_block_cache rt = chain"
    and l: "rt_reward_ledger rt = Some l" "ledger_of_chain E (ns_registry S) chain = Inr l" "lg_balances l = rr_balances r"
    by (auto simp: mirrors_def)
  from next_ledger [OF r(1) new l(3,2)] ev rt(1) obtain event l' where ev': "ev = Some event" "ledger_apply l event = (Inr (), l')"
    and l': "ledger_of_chain E (ns_registry S) (chain @ [b]) = Inr l'" "lg_balances l' = rr_balances r'" "rr_latest_c r' = bl_c b"
    by (auto simp: reward_event_for_def node_of_def)
  let ?rt = "begin_canonical_publish rt BlockReward"
  have rt1: "node_of S ?rt" "\<not> healthy ?rt" "rt_reward_ledger_path ?rt = Some (ns_ledger_path S)" "rt_reward_ledger ?rt = Some l"
    using rt(1) l(1) by (simp_all add: begin_canonical_publish_def node_of_def healthy_def)
  obtain q d1 where q: "block_store_append C d (ns_block_path S) b = (q, d1)" by (cases "block_store_append C d (ns_block_path S) b")
  note app = append_chain [OF C held q]
  obtain w d2 where w: "reward_ledger_append C d1 (ns_ledger_path S) event = (w, d2)" by (cases "reward_ledger_append C d1 (ns_ledger_path S) event")
  have same: "holds_chain C d2 (ns_block_path S) c t = holds_chain C d1 (ns_block_path S) c t" for c t
    using w other_file(3) [OF paths, of d1 "sc_event_to_string C event"]
    by (auto simp: reward_ledger_append_def holds_chain_def file_bytes_def split: prod.split_asm)
  let ?rt2 = "?rt\<lparr>rt_reward_ledger := Some l'\<rparr>"
  have app_r: "append_reward C ?rt d1 ev = (case w of Inl e \<Rightarrow> (Inl (RtStore e), ?rt, d2) | Inr _ \<Rightarrow> (Inr (), ?rt2, d2))"
    using ev' w rt1 by (simp add: append_reward_def split: sum.split)
  obtain n rt3 where rt3: "apply_block_unchecked ?rt2 b = (n, rt3)" by (cases "apply_block_unchecked ?rt2 b")
  have rt3': "rt_reward_ledger rt3 = Some l'" "rt_current_c rt3 = Some (bl_c b)" "rt_block_cache rt3 = chain" "node_of S rt3"
    using rt3 rt1(1) r(3) by (auto simp: apply_block_unchecked_def set_current_c_def node_of_def begin_canonical_publish_def split: prod.split_asm)
  have eq: "(res, rt', d') = (case q of Inl e \<Rightarrow> (Inl (RtStore e), ?rt, d1) | Inr _ \<Rightarrow> (case w of Inl e \<Rightarrow> (Inl (RtStore e), ?rt, d2)
      | Inr _ \<Rightarrow> (Inr n, finish_canonical_publish (rt3\<lparr>rt_block_cache := rt_block_cache rt3 @ [b]\<rparr>), d2)))"
    using run unfolding publish_block_def Let_def q app_r by (auto simp: app_r rt3 split: sum.split_asm sum.split)
  show ?thesis
    using eq app same rt1 rt3' l' new
    by (auto simp: published_def finish_canonical_publish_def healthy_def node_of_def mirrors_def split: sum.split_asm)
qed

section \<open>Publishing a chain\<close>

lemma rebuilt_ledger: "rebuild_reward_ledger E reg chain = Inr (l, evs) \<Longrightarrow> ledger_of_chain E reg chain = Inr l"
proof (induction chain arbitrary: l evs rule: rev_induct)
  case Nil
  then show ?case by (simp add: rebuild_reward_ledger_def ledger_of_chain_def)
next
  case (snoc b chain)
  then obtain l0 evs0 ev where "rebuild_reward_ledger E reg chain = Inr (l0, evs0)" "derive_reward_event E b reg = Inr ev"
    "ledger_applied l0 ev = Inr l"
    by (auto simp: rebuild_reward_ledger_def try_fold_snoc rbind_eq_Inr map_err_eq_Inr)
  moreover from this(3) have "ledger_apply l0 ev = (Inr (), l)" by (auto simp: ledger_applied_def split: prod.split_asm sum.split_asm)
  ultimately show ?case using snoc.IH ledger_of_chain_snoc by blast
qed

lemma rewrite_chain:
  assumes C: "codec_laws C" and held: "holds_chain C d path chain torn"
    and run: "write_ndjson_lines_atomic d path (map (sc_block_to_string C) new) = (q, d')"
  shows "(q = Inr () \<and> holds_chain C d' path new []) \<or>
    (\<exists>e chain' torn'. q = Inl e \<and> chain' \<in> {chain, new} \<and> holds_chain C d' path chain' torn')"
proof -
  have "\<forall>l \<in> set (map (sc_block_to_string C) new). line_ok l" using C by (simp add: codec_laws_def)
  from rewrite_lines [OF held [unfolded holds_chain_lines [OF C]] this run] show ?thesis
    by (auto simp: holds_chain_lines [OF C])
qed

lemma publish_reorg_facts:
  assumes C: "codec_laws C" and paths: "ns_block_path S \<noteq> ns_ledger_path S" and rt: "node_of S rt"
    and held: "holds_chain C d (ns_block_path S) chain torn" and new: "node_replay E S cand = Inr r" "cand \<noteq> []"
    and led: "rebuild_reward_ledger E (ns_registry S) cand = Inr (l, evs)"
    and run: "publish_reorg C rt d (ns_block_path S) cand r (last cand) (Some (l, evs)) = (res, rt', d')"
  shows "published E C S chain cand (is_ok res) rt' d'"
proof -
  note l = rebuilt_ledger [OF led]
  have bals: "lg_balances l = rr_balances r" using node_replay_facts(2) [OF new(1)] l by auto
  let ?rt = "begin_canonical_publish rt ReorgReward"
  have rt1: "node_of S ?rt" "\<not> healthy ?rt" "rt_reward_ledger_path ?rt = Some (ns_ledger_path S)"
    using rt by (simp_all add: begin_canonical_publish_def node_of_def healthy_def)
  obtain q d1 where q: "write_ndjson_lines_atomic d (ns_block_path S) (map (sc_block_to_string C) cand) = (q, d1)" by fastforce
  note wr = rewrite_chain [OF C held q]
  obtain w d2 where w: "write_ndjson_lines_atomic d1 (ns_ledger_path S) (map (sc_event_to_string C) evs) = (w, d2)" by fastforce
  have same: "holds_chain C d2 (ns_block_path S) c t = holds_chain C d1 (ns_block_path S) c t" for c t
    using w other_file(2) [OF paths, of d1 "map (sc_event_to_string C) evs"] by (simp add: holds_chain_def file_bytes_def)
  let ?rt2 = "set_current_c (?rt\<lparr>rt_reward_ledger := Some l, rt_block_cache := cand\<rparr>) (rr_latest_c r)"
  let ?rt3 = "?rt2\<lparr>rt_pool := snd (prune_to_height (rt_pool ?rt2) (bl_c (last cand))),
     rt_candidates := filter (\<lambda>s. cs_c s = bl_c (last cand)) (rt_candidates ?rt2)\<rparr>"
  have eq: "(res, rt', d') = (case q of Inl e \<Rightarrow> (Inl (RtIo e), ?rt, d1) | Inr _ \<Rightarrow> (case w of Inl e \<Rightarrow> (Inl (RtIo e), ?rt, d2)
      | Inr _ \<Rightarrow> (Inr (Reorged (bl_height (last cand))), finish_canonical_publish ?rt3, d2)))"
    using run rt1(3) unfolding publish_reorg_def Let_def q by (auto simp: w split: sum.split_asm sum.split)
  have "node_of S (finish_canonical_publish ?rt3)" "healthy (finish_canonical_publish ?rt3)" "mirrors E S cand (finish_canonical_publish ?rt3)"
    using rt new(1) l bals
    by (auto simp: node_of_def healthy_def mirrors_def finish_canonical_publish_def set_current_c_def begin_canonical_publish_def)
  with eq wr same rt1 show ?thesis by (auto simp: published_def split: sum.split_asm)
qed

section \<open>The machine\<close>

record node =
  nd_runtime :: "runtime_state option"
  nd_held :: "candidate_share list"
  nd_disk :: disk

datatype node_op =
    Admission admission_op
  | CommitNext u64 "u8 set" "promoted_bounty_share list"
  | Ingest persisted_block
  | Reorg "persisted_block list" u64
  | Restart

text \<open>
  An operation comes with the outcomes of its disk calls. A crash in the middle of an operation is a failing
  outcome followed by a restart: the memory of the process, its fences included, is gone. The caller
  of \<open>ingest_external_block\<close> has replayed the extended chain before.
\<close>

definition node_restart :: "ext \<Rightarrow> store_codec \<Rightarrow> node_setup \<Rightarrow> disk \<Rightarrow> node" where
  "node_restart E C S d =
     (case node_boot E C S (d\<lparr>dk_fenced := {}\<rparr>) of
        (Inl _, d) \<Rightarrow> \<lparr>nd_runtime = None, nd_held = [], nd_disk = d\<rparr>
      | (Inr rt, d) \<Rightarrow> \<lparr>nd_runtime = Some rt, nd_held = [], nd_disk = d\<rparr>)"

fun node_run :: "ext \<Rightarrow> store_codec \<Rightarrow> node_setup \<Rightarrow> runtime_state \<Rightarrow> candidate_share list \<Rightarrow> disk \<Rightarrow> node_op \<Rightarrow> node" where
  "node_run E C S rt held d (Admission p) =
     (case admission_op_step E (rt, held) p of (rt, held) \<Rightarrow> \<lparr>nd_runtime = Some rt, nd_held = held, nd_disk = d\<rparr>)"
| "node_run E C S rt held d (CommitNext ts tags promoted) =
     (case commit_next_block_for_current_c_with_promoted E C rt d (ns_block_path S) ts tags promoted of
        (_, rt, d) \<Rightarrow> \<lparr>nd_runtime = Some rt, nd_held = held, nd_disk = d\<rparr>)"
| "node_run E C S rt held d (Ingest b) =
     (if is_ok (node_replay E S (rt_block_cache rt @ [b]))
      then (case ingest_external_block E C rt d (ns_block_path S) b of
              (_, rt, d) \<Rightarrow> \<lparr>nd_runtime = Some rt, nd_held = held, nd_disk = d\<rparr>)
      else \<lparr>nd_runtime = Some rt, nd_held = held, nd_disk = d\<rparr>)"
| "node_run E C S rt held d (Reorg candidate now_ms) =
     (case reorg_to_heavier_chain E C rt d (ns_block_path S) candidate (ns_genesis S) now_ms of
        (_, rt, d) \<Rightarrow> \<lparr>nd_runtime = Some rt, nd_held = held, nd_disk = d\<rparr>)"
| "node_run E C S rt held d Restart = node_restart E C S d"

definition node_step :: "ext \<Rightarrow> store_codec \<Rightarrow> node_setup \<Rightarrow> node \<Rightarrow> node_op \<times> io_outcome list \<Rightarrow> node" where
  "node_step E C S n = (\<lambda>(p, outcomes).
     let d = (nd_disk n)\<lparr>dk_outcomes := outcomes\<rparr> in
     case nd_runtime n of
       Some rt \<Rightarrow> node_run E C S rt (nd_held n) d p
     | None \<Rightarrow> (if p = Restart then node_restart E C S d else n))"

definition node_inv :: "ext \<Rightarrow> store_codec \<Rightarrow> node_setup \<Rightarrow> node \<Rightarrow> bool" where
  "node_inv E C S n \<longleftrightarrow> codec_laws C \<and> ns_block_path S \<noteq> ns_ledger_path S \<and>
     (\<exists>chain torn. holds_chain C (nd_disk n) (ns_block_path S) chain torn \<and> is_ok (node_replay E S chain) \<and>
        (\<forall>rt. nd_runtime n = Some rt \<longrightarrow> node_of S rt \<and> (healthy rt \<longrightarrow> torn = [] \<and> mirrors E S chain rt)))"

section \<open>The invariant\<close>

lemma published_inv:
  assumes "codec_laws C" and "ns_block_path S \<noteq> ns_ledger_path S" and "is_ok (node_replay E S chain)" and "is_ok (node_replay E S new)"
    and "published E C S chain new ack rt d"
  shows "node_inv E C S \<lparr>nd_runtime = Some rt, nd_held = held, nd_disk = d\<rparr>"
  using assms by (cases ack) (auto simp: published_def node_inv_def)

lemma ensure_healthy: "ensure_canonical_state_healthy rt = Inr () \<longleftrightarrow> healthy rt"
  by (auto simp: ensure_canonical_state_healthy_def canonical_state_failure_code_def healthy_def split: option.split)

lemma admission_chain_part: "chain_part (fst (admission_op_step E (rt, held) p)) = chain_part rt"
  by (cases p)
    (auto simp: chain_part_def observe_ticket_from_body_def admit_body_with_submitter_context_def quarantine_candidate_def
      take_candidate_for_reverify_def restore_reverified_candidate_def runtime_release_semantic_reservation_def Let_def bind_eq_Some_conv
      split: sum.split option.split prod.split admission_decision.split_asm if_split_asm)

lemma chain_part_node:
  assumes "chain_part rt' = chain_part rt"
  shows "node_of S rt' = node_of S rt" and "healthy rt' = healthy rt" and "mirrors E S chain rt' = mirrors E S chain rt"
  using assms by (simp_all add: chain_part_def node_of_def healthy_def mirrors_def)

text \<open>A runtime that passes the health check mirrors the chain of the file.\<close>

lemma node_inv_healthy:
  assumes "node_inv E C S \<lparr>nd_runtime = Some rt, nd_held = held, nd_disk = d\<rparr>" and "healthy rt"
  shows "codec_laws C" "ns_block_path S \<noteq> ns_ledger_path S" "node_of S rt" "mirrors E S (rt_block_cache rt) rt"
    "holds_chain C d (ns_block_path S) (rt_block_cache rt) []" "is_ok (node_replay E S (rt_block_cache rt))"
  using assms by (auto simp: node_inv_def mirrors_def)

lemma node_commit_inv:
  assumes inv: "node_inv E C S \<lparr>nd_runtime = Some rt, nd_held = held, nd_disk = d\<rparr>"
    and run: "commit_next_block_for_current_c_with_promoted E C rt d (ns_block_path S) ts tags promoted = (res, rt', d')"
  shows "node_inv E C S \<lparr>nd_runtime = Some rt', nd_held = held, nd_disk = d'\<rparr>"
proof (cases "prepare_commit E rt (of_nat (length (rt_block_cache rt))) ts tags promoted")
  case (Inl e)
  with run inv show ?thesis by (simp add: commit_next_block_for_current_c_with_promoted_def commit_using_cache_def)
next
  case (Inr p)
  obtain b ev where p: "p = (b, ev)" by (cases p)
  from Inr have ok: "healthy rt" "self_replay E rt b = Inr ()" "reward_event_for E rt b = Inr ev"
    by (auto simp: prepare_commit_def p rbind_unit_eq_Inr rbind_eq_Inr ensure_healthy)
  note h = node_inv_healthy [OF inv ok(1)]
  from ok(2) h(3) obtain r where r: "node_replay E S (rt_block_cache rt @ [b]) = Inr r"
    by (auto simp: self_replay_def node_of_def node_replay_def rbind_eq_Inr map_err_eq_Inr)
  obtain q where q: "publish_block E C rt d (ns_block_path S) b ev = (q, rt', d')"
    using run Inr by (auto simp: commit_next_block_for_current_c_with_promoted_def commit_using_cache_def p split: prod.split_asm)
  show ?thesis
    using published_inv [OF h(1,2,6) _ publish_block_facts [OF h(1-5) r ok(3) q]] r by simp
qed

lemma ingest_inv:
  assumes inv: "node_inv E C S \<lparr>nd_runtime = Some rt, nd_held = held, nd_disk = d\<rparr>"
    and rep: "node_replay E S (rt_block_cache rt @ [b]) = Inr r"
    and run: "ingest_external_block E C rt d (ns_block_path S) b = (res, rt', d')"
  shows "node_inv E C S \<lparr>nd_runtime = Some rt', nd_held = held, nd_disk = d'\<rparr>"
proof (cases "rbind (ensure_canonical_state_healthy rt) (\<lambda>_. rbind (check_block_applicable E rt b) (\<lambda>_. reward_event_for E rt b))")
  case (Inl e)
  with run inv show ?thesis by (simp add: ingest_external_block_def)
next
  case (Inr ev)
  then have ok: "healthy rt" "reward_event_for E rt b = Inr ev" by (auto simp: rbind_unit_eq_Inr ensure_healthy)
  note h = node_inv_healthy [OF inv ok(1)]
  have q: "publish_block E C rt d (ns_block_path S) b ev = (res, rt', d')" using run Inr by (simp add: ingest_external_block_def)
  show ?thesis using published_inv [OF h(1,2,6) _ publish_block_facts [OF h(1-5) rep ok(2) q]] rep by simp
qed

lemma decide_reorg_Inr:
  assumes "decide_reorg E rt cand genesis now = Inr (r, cand_head, adopt)"
  shows "healthy rt" "cand \<noteq> []" "cand_head = last cand"
    "replay_blocks_with_genesis_and_registry_for_authorization_network E cand genesis (rt_family_registry rt)
       (reorg_authorization_network rt genesis) = Inr r"
  using assms by (auto simp: decide_reorg_def rbind_unit_eq_Inr rbind_eq_Inr map_err_eq_Inr ok_or_eq_Inr ensure_healthy split: if_split_asm)

lemma reorg_inv:
  assumes inv: "node_inv E C S \<lparr>nd_runtime = Some rt, nd_held = held, nd_disk = d\<rparr>"
    and run: "reorg_to_heavier_chain E C rt d (ns_block_path S) cand (ns_genesis S) now = (res, rt', d')"
  shows "node_inv E C S \<lparr>nd_runtime = Some rt', nd_held = held, nd_disk = d'\<rparr>"
proof (cases "rt' = rt \<and> d' = d")
  case False
  with run obtain r cand_head where dec: "decide_reorg E rt cand (ns_genesis S) now = Inr (r, cand_head, True)"
    by (auto simp: reorg_to_heavier_chain_def split: sum.split_asm prod.split_asm if_split_asm)
  note ok = decide_reorg_Inr [OF dec] and h = node_inv_healthy [OF inv decide_reorg_Inr(1) [OF dec]]
  from h(3) ok(4) have r: "node_replay E S cand = Inr r"
    by (auto simp: node_replay_def node_of_def reorg_authorization_network_def split: option.split_asm)
  from run dec False h(3) obtain l evs where "rebuild_reward_ledger E (ns_registry S) cand = Inr (l, evs)"
    "publish_reorg C rt d (ns_block_path S) cand r (last cand) (Some (l, evs)) = (res, rt', d')"
    by (auto simp: reorg_to_heavier_chain_def node_of_def ok(3) rbind_eq_Inr split: sum.split_asm)
  from published_inv [OF h(1,2,6) _ publish_reorg_facts [OF h(1,2,3,5) r ok(2) this]] r show ?thesis by simp
qed (use inv in simp)

lemma restart_inv:
  assumes "node_inv E C S \<lparr>nd_runtime = x, nd_held = held, nd_disk = d\<rparr>"
  shows "node_inv E C S (node_restart E C S d)"
proof -
  from assms obtain chain torn r where h: "codec_laws C" "ns_block_path S \<noteq> ns_ledger_path S"
    "holds_chain C (d\<lparr>dk_fenced := {}\<rparr>) (ns_block_path S) chain torn" "node_replay E S chain = Inr r"
    by (auto simp: node_inv_def is_ok_iff holds_chain_def file_bytes_def)
  obtain res d' where b: "node_boot E C S (d\<lparr>dk_fenced := {}\<rparr>) = (res, d')" by (cases "node_boot E C S (d\<lparr>dk_fenced := {}\<rparr>)")
  note facts = node_boot_facts(1,2) [OF h b]
  show ?thesis
    using facts h by (cases res) (fastforce simp: node_restart_def b node_inv_def)+
qed

interpretation node: total_system "node_step E C S" "node_inv E C S" for E C S
proof
  fix n and x :: "node_op \<times> io_outcome list"
  assume inv: "node_inv E C S n"
  obtain p os where x: "x = (p, os)" by (cases x)
  let ?d = "(nd_disk n)\<lparr>dk_outcomes := os\<rparr>"
  have inv': "node_inv E C S \<lparr>nd_runtime = nd_runtime n, nd_held = nd_held n, nd_disk = ?d\<rparr>"
    using inv by (simp add: node_inv_def holds_chain_def file_bytes_def)
  show "node_inv E C S (node_step E C S n x)"
  proof (cases "nd_runtime n")
    case None
    then show ?thesis using inv restart_inv [OF inv'] by (simp add: node_step_def x Let_def)
  next
    case (Some rt)
    have "node_inv E C S (node_run E C S rt (nd_held n) ?d p)"
    proof (cases p)
      case (Admission q)
      obtain rt1 h1 where a: "admission_op_step E (rt, nd_held n) q = (rt1, h1)" by fastforce
      then have "chain_part rt1 = chain_part rt" using admission_chain_part [of E rt "nd_held n" q] by simp
      from chain_part_node [OF this] show ?thesis using inv' Some by (simp add: Admission a node_inv_def)
    next
      case (Ingest b)
      then show ?thesis using inv' Some ingest_inv [of E C S rt "nd_held n" ?d b] by (auto simp: is_ok_iff split: prod.split)
    next
      case (CommitNext ts tags promoted)
      obtain r rt1 d1 where c: "commit_next_block_for_current_c_with_promoted E C rt ?d (ns_block_path S) ts tags promoted = (r, rt1, d1)"
        by (rule prod_cases3)
      show ?thesis using node_commit_inv [OF inv' [unfolded Some] c] by (simp add: CommitNext c)
    next
      case (Reorg candidate now_ms)
      obtain r rt1 d1 where c: "reorg_to_heavier_chain E C rt ?d (ns_block_path S) candidate (ns_genesis S) now_ms = (r, rt1, d1)"
        by (rule prod_cases3)
      show ?thesis using reorg_inv [OF inv' [unfolded Some] c] by (simp add: Reorg c)
    next
      case Restart
      then show ?thesis using restart_inv [OF inv'] by simp
    qed
    then show ?thesis by (simp add: node_step_def x Some Let_def)
  qed
qed

end
