(* ===== verification/Reference_Codec.thy ===== *)
theory Reference_Codec
  imports Stores
begin

text \<open>
  A concrete text for blocks and reward events that satisfies the laws required of the JSON text: a prefix code
  over letters and digits.
\<close>

section \<open>Prefix codes\<close>

definition code_chars :: "char set" where
  "code_chars = {ch. (of_char ch :: nat) \<in> {33..126}}"

definition prefix_code :: "('a \<Rightarrow> string) \<Rightarrow> bool" where
  "prefix_code f \<longleftrightarrow> (\<forall>x. f x \<noteq> [] \<and> set (f x) \<subseteq> code_chars) \<and> (\<forall>x y s t. f x @ s = f y @ t \<longrightarrow> x = y \<and> s = t)"

definition enc_char :: "char \<Rightarrow> string" where
  "enc_char ch = [char_of (65 + of_char ch div 16 :: nat), char_of (65 + of_char ch mod 16 :: nat)]"

definition enc_list :: "('a \<Rightarrow> string) \<Rightarrow> 'a list \<Rightarrow> string" where
  "enc_list f xs = concat (map (\<lambda>x. CHR ''1'' # f x) xs) @ ''0''"

definition enc_pair :: "('a \<Rightarrow> string) \<Rightarrow> ('b \<Rightarrow> string) \<Rightarrow> 'a \<times> 'b \<Rightarrow> string" where
  "enc_pair f g p = f (fst p) @ g (snd p)"

definition enc_string :: "string \<Rightarrow> string" where
  "enc_string = enc_list enc_char"

definition enc_option :: "('a \<Rightarrow> string) \<Rightarrow> 'a option \<Rightarrow> string" where
  "enc_option f x = (case x of None \<Rightarrow> ''n'' | Some y \<Rightarrow> CHR ''s'' # f y)"

definition enc_word :: "'a::len word \<Rightarrow> string" where
  "enc_word w = enc_string (nat_to_hex (unat w))"

lemma prefix_codeD: "prefix_code f \<Longrightarrow> f x @ s = f y @ t \<Longrightarrow> x = y \<and> s = t"
  by (simp add: prefix_code_def)

lemma prefix_code_chars: "prefix_code f \<Longrightarrow> set (f x) \<subseteq> code_chars"
  by (simp add: prefix_code_def)

lemma prefix_code_comp: "prefix_code f \<Longrightarrow> inj g \<Longrightarrow> prefix_code (\<lambda>x. f (g x))"
  by (auto simp: prefix_code_def inj_def)

lemma code_char_literals [simp]: "CHR ''0'' \<in> code_chars" "CHR ''1'' \<in> code_chars" "CHR ''n'' \<in> code_chars" "CHR ''s'' \<in> code_chars"
  by (simp_all add: code_chars_def)

lemma prefix_code_char: "prefix_code enc_char"
proof -
  have small: "(of_char ch :: nat) div 16 < 16" "(of_char ch :: nat) mod 16 < 16" for ch
    by (rule less_mult_imp_div_less) simp_all
  have dec: "(of_char (char_of (65 + n :: nat)) :: nat) = 65 + n" if "n < 16" for n using that by simp
  have "ch = ch'" if "enc_char ch = enc_char ch'" for ch ch'
  proof -
    from that small [of ch] small [of ch'] have "(of_char ch :: nat) div 16 = of_char ch' div 16" "(of_char ch :: nat) mod 16 = of_char ch' mod 16"
      unfolding enc_char_def by (metis dec add_left_cancel list.inject)+
    then have "(of_char ch :: nat) = of_char ch'" by (metis div_mult_mod_eq)
    then show "ch = ch'" by simp
  qed
  moreover have "set (enc_char ch) \<subseteq> code_chars" for ch using small [of ch] by (simp add: enc_char_def code_chars_def)
  ultimately show ?thesis by (auto simp: prefix_code_def enc_char_def)
qed

text \<open>For a list it is enough that the elements of one side are decodable, as recursion on JSON needs.\<close>

lemma enc_list_prefix:
  assumes "\<forall>x \<in> set xs. \<forall>y s t. f x @ s = f y @ t \<longrightarrow> x = y \<and> s = t" and "enc_list f xs @ s = enc_list f ys @ t"
  shows "xs = ys \<and> s = t"
  using assms
proof (induction xs arbitrary: ys)
  case Nil
  then show ?case by (cases ys) (simp_all add: enc_list_def)
next
  case (Cons x xs)
  from Cons.prems(2) obtain y ys' where ys: "ys = y # ys'" by (cases ys) (simp_all add: enc_list_def)
  with Cons.prems(2) have eq: "f x @ (enc_list f xs @ s) = f y @ (enc_list f ys' @ t)" by (simp add: enc_list_def)
  from Cons.prems(1) have tail: "\<forall>z \<in> set xs. \<forall>y s t. f z @ s = f y @ t \<longrightarrow> z = y \<and> s = t"
    and "f x @ s' = f y @ t' \<Longrightarrow> x = y \<and> s' = t'" for s' t' unfolding list.set ball_simps(7) by blast+
  from this(2) [OF eq] have "x = y" and rest: "enc_list f xs @ s = enc_list f ys' @ t" by blast+
  with Cons.IH [OF tail rest] ys show ?case by blast
qed

lemma enc_list_chars: "\<forall>x \<in> set xs. set (f x) \<subseteq> code_chars \<Longrightarrow> set (enc_list f xs) \<subseteq> code_chars"
  by (auto simp: enc_list_def)

lemma prefix_codeI:
  assumes "\<And>x. f x \<noteq> []" and "\<And>x. set (f x) \<subseteq> code_chars" and "\<And>x y s t. f x @ s = f y @ t \<Longrightarrow> x = y \<and> s = t"
  shows "prefix_code f"
  unfolding prefix_code_def using assms by blast

lemma prefix_code_list:
  assumes "prefix_code f" shows "prefix_code (enc_list f)"
proof (rule prefix_codeI)
  fix xs ys s t
  show "enc_list f xs \<noteq> []" by (simp add: enc_list_def)
  show "set (enc_list f xs) \<subseteq> code_chars" by (rule enc_list_chars) (use prefix_code_chars [OF assms] in blast)
  show "xs = ys \<and> s = t" if "enc_list f xs @ s = enc_list f ys @ t"
    by (rule enc_list_prefix [OF _ that]) (use prefix_codeD [OF assms] in blast)
qed

lemma prefix_code_pair:
  assumes "prefix_code f" and "prefix_code g" shows "prefix_code (enc_pair f g)"
proof (rule prefix_codeI)
  fix p q s t
  show "enc_pair f g p \<noteq> []" using assms(1) by (simp add: enc_pair_def prefix_code_def)
  show "set (enc_pair f g p) \<subseteq> code_chars" using assms by (simp add: enc_pair_def prefix_code_chars)
  show "p = q \<and> s = t" if "enc_pair f g p @ s = enc_pair f g q @ t"
  proof -
    from that have "f (fst p) @ (g (snd p) @ s) = f (fst q) @ (g (snd q) @ t)" by (simp add: enc_pair_def)
    from prefix_codeD [OF assms(1) this] have "fst p = fst q" "g (snd p) @ s = g (snd q) @ t" by blast+
    with prefix_codeD [OF assms(2) this(2)] show ?thesis by (simp add: prod_eq_iff)
  qed
qed

lemma prefix_code_option:
  assumes "prefix_code f" shows "prefix_code (enc_option f)"
proof (rule prefix_codeI)
  fix x y s t
  show "enc_option f x \<noteq> []" by (simp add: enc_option_def split: option.split)
  show "set (enc_option f x) \<subseteq> code_chars" using prefix_code_chars [OF assms] by (simp add: enc_option_def split: option.split)
  show "x = y \<and> s = t" if "enc_option f x @ s = enc_option f y @ t"
    using that by (cases x; cases y) (auto simp: enc_option_def dest: prefix_codeD [OF assms])
qed

lemma prefix_code_string: "prefix_code enc_string"
  unfolding enc_string_def by (intro prefix_code_list prefix_code_char)

lemma prefix_code_word: "prefix_code (enc_word :: 'a::len word \<Rightarrow> string)"
proof -
  have "inj (\<lambda>w :: 'a word. nat_to_hex (unat w))"
    by (rule injI) (metis hex_value_nat_to_hex option.inject unsigned_word_eqI)
  from prefix_code_comp [OF prefix_code_string this] show ?thesis by (simp add: enc_word_def [abs_def])
qed

section \<open>JSON values\<close>

definition enc_nat :: "nat \<Rightarrow> string" where
  "enc_nat n = enc_string (nat_to_hex n)"

fun enc_number :: "json_number \<Rightarrow> string" where
  "enc_number (PosInt w) = CHR ''p'' # enc_word w"
| "enc_number (NegInt i) = (if i < 0 then CHR ''m'' # enc_nat (nat (- i)) else CHR ''i'' # enc_nat (nat i))"
| "enc_number (Float s) = CHR ''f'' # enc_string s"

fun enc_json :: "json \<Rightarrow> string" where
  "enc_json JNull = ''z''"
| "enc_json (JBool b) = (if b then ''t'' else ''u'')"
| "enc_json (JNumber n) = CHR ''d'' # enc_number n"
| "enc_json (JString s) = CHR ''s'' # enc_string s"
| "enc_json (JArray xs) = CHR ''a'' # concat (map (\<lambda>x. CHR ''1'' # enc_json x) xs) @ ''0''"
| "enc_json (JObject kvs) = CHR ''o'' # concat (map (\<lambda>(k, v). CHR ''1'' # enc_string k @ enc_json v) kvs) @ ''0''"

lemma prefix_code_nat: "prefix_code enc_nat"
proof -
  have "inj nat_to_hex" by (rule injI) (metis hex_value_nat_to_hex option.inject)
  from prefix_code_comp [OF prefix_code_string this] show ?thesis by (simp add: enc_nat_def [abs_def])
qed

lemmas code_D = prefix_codeD [OF prefix_code_nat] prefix_codeD [OF prefix_code_string] prefix_codeD [OF prefix_code_word]

lemma code_letters [simp]: "CHR ''p'' \<in> code_chars" "CHR ''m'' \<in> code_chars" "CHR ''i'' \<in> code_chars" "CHR ''f'' \<in> code_chars"
    "CHR ''z'' \<in> code_chars" "CHR ''t'' \<in> code_chars" "CHR ''u'' \<in> code_chars" "CHR ''d'' \<in> code_chars" "CHR ''a'' \<in> code_chars"
    "CHR ''o'' \<in> code_chars"
  by (simp_all add: code_chars_def)

lemma prefix_code_number: "prefix_code enc_number"
proof (rule prefix_codeI)
  fix x y s t
  show "enc_number x \<noteq> []" by (cases x) auto
  show "set (enc_number x) \<subseteq> code_chars"
    using prefix_code_chars [OF prefix_code_nat] prefix_code_chars [OF prefix_code_string] prefix_code_chars [OF prefix_code_word [where 'a = 64]]
    by (cases x) auto
  show "x = y \<and> s = t" if "enc_number x @ s = enc_number y @ t"
    using that by (cases x; cases y) (auto split: if_split_asm dest!: code_D)
qed

lemma enc_json_array: "enc_json (JArray xs) = CHR ''a'' # enc_list enc_json xs"
  and enc_json_object: "enc_json (JObject kvs) = CHR ''o'' # enc_list (enc_pair enc_string enc_json) kvs"
  by (simp_all add: enc_list_def enc_pair_def case_prod_unfold)

lemma prefix_code_json: "prefix_code enc_json"
proof (rule prefix_codeI)
  fix x y s t
  show "enc_json x \<noteq> []" by (cases x) auto
  show "set (enc_json x) \<subseteq> code_chars"
  proof (induction x)
    case (JObject kvs)
    then have "\<forall>kv \<in> set kvs. set (enc_pair enc_string enc_json kv) \<subseteq> code_chars"
      using prefix_code_chars [OF prefix_code_string] by (auto simp: enc_pair_def) (metis snd_conv snds.intros subsetD)
    from enc_list_chars [OF this] show ?case unfolding enc_json_object by simp
  next
    case (JArray xs)
    then show ?case unfolding enc_json_array using enc_list_chars [of xs enc_json] by simp
  qed (use prefix_code_chars [OF prefix_code_string] prefix_code_chars [OF prefix_code_number] in auto)
  show "x = y \<and> s = t" if "enc_json x @ s = enc_json y @ t"
    using that
  proof (induction x arbitrary: y s t)
    case (JArray xs)
    from JArray.prems obtain ys where y: "y = JArray ys" by (cases y) (auto split: if_split_asm)
    then have "enc_list enc_json xs @ s = enc_list enc_json ys @ t" using JArray.prems unfolding y enc_json_array by simp
    with JArray.IH y enc_list_prefix [of xs enc_json s ys t] show ?case by blast
  next
    case (JObject kvs)
    from JObject.prems obtain ys where y: "y = JObject ys" by (cases y) (auto split: if_split_asm)
    then have eq: "enc_list (enc_pair enc_string enc_json) kvs @ s = enc_list (enc_pair enc_string enc_json) ys @ t"
      using JObject.prems unfolding y enc_json_object by simp
    have "kv = p \<and> s' = t'" if "kv \<in> set kvs" "enc_pair enc_string enc_json kv @ s' = enc_pair enc_string enc_json p @ t'" for kv p s' t'
    proof -
      from that(2) have "enc_string (fst kv) @ (enc_json (snd kv) @ s') = enc_string (fst p) @ (enc_json (snd p) @ t')"
        by (simp add: enc_pair_def)
      from code_D(2) [OF this] have "fst kv = fst p" and snd: "enc_json (snd kv) @ s' = enc_json (snd p) @ t'" by blast+
      moreover have "snd kv \<in> Basic_BNFs.snds kv" by (cases kv) (simp add: snds.simps)
      ultimately show ?thesis using JObject.IH [OF that(1) _ snd] by (simp add: prod_eq_iff)
    qed
    then show ?case using enc_list_prefix [OF _ eq] y by blast
  next
    case (JNumber n)
    then show ?case by (cases y) (auto split: if_split_asm dest: prefix_codeD [OF prefix_code_number])
  next
    case (JString str)
    then show ?case by (cases y) (auto split: if_split_asm dest: code_D)
  next
    case JNull
    then show ?case by (cases y) (auto split: if_split_asm)
  next
    case (JBool b)
    then show ?case by (cases y) (auto split: if_split_asm)
  qed
qed

section \<open>Stored records\<close>

definition enc_authorization :: "share_work_authorization \<Rightarrow> string" where
  "enc_authorization a = enc_pair enc_string (enc_pair enc_json (enc_pair enc_string (enc_pair enc_string (enc_option enc_string))))
     (wa_schema a, wa_payload a, wa_pk a, wa_signature a, wa_network_id a)"

definition enc_evidence :: "selected_share_evidence \<Rightarrow> string" where
  "enc_evidence e = enc_pair (enc_list enc_string) (enc_option enc_authorization)
     ([ev_pk e, ev_n e, ev_j e, ev_c e, ev_canon_hash e, ev_proof_package e, ev_seed_hex e], ev_signed_work e)"

definition enc_promoted :: "promoted_bounty_share \<Rightarrow> string" where
  "enc_promoted s = enc_list enc_string [pb_family_id s, pb_bounty_id s, pb_proof_hash s, pb_prover s, pb_reward s]"

definition enc_block :: "persisted_block \<Rightarrow> string" where
  "enc_block b =
     enc_pair (enc_list enc_word) (enc_pair (enc_list enc_string) (enc_pair (enc_list (enc_list enc_string))
       (enc_pair (enc_list enc_evidence) (enc_list enc_promoted))))
     ([bl_height b, bl_min_share_score_multiplier_nanos b, bl_kmax_applied b, bl_difficulty_epoch b, bl_dropped_below_min_score b,
       bl_dropped_kernel_reject b, bl_truncated_by_kmax b, bl_ts b],
      [bl_prev_c b, bl_c b, bl_proposer_pk b, bl_proposer_reward_pk b, bl_min_share_score b, bl_t_block b, bl_t_share b,
       bl_difficulty_weight b],
      [bl_selected_share_hashes b, bl_selected_share_pks b, bl_selected_share_reward_pks b],
      bl_selected_share_evidence b, bl_promoted_bounty_shares b)"

definition enc_credit :: "persisted_credit \<Rightarrow> string" where
  "enc_credit c = enc_pair enc_string enc_string (pr_pk c, pr_amount c)"

definition enc_event :: "persisted_reward_event \<Rightarrow> string" where
  "enc_event e = enc_pair enc_word (enc_pair enc_string (enc_list enc_credit)) (re_height e, re_c e, re_credits e)"

lemmas prefix_codes = prefix_code_pair prefix_code_list prefix_code_option prefix_code_string prefix_code_word prefix_code_json

lemma prefix_code_authorization: "prefix_code enc_authorization"
  unfolding enc_authorization_def by (rule prefix_code_comp) (intro prefix_codes, auto intro!: injI)

lemma prefix_code_evidence: "prefix_code enc_evidence"
  unfolding enc_evidence_def by (rule prefix_code_comp) (intro prefix_codes prefix_code_authorization, auto intro!: injI)

lemma prefix_code_promoted: "prefix_code enc_promoted"
  unfolding enc_promoted_def by (rule prefix_code_comp) (intro prefix_codes, auto intro!: injI)

lemma prefix_code_block: "prefix_code enc_block"
  unfolding enc_block_def
  by (rule prefix_code_comp) (intro prefix_codes prefix_code_evidence prefix_code_promoted, auto intro!: injI)

lemma prefix_code_credit: "prefix_code enc_credit"
  unfolding enc_credit_def by (rule prefix_code_comp) (intro prefix_codes, auto intro!: injI)

lemma prefix_code_event: "prefix_code enc_event"
  unfolding enc_event_def by (rule prefix_code_comp) (intro prefix_codes prefix_code_credit, auto intro!: injI)

text \<open>Reading inverts writing.\<close>

definition read_back :: "('a \<Rightarrow> string) \<Rightarrow> string \<Rightarrow> string + 'a" where
  "read_back f s = (if s \<in> range f then Ok (inv f s) else Err ''not a record'')"

definition ref_codec :: store_codec where
  "ref_codec = \<lparr>sc_block_to_string = enc_block, sc_block_from_str = read_back enc_block,
     sc_event_to_string = enc_event, sc_event_from_str = read_back enc_event,
     sc_value_to_string = enc_json, sc_value_from_str = read_back enc_json\<rparr>"

lemma prefix_code_line: "prefix_code f \<Longrightarrow> line_ok (f x)"
proof -
  assume "prefix_code f"
  then have chars: "f x \<noteq> []" "set (f x) \<subseteq> code_chars" by (simp_all add: prefix_code_def)
  have "\<forall>ch \<in> set (f x). (of_char ch :: nat) < 128" using chars(2) by (auto simp: code_chars_def)
  then have "utf8_valid (f x)" by (rule utf8_valid_ascii)
  moreover have "newline \<notin> set (f x)" using chars(2) by (auto simp: code_chars_def)
  moreover have "last (f x) \<in> code_chars" using chars last_in_set by blast
  then have "last (f x) \<noteq> carriage_return" by (auto simp: code_chars_def)
  ultimately show ?thesis using chars(1) by (simp add: line_ok_def)
qed

lemma prefix_code_read: "prefix_code f \<Longrightarrow> read_back f (f x) = Inr x"
proof -
  assume f: "prefix_code f"
  have "inj f" by (rule injI) (use prefix_codeD [OF f, of _ "[]" _ "[]"] in auto)
  then show ?thesis by (simp add: read_back_def)
qed

lemma codec_laws_ref_codec: "codec_laws ref_codec"
  by (simp add: codec_laws_def ref_codec_def prefix_code_line prefix_code_read prefix_code_block prefix_code_event)

end
