(* ===== verification/Production_Theorems.thy ===== *)
theory Production_Theorems
  imports Production Replay_Rules Production_Examples
begin

text \<open>
  A runtime that booted under the genesis of its own configuration never rejects a block it produced from
  admitted shares, except for its timestamp.
\<close>

lemma sinks_assembled:
  fixes h ts :: u64
  defines "b E c cfg sel p \<equiv> assemble_block E h c ts cfg sel p"
  assumes E: "production_laws E" and sel: "\<forall>s \<in> set (bb_selected sel). share_ok E s" "p \<in> set (bb_selected sel)"
  shows "\<forall>pk \<in> set (proposer_reward_sink (b E c cfg sel p) # share_reward_sinks (b E c cfg sel p)). is_ok (hex32_from_hex E pk)"
    and "length (share_reward_sinks (b E c cfg sel p)) = length (bb_selected sel)"
proof -
  have ne: "bb_selected sel \<noteq> []" using sel(2) by auto
  have sinks: "share_reward_sinks (b E c cfg sel p) =
      (if list_ex (\<lambda>s. cs_reward_pk s \<noteq> []) (bb_selected sel) then map reward_sink (bb_selected sel) else map cs_pk (bb_selected sel))"
    using ne by (simp add: b_def share_reward_sinks_def)
  have "proposer_reward_sink (b E c cfg sel p) = reward_sink p" by (simp add: b_def proposer_reward_sink_def reward_sink_def)
  with sinks sel share_ok_shape [OF E]
  show "\<forall>pk \<in> set (proposer_reward_sink (b E c cfg sel p) # share_reward_sinks (b E c cfg sel p)). is_ok (hex32_from_hex E pk)"
    by auto
  show "length (share_reward_sinks (b E c cfg sel p)) = length (bb_selected sel)" by (simp add: sinks)
qed

lemma produced_step_ok:
  assumes E: "production_laws E" and cfg: "block_builder_config_for_height E rt (rt_block_cache rt) = Inr cfg"
    and cand: "\<forall>s \<in> set (rt_candidates rt). share_ok E s"
    and prod: "produce_block_for_current_c_with_config E rt (of_nat (length (rt_block_cache rt))) ts tags cfg [] = Inr b"
    and run: "replay_run E Strict gp (rt_authorization_network_id rt) reg g (rt_block_cache rt) = Inr st"
    and head: "rt_current_c rt = Some (rs_latest_c st)" "is_ok (hex32_from_hex E (rs_latest_c st))"
    and params: "check_genesis_params gp b = Inr ()"
    and kmax: "cp_k_max (rc_policy (rt_config rt)) + 1 < 2 ^ 64"
    and room: "\<forall>pk. bal (rs_balances st) pk + cp_k_max (rc_policy (rt_config rt)) + 1 < 2 ^ 128"
  shows "\<exists>st'. replay_step E Strict gp (rt_authorization_network_id rt) reg st (length (rt_block_cache rt), b) = Inr st'"
    and "check_block_applicable E rt b = Inr ()"
proof -
  let ?net = "rt_authorization_network_id rt" and ?k = "cp_k_max (rc_policy (rt_config rt))"
  from prod obtain sel where built: "build_block_selection_for_network E (rs_latest_c st) (candidate_shares_for_current_c rt) cfg tags
       (credited_canon_hashes rt) [] ?net = Inr (SelectionOk sel)"
    and idx: "bb_proposer_index sel < length (bb_selected sel)"
    and b: "b = assemble_block E (of_nat (length (rt_block_cache rt))) (rs_latest_c st) ts cfg sel (bb_selected sel ! bb_proposer_index sel)"
    by (rule produce_Inr) (use head(1) in auto)
  note cfgok = config_for_height_ok [OF E cfg]
  note sel = build_SelectionOk [OF built]
  note facts = chosen_facts [of E "rs_latest_c st" cfg tags "credited_canon_hashes rt" ?net "candidate_shares_for_current_c rt", folded sel(1)]
  have shares: "\<forall>s \<in> set (candidate_shares_for_current_c rt). share_ok E s"
    using cand by (auto simp: candidate_shares_for_current_c_def split: option.split_asm)
  have seld: "\<forall>s \<in> set (bb_selected sel). share_ok E s" using facts(2) shares by blast
  let ?p = "bb_selected sel ! bb_proposer_index sel"
  have p: "?p \<in> set (bb_selected sel)" using idx by simp
  have len: "length (bb_selected sel) \<le> ?k" using facts(4) cfgok by simp
  have shape: "validate_shape E b = Inr ()"
    unfolding b using E cfgok head(2) seld p len kmax sel(4) by (intro assembled_shape_ok) auto
  then show "check_block_applicable E rt b = Inr ()"
    using head(1) by (simp add: check_block_applicable_def b)
  note checks = assembled_selection_ok [OF E conjunct1 [OF cfgok] built shares, of "of_nat (length (rt_block_cache rt))" ts, folded b]
  have ok: "replay_ok_state reg g (rt_block_cache rt) st" by (rule replay_run_ok_state [OF run])
  have hashes: "map ev_canon_hash (bl_selected_share_evidence b) = map cs_canon_hash (bb_selected sel)"
    by (simp add: b share_evidence_def)
  have all_ne: "filter (\<lambda>h. h \<noteq> []) (map cs_canon_hash (bb_selected sel)) = map cs_canon_hash (bb_selected sel)"
    using seld share_ok_shape(4) [OF E] by (auto simp: filter_id_conv)
  have fresh: "insert_fresh ReplayProofCredited (rs_credited_canon_hashes st) (map ev_canon_hash (bl_selected_share_evidence b)) =
      Inr (rs_credited_canon_hashes st \<union> set (map ev_canon_hash (bl_selected_share_evidence b)))"
  proof -
    have "set (map cs_canon_hash (bb_selected sel)) \<inter> rs_credited_canon_hashes st = {}"
      using facts(2) seld share_ok_shape(4) [OF E] ok
      by (fastforce simp: screened_def replay_ok_state_def credited_canon_hashes_eq)
    then show ?thesis using facts(3) all_ne by (simp add: insert_fresh_Inr hashes)
  qed
  note sinks = sinks_assembled [OF E seld p, of "of_nat (length (rt_block_cache rt))" "rs_latest_c st" ts cfg, folded b]
  have "share_reward_sinks b \<noteq> []" using sinks(2) idx by auto
  moreover have "length (share_reward_sinks b) + 1 < 2 ^ 128" using sinks(2) len kmax by simp
  ultimately obtain credits where credits: "compute_block_credits_for_reward_pks E (proposer_reward_sink b) (share_reward_sinks b) = Inr credits"
    using compute_credits_ok [OF _ sinks(1)] by auto
  have "paid_to pk credits \<le> ?k + 1" for pk
    using compute_credits_Inr(1) [OF credits, of pk] count_le_length [of "share_reward_sinks b" pk] sinks(2) len by auto
  then have "\<forall>pk. bal (rs_balances st) pk + paid_to pk credits < 2 ^ 128"
    using room by (metis (no_types, lifting) add.assoc add_le_cancel_left order.strict_trans1)
  then obtain bals where bals: "credit_base (rs_balances st) credits = Inr bals"
    using credit_base_ok [of "rs_balances st" credits] compute_credits_Inr(2) [OF credits] ok
    by (auto simp: replay_ok_state_def)
  have settle: "derive_bounty_settlement (bl_promoted_bounty_shares b) reg (bl_height b) = Inr []"
    using sel(4) by (simp add: b derive_bounty_settlement_def)
  have none: "bl_promoted_bounty_shares b = []" "bl_height b = of_nat (length (rt_block_cache rt))" "bl_prev_c b = rs_latest_c st"
    using sel(4) by (simp_all add: b)
  have hash: "bl_c b = hex32_to_hex E (block_hash E b)" unfolding b by (rule assemble_block_hash)
  show "\<exists>st'. replay_step E Strict gp ?net reg st (length (rt_block_cache rt), b) = Inr st'"
    unfolding replay_step_def prod.case
    using shape checks params fresh credits bals settle none hash
    by (simp add: compute_block_reward_credits_def insert_fresh_def credit_bounty_def)
qed

section \<open>Difficulty of the produced block\<close>

lemma validate_fold_blocks:
  "try_fold (validate_retarget_step E t0 policy) acc blocks = Inr r \<Longrightarrow> r = acc @ blocks"
proof (induction blocks arbitrary: acc)
  case (Cons b blocks)
  then obtain acc' where "validate_retarget_step E t0 policy acc b = Inr acc'"
    "try_fold (validate_retarget_step E t0 policy) acc' blocks = Inr r" by (auto split: sum.split_asm)
  moreover from this(1) have "acc' = acc @ [b]" by (auto simp: validate_retarget_step_def rbind_eq_Inr split: if_split_asm)
  ultimately show ?case using Cons.IH [of "acc @ [b]"] by simp
qed simp

lemma expected_evidence_weight:
  assumes "biguint_laws E" and "expected_retarget_difficulty_for_height E blocks t0 policy = Inr d"
  shows "\<exists>t w. parse_biguint_hex E (de_t_block d) = Some t \<and> difficulty_weight t = Inr w \<and> de_difficulty_weight d = ext_biguint_to_string E w"
proof -
  have "\<exists>t w. parse_biguint_hex E (de_t_block d) = Some t \<and> difficulty_weight t = Inr w \<and> de_difficulty_weight d = ext_biguint_to_string E w"
    if "find_difficulty_evidence E x e m = Inr d" for x e m
    using that assms(1) by (auto simp: find_difficulty_evidence_def result_simps parse_biguint_hex_def strip_0x_def biguint_laws_def)
  with assms(2) show ?thesis
    unfolding expected_retarget_difficulty_for_height_def by (auto simp: rbind_eq_Inr Let_def split: if_split_asm)
qed

text \<open>Replay's difficulty rule on the chain extended by a block built with the configuration for its height.\<close>

lemma produced_difficulty_ok:
  assumes E: "production_laws E" and cfg: "block_builder_config_for_height E rt (rt_block_cache rt) = Inr cfg"
    and b: "bl_t_block b = bc_t_block cfg" "bl_difficulty_epoch b = bc_difficulty_epoch cfg"
      "bl_difficulty_weight b = bc_difficulty_weight cfg"
  shows "rc_difficulty_retarget (rt_config rt) = Some policy \<Longrightarrow>
      validate_retargeted_difficulty E (rt_block_cache rt) (static_t_block E rt) policy = Inr () \<Longrightarrow>
      validate_retargeted_difficulty E (rt_block_cache rt @ [b]) (static_t_block E rt) policy = Inr ()"
    and "rc_difficulty_retarget (rt_config rt) = None \<Longrightarrow>
      validate_static_difficulty E (rt_block_cache rt) (static_t_block E rt) = Inr () \<Longrightarrow>
      validate_static_difficulty E (rt_block_cache rt @ [b]) (static_t_block E rt) = Inr ()"
proof -
  have laws: "biguint_laws E" using E by (simp add: production_laws_def)
  show "validate_retargeted_difficulty E (rt_block_cache rt @ [b]) (static_t_block E rt) policy = Inr ()"
    if ret: "rc_difficulty_retarget (rt_config rt) = Some policy"
      and ok: "validate_retargeted_difficulty E (rt_block_cache rt) (static_t_block E rt) policy = Inr ()"
  proof -
    from ok have fold: "try_fold (validate_retarget_step E (static_t_block E rt) policy) [] (rt_block_cache rt) = Inr (rt_block_cache rt)"
      using validate_fold_blocks by (fastforce simp: validate_retargeted_difficulty_def rbind_eq_Inr)
    from cfg ret obtain d where d: "expected_retarget_difficulty_for_height E (rt_block_cache rt) (static_t_block E rt) policy = Inr d"
      and c: "from_policy_with_t_block E (rc_policy (rt_config rt)) (de_t_block d) (de_difficulty_epoch d) = Inr cfg"
      by (auto simp: block_builder_config_for_height_def result_simps)
    from expected_evidence_weight [OF laws d] c have "bc_t_block cfg = de_t_block d" "bc_difficulty_epoch cfg = de_difficulty_epoch d"
      "bc_difficulty_weight cfg = de_difficulty_weight d"
      by (auto simp: from_policy_with_t_block_def result_simps)
    with d b show ?thesis
      by (simp add: validate_retargeted_difficulty_def try_fold_snoc fold validate_retarget_step_def)
  qed
  show "validate_static_difficulty E (rt_block_cache rt @ [b]) (static_t_block E rt) = Inr ()"
    if "rc_difficulty_retarget (rt_config rt) = None"
      and ok: "validate_static_difficulty E (rt_block_cache rt) (static_t_block E rt) = Inr ()"
  proof -
    have "bl_t_block b = static_t_block E rt"
      using cfg that(1) b(1) by (auto simp: block_builder_config_for_height_def from_policy_def from_policy_with_t_block_def static_t_block_def result_simps)
    with ok parse_fmt_0x064 [OF laws] show ?thesis
      by (simp add: validate_static_difficulty_def static_t_block_def try_for_each_eq_Inr)
  qed
qed

lemma static_t_share_ok:
  assumes E: "production_laws E" and cfg: "block_builder_config_for_height E rt blocks = Inr cfg" and "bl_t_share b = bc_t_share cfg"
    and "validate_static_t_share E blocks' (fmt_0x064 E (ct_t_share (cp_thresholds (rc_policy (rt_config rt))))) = Inr ()"
  shows "validate_static_t_share E (blocks' @ [b]) (fmt_0x064 E (ct_t_share (cp_thresholds (rc_policy (rt_config rt))))) = Inr ()"
proof -
  have "bc_t_share cfg = fmt_0x064 E (ct_t_share (cp_thresholds (rc_policy (rt_config rt))))"
    using cfg by (auto simp: block_builder_config_for_height_def from_policy_def from_policy_with_t_block_def result_simps
        split: option.split_asm)
  with assms parse_fmt_0x064 [of E] show ?thesis
    by (simp add: validate_static_t_share_def try_for_each_eq_Inr production_laws_def)
qed

section \<open>Produced blocks replay\<close>

lemma run_head_hex:
  assumes "production_laws E" and "replay_run E pol gp net reg g blocks = Inr st" and "is_ok (hex32_from_hex E g)"
  shows "is_ok (hex32_from_hex E (rs_latest_c st))"
  using assms(2)
proof (cases blocks rule: rev_cases)
  case Nil
  with assms(2,3) show ?thesis by (auto simp: replay_start_def)
next
  case (snoc bs b)
  with assms(2) obtain st0 where "replay_step E pol gp net reg st0 (length bs, b) = Inr st"
    by (auto simp: replay_run_snoc rbind_eq_Inr)
  then have "rs_latest_c st = hex32_to_hex E (block_hash E b)" by (rule replay_step_Inr) simp
  then show ?thesis by (simp add: block_hash_def blake3_hex [OF assms(1)])
qed

text \<open>The parameters of the genesis that a configuration declares.\<close>

lemma config_genesis_fields:
  "gp_t_block (gs_params (config_genesis_spec E (rt_config rt) network g)) = static_t_block E rt"
  "gp_retarget (gs_params (config_genesis_spec E (rt_config rt) network g)) = rc_difficulty_retarget (rt_config rt)"
  "gp_t_share (gs_params (config_genesis_spec E (rt_config rt) network g)) = fmt_0x064 E (ct_t_share (cp_thresholds (rc_policy (rt_config rt))))"
  "gi_genesis_c (gs_initial_state (config_genesis_spec E (rt_config rt) network g)) = g"
  "gp_k_max (gs_params (config_genesis_spec E (rt_config rt) network g)) = of_nat (cp_k_max (rc_policy (rt_config rt)))"
  by (simp_all add: config_genesis_spec_def static_t_block_def Let_def split: option.split prod.split)

lemma produced_difficulty_rule:
  assumes E: "production_laws E" and cfg: "block_builder_config_for_height E rt (rt_block_cache rt) = Inr cfg"
    and b: "bl_t_block b = bc_t_block cfg" "bl_difficulty_epoch b = bc_difficulty_epoch cfg"
      "bl_difficulty_weight b = bc_difficulty_weight cfg" "bl_t_share b = bc_t_share cfg"
    and ok: "difficulty_rule E (config_genesis_spec E (rt_config rt) network g) (rt_block_cache rt)"
  shows "difficulty_rule E (config_genesis_spec E (rt_config rt) network g) (rt_block_cache rt @ [b])"
  using ok produced_difficulty_ok [OF E cfg b(1-3)] static_t_share_ok [OF E cfg b(4)]
  unfolding difficulty_rule_def config_genesis_fields by (simp split: option.split_asm option.split)

lemma produced_params_ok:
  assumes "length (bb_selected sel) \<le> n" and "n + 1 < 2 ^ 64" and "gp_k_max gp = of_nat n"
    and "gp_seed_binding_required gp \<longrightarrow> (\<forall>s \<in> set (bb_selected sel). cs_seed_hex s \<noteq> [])"
  shows "check_genesis_params (Some gp) (assemble_block E h c ts cfg sel p) = Inr ()"
proof -
  have "\<not> (of_nat (length (bb_selected sel)) :: u64) > of_nat n"
    using assms(1,2) by (simp add: word_less_nat_alt unat_of_nat)
  then show ?thesis
    using assms(3,4) nth_mem by (auto simp: check_genesis_params_def share_evidence_def result_simps in_set_enumerate_eq)
qed

lemma produced_accepted:
  fixes rt :: runtime_state
  defines "chain \<equiv> rt_block_cache rt" and "spec network g E \<equiv> config_genesis_spec E (rt_config rt) network g"
  assumes E: "production_laws E" and cand: "\<forall>s \<in> set (rt_candidates rt). share_ok E s"
    and kmax: "cp_k_max (rc_policy (rt_config rt)) + 1 < 2 ^ 64"
    and boot: "rt_boot_genesis rt = Some (spec network g E)" "is_ok (hex32_from_hex E g)"
      "replay_under_boot_contract E rt chain = Ok r" "rt_current_c rt = Some (rr_latest_c r)"
    and produced: "produce_block_for_current_c E rt (of_nat (length chain)) ts tags = Ok b"
    and ts: "verify_block_ts_median_time_past (chain @ [b]) = Ok ()"
    and seeds: "gp_seed_binding_required (gs_params (spec network g E)) \<longrightarrow> (\<forall>s \<in> set (rt_candidates rt). cs_seed_hex s \<noteq> [])"
    and room: "\<forall>pk. bal (rr_balances r) pk + cp_k_max (rc_policy (rt_config rt)) + 1 < 2 ^ 128"
  shows "check_block_applicable E rt b = Ok () \<and> self_replay E rt b = Ok () \<and> is_ok (replay_under_boot_contract E rt (chain @ [b]))"
proof -
  let ?net = "rt_authorization_network_id rt" and ?reg = "rt_family_registry rt" and ?spec = "spec network g E"
  note fields = config_genesis_fields [of E rt network g, folded spec_def]
  have contract: "replay_under_boot_contract E rt blocks =
      replay_blocks_with_genesis_and_registry_for_authorization_network E blocks ?spec ?reg ?net" for blocks
    by (simp add: replay_under_boot_contract_def boot(1))
  from boot(3) obtain st where rules: "scope_rule ?spec ?net" "difficulty_rule E ?spec chain"
    and run: "replay_run E Strict (Some (gs_params ?spec)) ?net ?reg g chain = Inr st" and r: "r = result_of (length chain) st"
    unfolding contract genesis_replay_eq by (auto simp: genesis_run_def fields)
  from produced obtain cfg where cfg: "block_builder_config_for_height E rt chain = Inr cfg"
    and prod: "produce_block_for_current_c_with_config E rt (of_nat (length chain)) ts tags cfg [] = Inr b"
    by (auto simp: produce_block_for_current_c_def rbind_eq_Inr chain_def)
  from prod obtain c sel where built: "build_block_selection_for_network E c (candidate_shares_for_current_c rt) cfg tags
       (credited_canon_hashes rt) [] ?net = Inr (SelectionOk sel)"
    and b: "b = assemble_block E (of_nat (length chain)) c ts cfg sel (bb_selected sel ! bb_proposer_index sel)"
    by (rule produce_Inr)
  note facts = chosen_facts [of E c cfg tags "credited_canon_hashes rt" ?net "candidate_shares_for_current_c rt",
      folded build_SelectionOk(1) [OF built]]
  have "length (bb_selected sel) \<le> cp_k_max (rc_policy (rt_config rt))" using facts(4) config_for_height_ok [OF E cfg] by simp
  moreover have "gp_seed_binding_required (gs_params ?spec) \<longrightarrow> (\<forall>s \<in> set (bb_selected sel). cs_seed_hex s \<noteq> [])"
    using seeds facts(2) by (auto simp: candidate_shares_for_current_c_def split: option.split_asm)
  ultimately have params: "check_genesis_params (Some (gs_params ?spec)) b = Inr ()"
    unfolding b using kmax fields(5) by (intro produced_params_ok) auto
  have head: "rt_current_c rt = Some (rs_latest_c st)"
    and space: "\<forall>pk. bal (rs_balances st) pk + cp_k_max (rc_policy (rt_config rt)) + 1 < 2 ^ 128"
    using boot(4) room by (simp_all add: r result_of_def)
  note step = produced_step_ok [where rt = rt, OF E, folded chain_def, OF cfg cand prod run head run_head_hex [OF E run boot(2)] params kmax space]
  then have "\<exists>st'. genesis_run E ?spec ?reg ?net (chain @ [b]) = Inr st'" by (auto simp: genesis_run_def fields(4) replay_run_snoc run)
  moreover have "difficulty_rule E ?spec (chain @ [b])"
    unfolding chain_def spec_def using E cfg rules(2) by (intro produced_difficulty_rule) (simp_all add: b chain_def spec_def)
  ultimately have ok: "is_ok (replay_under_boot_contract E rt (chain @ [b]))"
    using rules(1) ts unfolding contract is_ok_iff genesis_replay_eq by blast
  then have "self_replay E rt b = Ok ()" by (auto simp: self_replay_def boot(1) contract is_ok_iff chain_def)
  with ok step(2) show ?thesis by blast
qed



end
