(* ===== verification/Replay_Theorems.thy ===== *)
theory Replay_Theorems
  imports Production_Theorems
begin

text \<open>
  What an accepted chain guarantees: links, proofs credited once, exact balances, and that each of its prefixes
  is accepted too.
\<close>

section \<open>The example chain\<close>

lemma ex_first_replays: "\<exists>r. replay_under_boot_contract ref_ext ex_runtime1 [ex_first_block] = Inr r"
proof -
  have policy: "cp_k_max (rc_policy ex_config) = 4"
    "rt_block_cache ex_runtime1 = []" "rt_boot_genesis ex_runtime1 = Some ex_genesis" "rt_current_c ex_runtime1 = Some zeros64"
    "rt_config ex_runtime1 = ex_config"
    by (simp_all add: ex_runtime1_def ex_runtime0_fields ex_config_def ex_policy_def)
  have "admission_inv ref_ext ex_runtime0 (ex_runtime1, [])"
    using admission_run_inv [of ref_ext ex_ops ex_runtime0 "(ex_runtime0, [])"] ex_limits_within ex_admission_run
    by (simp add: admission_inv_def ex_runtime0_fields ex_config_def ex_ops_def)
  then have "\<forall>s \<in> set (rt_candidates ex_runtime1). share_ok ref_ext s" by (auto simp: admission_inv_def)
  moreover have "replay_under_boot_contract ref_ext ex_runtime1 [] = replay_under_boot_contract ref_ext ex_runtime0 []"
    by (simp add: replay_under_boot_contract_def ex_runtime1_def ex_runtime0_fields)
  moreover have "is_ok (hex32_from_hex ref_ext zeros64)" "verify_block_ts_median_time_past [ex_first_block] = Ok ()"
    by (simp_all add: zeros64_hex verify_block_ts_median_time_past_def)
  ultimately have "is_ok (replay_under_boot_contract ref_ext ex_runtime1 [ex_first_block])"
    using produced_accepted [where E = ref_ext and rt = ex_runtime1 and network = "''local''" and g = zeros64 and ts = 7
        and tags = "{0}" and b = ex_first_block] production_laws_ref_ext ex_boot_replay ex_produced ex_genesis_fields(6)
    by (simp add: policy ex_genesis_def)
  then show ?thesis by (auto simp: is_ok_iff)
qed

lemma ex_first_rules:
  "\<exists>r. replay_blocks_with_rules ref_ext [ex_first_block] Strict zeros64 (Some (gs_params ex_genesis)) (Some ''local'')
     (rt_family_registry ex_runtime1) = Inr r"
proof -
  have rt: "rt_boot_genesis ex_runtime1 = Some ex_genesis" "rt_authorization_network_id ex_runtime1 = Some ''local''"
    by (simp_all add: ex_runtime1_def ex_runtime0_fields)
  from ex_first_replays show ?thesis
    by (auto simp: replay_under_boot_contract_def rt genesis_replay_eq genesis_run_def rules_eq ex_genesis_fields)
qed

section \<open>Credits\<close>

text \<open>C7. Replay credits no proof twice: in a chain it accepts under the strict rules, the canonical proof hashes of
  all selected shares of all blocks are pairwise different, and so are the identities of all promoted
  bounty proofs.\<close>

theorem replay_credits_each_proof_once:
  assumes "replay_blocks_with_rules E blocks pol g gp net reg = Ok r"
  shows "distinct (concat (map (\<lambda>b. map ev_canon_hash (bl_selected_share_evidence b)) blocks)) \<and>
    distinct (concat (map (\<lambda>b. map bounty_identity (bl_promoted_bounty_shares b)) blocks))"
  using assms by (auto simp: rules_eq chain_proofs_def chain_bounties_def replay_ok_state_def dest!: replay_run_ok_state)

theorem replay_credits_each_proof_once_witness:
  "\<exists>r. replay_blocks_with_rules ref_ext [ex_first_block] Strict zeros64 (Some (gs_params ex_genesis)) (Some ''local'')
      (rt_family_registry ex_runtime1) = Ok r \<and>
     distinct (map ev_canon_hash (bl_selected_share_evidence ex_first_block))"
  using ex_first_rules replay_credits_each_proof_once by fastforce

text \<open>C6. Balances after replay are exact: a key holds one unit for each selected share that names it as reward sink, one for
  each block it proposed, and its settled bounty rewards, summed over the chain without overflow; a family's
  counter is the sum of its settled rewards. The head is the hash of the last block.\<close>

theorem replay_balances_exact:
  assumes "replay_blocks_with_rules E blocks pol g gp net reg = Ok r"
  shows "bal (rr_balances r) pk = (\<Sum>b \<leftarrow> blocks. count_list (share_reward_sinks b) pk +
        (if pk = proposer_reward_sink b then 1 else 0) + proved_by pk (block_bounty reg b)) \<and>
    bal (rr_bounty_credit_by_family r) family = (\<Sum>b \<leftarrow> blocks. credited family (block_bounty reg b)) \<and>
    rr_latest_c r = (if blocks = [] then g else bl_c (last blocks))"
  using assms by (auto simp: rules_eq result_of_def replay_ok_state_def block_pays_def [abs_def] comp_def dest!: replay_run_ok_state)

theorem replay_balances_exact_witness:
  "\<exists>r. replay_blocks_with_rules ref_ext [ex_first_block] Strict zeros64 (Some (gs_params ex_genesis)) (Some ''local'')
      (rt_family_registry ex_runtime1) = Ok r \<and> bal (rr_balances r) zeros64 = 2"
proof -
  obtain r where r: "replay_blocks_with_rules ref_ext [ex_first_block] Strict zeros64 (Some (gs_params ex_genesis)) (Some ''local'')
      (rt_family_registry ex_runtime1) = Ok r" using ex_first_rules by blast
  have "share_reward_sinks ex_first_block = [zeros64]" "proposer_reward_sink ex_first_block = zeros64"
    "bl_promoted_bounty_shares ex_first_block = []"
    by (simp_all add: ex_first_block_def ex_selection_def share_reward_sinks_def proposer_reward_sink_def ex_share_def
        admitted_candidate_def ex_submission_def reward_sink_def)
  then show ?thesis
    using replay_balances_exact [OF r, of zeros64 "[]"] r
    by (auto simp: block_bounty_def derive_bounty_settlement_def proved_by_def)
qed

section \<open>Prefixes\<close>

text \<open>Whichever contract a node boots under, the replay is one of four; each accepts the prefixes of what it accepts.\<close>

lemma contract_prefix:
  assumes "replay_under_boot_contract E rt (xs @ ys) = Inr r"
  shows "\<exists>r'. replay_under_boot_contract E rt xs = Inr r'"
proof (cases "rt_boot_genesis rt")
  case None
  have retarget: "validate_retargeted_difficulty E xs t policy = Inr ()" if "validate_retargeted_difficulty E (xs @ ys) t policy = Inr ()"
    for t policy using that by (auto simp: validate_retargeted_difficulty_def rbind_eq_Inr dest: try_fold_prefix)
  show ?thesis
    using assms None retarget
    by (auto simp: replay_under_boot_contract_def replay_blocks_with_retarget_allow_legacy_evidence_less_def
        replay_blocks_allow_legacy_evidence_less_def replay_blocks_with_evidence_policy_def rbind_unit_eq_Inr map_err_eq_Inr
        split: option.split_asm dest: rules_prefix)
next
  case (Some spec)
  with assms show ?thesis by (auto simp: replay_under_boot_contract_def dest: genesis_replay_prefix)
qed

lemma contract_balances:
  assumes "replay_under_boot_contract E rt blocks = Inr r"
  shows "bal (rr_balances r) pk = sum_list (map (block_pays (rt_family_registry rt) pk) blocks)"
proof -
  from assms obtain pol g gp net st where "replay_run E pol gp net (rt_family_registry rt) g blocks = Inr st"
    "r = result_of (length blocks) st"
    by (auto simp: replay_under_boot_contract_def genesis_replay_eq genesis_run_def rules_eq
        replay_blocks_with_retarget_allow_legacy_evidence_less_def replay_blocks_allow_legacy_evidence_less_def
        replay_blocks_with_evidence_policy_def rbind_unit_eq_Inr split: option.split_asm)
  then show ?thesis by (auto simp: result_of_def replay_ok_state_def dest!: replay_run_ok_state)
qed

text \<open>C40. Cutting blocks off the end of a chain never makes it invalid: whatever contract the node
  booted under, if replay accepts a chain it accepts each prefix, and no balance in the prefix exceeds the
  balance in the whole chain.\<close>

theorem replay_prefix_closed:
  assumes "replay_under_boot_contract E rt (xs @ ys) = Ok r"
  shows "\<exists>r'. replay_under_boot_contract E rt xs = Ok r' \<and> (\<forall>pk. bal (rr_balances r') pk \<le> bal (rr_balances r) pk)"
proof -
  obtain r' where "replay_under_boot_contract E rt xs = Inr r'" using contract_prefix [OF assms] by blast
  with contract_balances [OF this] contract_balances [OF assms] show ?thesis by auto
qed

theorem replay_prefix_closed_witness:
  "\<exists>r'. replay_under_boot_contract ref_ext ex_runtime1 [] = Ok r' \<and> bal (rr_balances r') zeros64 = 0"
proof -
  obtain r where r: "replay_under_boot_contract ref_ext ex_runtime1 ([] @ [ex_first_block]) = Ok r"
    using ex_first_replays by auto
  show ?thesis using replay_prefix_closed [OF r] contract_balances [of ref_ext ex_runtime1 "[]"] by auto
qed

end
