(* ===== verification/Node_Theorems.thy ===== *)
theory Node_Theorems
  imports Node Reference_Codec Replay_Theorems
begin

text \<open>
  Crash recovery of a node, and the safety of reorganisation.
\<close>

section \<open>Recovery\<close>

definition fresh_node :: node where
  "fresh_node = \<lparr>nd_runtime = None, nd_held = [], nd_disk = \<lparr>dk_files = (\<lambda>_. None), dk_fenced = {}, dk_outcomes = []\<rparr>\<rparr>"

lemma fresh_inv:
  assumes "codec_laws C" and "ns_block_path S \<noteq> ns_ledger_path S" and "is_ok (node_replay E S [])"
  shows "node_inv E C S fresh_node"
proof -
  have "holds_chain C (nd_disk fresh_node) (ns_block_path S) [] []" by (simp add: fresh_node_def holds_chain_def file_bytes_def)
  with assms show ?thesis unfolding node_inv_def by (auto simp: fresh_node_def)
qed

lemma mirrors_unique: "mirrors E S chain rt \<Longrightarrow> mirrors E S chain rt' \<Longrightarrow>
    rt_block_cache rt = rt_block_cache rt' \<and> rt_current_c rt = rt_current_c rt' \<and> rt_reward_ledger rt = rt_reward_ledger rt'"
  by (auto simp: mirrors_def)

lemma mirrors_balances:
  assumes "node_of S rt" and "mirrors E S chain rt"
  shows "\<exists>r. replay_under_boot_contract E rt (rt_block_cache rt) = Inr r \<and> rt_current_c rt = Some (rr_latest_c r) \<and>
    (\<forall>pk. unat (balance_for rt pk) = bal (rr_balances r) pk)"
  using assms
  by (auto simp: mirrors_def node_of_def node_replay_def replay_under_boot_contract_def balance_for_def ledger_balance_of_def bal_def)


text \<open>The example network: one share is admitted and its block committed, but the append is torn after three bytes.\<close>

definition ex_setup :: node_setup where
  "ex_setup = \<lparr>ns_config = ex_config, ns_block_path = ''blocks.ndjson'', ns_ledger_path = ''rewards.ndjson'', ns_registry = registry_new,
     ns_genesis = ex_genesis, ns_network = Some ''local''\<rparr>"

definition ex_history :: "(node_op \<times> io_outcome list) list" where
  "ex_history = (Restart, []) # map (\<lambda>p. (Admission p, [])) ex_ops @ [(CommitNext 7 {0} [], [IoTorn 3])]"


section \<open>Reorganisation\<close>

lemma choose_pair:
  assumes "choose_canonical_head E [a, b] = Inr (block_hash E (last b))" and "block_hash E (last a) \<noteq> block_hash E (last b)"
  shows "\<exists>wa wb. cumulative_difficulty_weight E a = Inr wa \<and> cumulative_difficulty_weight E b = Inr wb \<and>
    (wa < wb \<or> wa = wb \<and> block_hash E (last b) < block_hash E (last a))"
proof -
  from assms(1) obtain ka kb k where k: "chain_key E a = Some ka" "chain_key E b = Some kb"
    "best_of k (keys E [a, b])" "block_hash E (last b) = snd k" by (auto simp: choose_Inr)
  then have "keys E [a, b] = {ka, kb}" by (auto simp: keys_def)
  moreover from k(1) obtain wa where a: "cumulative_difficulty_weight E a = Inr wa" "ka = (wa, block_hash E (last a))"
    by (auto simp: chain_key_def split: if_split_asm sum.split_asm)
  moreover from k(2) obtain wb where b: "cumulative_difficulty_weight E b = Inr wb" "kb = (wb, block_hash E (last b))"
    by (auto simp: chain_key_def split: if_split_asm sum.split_asm)
  ultimately have "k = kb" "\<not> beats ka kb" using k(3,4) assms(2) by (auto simp: best_of_def)
  then show ?thesis using a b assms(2) by (auto simp: beats_def)
qed

text \<open>A candidate outweighs a chain with another head by more work, or by equal work and a lower head hash. It wins
  against a healthy runtime if its head is at most two hours ahead of the clock, it replays under the strict rules
  of the genesis, and it outweighs the chain of the runtime.\<close>

definition outweighs :: "ext \<Rightarrow> persisted_block list \<Rightarrow> persisted_block list \<Rightarrow> bool" where
  "outweighs E cand current \<longleftrightarrow> block_hash E (last cand) \<noteq> block_hash E (last current) \<and>
     (\<exists>w w'. cumulative_difficulty_weight E current = Ok w \<and> cumulative_difficulty_weight E cand = Ok w' \<and>
        (w < w' \<or> w = w' \<and> block_hash E (last cand) < block_hash E (last current)))"

definition candidate_wins :: "ext \<Rightarrow> runtime_state \<Rightarrow> persisted_block list \<Rightarrow> genesis_spec \<Rightarrow> u64 \<Rightarrow> bool" where
  "candidate_wins E rt cand genesis now \<longleftrightarrow> rt_canonical_state_failure rt = None \<and> cand \<noteq> [] \<and>
     check_block_ts_future_drift (bl_ts (last cand)) now = Ok () \<and>
     is_ok (replay_blocks_with_genesis_and_registry_for_authorization_network E cand genesis (rt_family_registry rt)
       (reorg_authorization_network rt genesis)) \<and>
     (rt_block_cache rt \<noteq> [] \<longrightarrow> outweighs E cand (rt_block_cache rt))"

lemma outweighs_chosen:
  assumes "a \<noteq> []" and "b \<noteq> []" and "outweighs E b a" shows "choose_canonical_head E [a, b] = Inr (block_hash E (last b))"
proof -
  let ?ka = "\<lambda>w. (w, block_hash E (last a))" and ?kb = "\<lambda>w. (w, block_hash E (last b))"
  from assms(3) obtain wa wb where w: "cumulative_difficulty_weight E a = Inr wa" "cumulative_difficulty_weight E b = Inr wb"
    "beats (?kb wb) (?ka wa)" by (auto simp: outweighs_def beats_def)
  then have k: "chain_key E a = Some (?ka wa)" "chain_key E b = Some (?kb wb)" using assms by (simp_all add: chain_key_def)
  moreover from k have "keys E [a, b] = {?ka wa, ?kb wb}" by (auto simp: keys_def)
  moreover from w(3) have "\<not> beats (?ka wa) (?kb wb)" by (auto simp: beats_def)
  ultimately show ?thesis unfolding choose_Inr by (auto simp: best_of_def beats_irrefl intro!: exI [of _ "?kb wb"])
qed

lemma decide_adopts: "(\<exists>r. decide_reorg E rt cand genesis now = Inr (r, last cand, True)) \<longleftrightarrow> candidate_wins E rt cand genesis now"
proof
  assume "\<exists>r. decide_reorg E rt cand genesis now = Inr (r, last cand, True)"
  then obtain r where dec: "decide_reorg E rt cand genesis now = Inr (r, last cand, True)" ..
  have "outweighs E cand (rt_block_cache rt)" if "rt_block_cache rt \<noteq> []"
  proof -
    from dec that have "choose_canonical_head E [rt_block_cache rt, cand] = Inr (block_hash E (last cand))"
      "block_hash E (last (rt_block_cache rt)) \<noteq> block_hash E (last cand)"
      by (auto simp: decide_reorg_def rbind_unit_eq_Inr rbind_eq_Inr map_err_eq_Inr ok_or_eq_Inr head_block_hash_def split: if_split_asm)
    with choose_pair [OF this] show ?thesis by (simp add: outweighs_def)
  qed
  moreover have "check_block_ts_future_drift (bl_ts (last cand)) now = Inr ()"
    using dec decide_reorg_Inr(2) [OF dec] by (auto simp: decide_reorg_def rbind_unit_eq_Inr)
  ultimately show "candidate_wins E rt cand genesis now"
    using decide_reorg_Inr [OF dec] by (auto simp: candidate_wins_def healthy_def)
next
  assume wins: "candidate_wins E rt cand genesis now"
  then have "rt_block_cache rt \<noteq> [] \<Longrightarrow> choose_canonical_head E [rt_block_cache rt, cand] = Inr (block_hash E (last cand))"
    by (intro outweighs_chosen) (simp_all add: candidate_wins_def)
  with wins show "\<exists>r. decide_reorg E rt cand genesis now = Inr (r, last cand, True)"
    by (auto simp: candidate_wins_def decide_reorg_def outweighs_def head_block_hash_def is_ok_iff ensure_canonical_state_healthy_def
        canonical_state_failure_code_def)
qed

lemma not_adopted:
  assumes "\<not> candidate_wins E rt cand genesis now" and "reorg_to_heavier_chain E C rt d path cand genesis now = (res, rt', d')"
  shows "rt' = rt \<and> d' = d \<and> (res = Ok KeptCurrent \<or> (\<exists>e. res = Err e))"
proof -
  have "decide_reorg E rt cand genesis now \<noteq> Inr (r, h, True)" for r h
    using assms(1) decide_reorg_Inr(3) [of E rt cand genesis now r h True] unfolding decide_adopts [symmetric] by blast
  with assms(2) show ?thesis by (auto simp: reorg_to_heavier_chain_def split: sum.split_asm prod.split_asm if_split_asm)
qed

text \<open>The reward ledger of a chain that replays can always be rebuilt.\<close>

lemma rebuild_snoc:
  "rebuild_reward_ledger E reg chain = Inr (l, evs) \<Longrightarrow> derive_reward_event E b reg = Inr ev \<Longrightarrow> ledger_apply l ev = (Inr (), l') \<Longrightarrow>
     rebuild_reward_ledger E reg (chain @ [b]) = Inr (l', evs @ [ev])"
  by (simp add: rebuild_reward_ledger_def try_fold_snoc ledger_applied_def)

lemma replay_rebuilds:
  assumes "replay_run E pol gp net reg g chain = Inr st"
  shows "\<exists>l evs. rebuild_reward_ledger E reg chain = Inr (l, evs) \<and> lg_balances l = rs_balances st"
  using assms
proof (induction chain arbitrary: st rule: rev_induct)
  case Nil
  then show ?case by (auto simp: rebuild_reward_ledger_def replay_start_def reward_ledger_default_def)
next
  case (snoc b chain)
  then obtain st0 where st0: "replay_run E pol gp net reg g chain = Inr st0"
    and step: "replay_step E pol gp net reg st0 (length chain, b) = Inr st"
    by (auto simp: replay_run_snoc rbind_eq_Inr)
  from snoc.IH [OF st0] obtain l evs where "rebuild_reward_ledger E reg chain = Inr (l, evs)" "lg_balances l = rs_balances st0" by blast
  with ledger_step [OF step] rebuild_snoc show ?case by fastforce
qed

lemma rewrite_file:
  assumes "write_ndjson_lines_atomic d path ls = (q, d')"
  shows "(q = Inr () \<and> dk_files d' path = Some (ndjson ls)) \<or>
    (\<not> working d \<and> (\<exists>e. q = Inl e) \<and> dk_files d' path \<in> {dk_files d path, Some (ndjson ls)})"
proof -
  obtain x os where x: "next_outcome d = (x, d\<lparr>dk_outcomes := os\<rparr>)" by (rule next_outcome_disk)
  then have "working d \<Longrightarrow> x = IoDone" by (auto simp: working_def next_outcome_def split: list.split_asm)
  with assms x show ?thesis
    by (cases "path \<in> dk_fenced d"; cases x)
      (auto simp: write_ndjson_lines_atomic_def write_file_atomic_def check_append_fence_def working_def put_file_def)
qed

text \<open>The second write, of the reward ledger, after the block file has been replaced.\<close>

lemma publish_reorg_ledger:
  assumes "write_ndjson_lines_atomic d path (map (sc_block_to_string C) cand) = (Inr u, d1)" and "rt_reward_ledger_path rt \<noteq> Some path"
    and "publish_reorg C rt d path cand r (last cand) rebuilt = (res, rt', d')"
  shows "dk_files d' path = dk_files d1 path \<and>
    ((res = Ok (Reorged (bl_height (last cand))) \<and> rt_canonical_state_failure rt' = None \<and> rt_block_cache rt' = cand \<and>
      rt_current_c rt' = Some (rr_latest_c r)) \<or>
     (\<not> working d1 \<and> (\<exists>e. res = Err (RtIo e)) \<and> rt' = rt\<lparr>rt_canonical_state_failure := Some ReorgReward\<rparr>))"
proof (cases "\<exists>lp p. rt_reward_ledger_path rt = Some lp \<and> rebuilt = Some p")
  case True
  then obtain lp l evs where lp: "rt_reward_ledger_path rt = Some lp" "rebuilt = Some (l, evs)" by auto
  then have other: "path \<noteq> lp" using assms(2) by blast
  obtain w d2 where w: "write_ndjson_lines_atomic d1 lp (map (sc_event_to_string C) evs) = (w, d2)" by fastforce
  note run = assms(3) [unfolded publish_reorg_def Let_def begin_canonical_publish_def assms(1) prod.case sum.case lp(2)]
  have "dk_files d2 path = dk_files d1 path" "working d1 \<Longrightarrow> w = Inr ()"
    using other_file(2) [OF other, of d1] working_calls(2) [of d1 lp] w by (metis snd_conv, metis fst_conv)
  then show ?thesis
    using run lp(1) w by (cases w) (auto simp: finish_canonical_publish_def set_current_c_def)
next
  case False
  then have "rt_reward_ledger_path rt = None \<or> rebuilt = None" by auto
  then show ?thesis
    using assms(3)
    by (cases "rt_reward_ledger_path rt"; cases rebuilt)
      (auto simp: publish_reorg_def Let_def begin_canonical_publish_def assms(1) finish_canonical_publish_def set_current_c_def)
qed

lemma publish_reorg_outcome:
  assumes "rt_reward_ledger_path rt \<noteq> Some path" and "publish_reorg C rt d path cand r (last cand) rebuilt = (res, rt', d')"
  defines "lines \<equiv> ndjson (map (sc_block_to_string C) cand)"
  shows "(res = Ok (Reorged (bl_height (last cand))) \<and> rt_canonical_state_failure rt' = None \<and> rt_block_cache rt' = cand \<and>
      rt_current_c rt' = Some (rr_latest_c r) \<and> dk_files d' path = Some lines) \<or>
    (\<not> working d \<and> (\<exists>e. res = Err (RtIo e)) \<and> rt' = rt\<lparr>rt_canonical_state_failure := Some ReorgReward\<rparr> \<and>
      dk_files d' path \<in> {dk_files d path, Some lines})"
proof -
  obtain q d1 where q: "write_ndjson_lines_atomic d path (map (sc_block_to_string C) cand) = (q, d1)" by fastforce
  note first = rewrite_file [OF q, folded lines_def]
  show ?thesis
  proof (cases q)
    case (Inl e)
    then have "res = Err (RtIo e)" "rt' = rt\<lparr>rt_canonical_state_failure := Some ReorgReward\<rparr>" "d' = d1"
      using assms(2) by (simp_all add: publish_reorg_def q Let_def begin_canonical_publish_def)
    with first Inl show ?thesis by auto
  next
    case (Inr u)
    then have "dk_files d1 path = Some lines" using first by auto
    moreover have "working d1" if "working d" using working_calls(2) [OF that, of path "map (sc_block_to_string C) cand"] q by simp
    ultimately show ?thesis using publish_reorg_ledger [OF q [unfolded Inr] assms(1,2)] by auto
  qed
qed

text \<open>C8. Let the reward ledger, if there is one, be in another file than the blocks. Only a candidate that wins is ever adopted: the runtime is healthy, the candidate's head is at most two hours ahead of the clock, the
  candidate replays under the strict genesis rules, and its work exceeds that of the current chain, or equals it with a lower
  head hash. If the candidate does not win, whether the current chain is kept or an error is returned, neither the runtime nor the disk
  changes. If it wins, then either it is adopted, the runtime is healthy on the candidate and its head and the block
  file holds exactly the candidate's lines, or a disk write failed: then the runtime keeps the old chain but is marked inconsistent,
  and the block file holds its old content or all of the candidate. On a working disk a winning
  candidate is always adopted.\<close>

theorem reorg_adopts_only_heavier:
  assumes "reorg_to_heavier_chain E C rt d path cand genesis now = (res, rt', d')" and "rt_reward_ledger_path rt \<noteq> Some path"
  shows "if \<not> candidate_wins E rt cand genesis now
    then rt' = rt \<and> d' = d \<and> (res = Ok KeptCurrent \<or> (\<exists>e. res = Err e))
    else
      (res = Ok (Reorged (bl_height (last cand))) \<and> rt_canonical_state_failure rt' = None \<and> rt_block_cache rt' = cand \<and>
       rt_current_c rt' = Some (bl_c (last cand)) \<and> dk_files d' path = Some (ndjson (map (sc_block_to_string C) cand))) \<or>
      (\<not> working d \<and> (\<exists>e. res = Err (RtIo e)) \<and> rt' = rt\<lparr>rt_canonical_state_failure := Some ReorgReward\<rparr> \<and>
       dk_files d' path \<in> {dk_files d path, Some (ndjson (map (sc_block_to_string C) cand))})"
proof (cases "candidate_wins E rt cand genesis now")
  case True
  then obtain r where dec: "decide_reorg E rt cand genesis now = Inr (r, last cand, True)" unfolding decide_adopts [symmetric] ..
  note facts = decide_reorg_Inr [OF dec]
  from facts(4) obtain st where run: "genesis_run E genesis (rt_family_registry rt) (reorg_authorization_network rt genesis) cand = Inr st"
    and r: "r = result_of (length cand) st" by (auto simp: genesis_replay_eq)
  note run' = run [unfolded genesis_run_def]
  have head: "rr_latest_c r = bl_c (last cand)" using replay_run_ok_state [OF run'] facts(2) by (auto simp: r result_of_def replay_ok_state_def)
  from replay_rebuilds [OF run'] obtain l where "rebuild_reward_ledger E (rt_family_registry rt) cand = Inr l" by auto
  with assms(1) dec obtain rebuilt where "publish_reorg C rt d path cand r (last cand) rebuilt = (res, rt', d')"
    by (auto simp: reorg_to_heavier_chain_def split: if_split_asm)
  from publish_reorg_outcome [OF assms(2) this] True show ?thesis unfolding head by simp
qed (use not_adopted [OF _ assms(1)] in simp)

lemma ex_decide: "\<exists>r. decide_reorg ref_ext ex_runtime0 [ex_first_block] ex_genesis 0 = Inr (r, ex_first_block, True)"
proof -
  have "replay_under_boot_contract ref_ext ex_runtime1 [ex_first_block] =
      replay_blocks_with_genesis_and_registry_for_authorization_network ref_ext [ex_first_block] ex_genesis (rt_family_registry ex_runtime0)
        (reorg_authorization_network ex_runtime0 ex_genesis)"
    by (simp add: replay_under_boot_contract_def reorg_authorization_network_def ex_runtime1_def ex_runtime0_fields)
  then obtain r where "replay_blocks_with_genesis_and_registry_for_authorization_network ref_ext [ex_first_block] ex_genesis
      (rt_family_registry ex_runtime0) (reorg_authorization_network ex_runtime0 ex_genesis) = Inr r"
    using ex_first_replays by auto
  moreover have "check_block_ts_future_drift (bl_ts ex_first_block) 0 = Inr ()"
    by (simp add: check_block_ts_future_drift_def BLOCK_TS_MAX_FUTURE_DRIFT_MS_def ex_first_block_def checked_add_def)
  moreover have "ensure_canonical_state_healthy ex_runtime0 = Inr ()" "rt_block_cache ex_runtime0 = []"
    by (simp_all add: ensure_healthy healthy_def ex_runtime0_fields)
  ultimately show ?thesis by (simp add: decide_reorg_def head_block_hash_def)
qed

theorem reorg_adopts_only_heavier_witness:
  "\<exists>rt' d'. reorg_to_heavier_chain ref_ext ref_codec ex_runtime0 (nd_disk fresh_node) ''blocks.ndjson'' [ex_first_block] ex_genesis 0 =
     (Ok (Reorged 0), rt', d') \<and> rt_block_cache rt' = [ex_first_block] \<and>
     dk_files d' ''blocks.ndjson'' = Some (ndjson [sc_block_to_string ref_codec ex_first_block])"
proof -
  have path: "rt_reward_ledger_path ex_runtime0 = None" by (simp add: ex_runtime0_fields)
  obtain r where dec: "decide_reorg ref_ext ex_runtime0 [ex_first_block] ex_genesis 0 = Inr (r, ex_first_block, True)" using ex_decide by blast
  have "bl_height ex_first_block = 0" by (simp add: ex_first_block_def)
  then obtain rt' d' where run: "reorg_to_heavier_chain ref_ext ref_codec ex_runtime0 (nd_disk fresh_node) ''blocks.ndjson''
      [ex_first_block] ex_genesis 0 = (Ok (Reorged 0), rt', d')"
    using dec path
    by (simp add: reorg_to_heavier_chain_def publish_reorg_def begin_canonical_publish_def write_ndjson_lines_atomic_def write_file_atomic_def
        check_append_fence_def next_outcome_def fresh_node_def Let_def)
  moreover have "candidate_wins ref_ext ex_runtime0 [ex_first_block] ex_genesis 0" using dec by (auto simp: decide_adopts [symmetric])
  ultimately show ?thesis using reorg_adopts_only_heavier [OF run] path by auto
qed

section \<open>An empty bounty id\<close>

text \<open>
  The shape check and the settlement of a promoted share never look at its \<open>bountyId\<close>, so replay accepts a block whose
  share has an empty one. The event ledger refuses the row derived from it: a node that keeps an event ledger cannot
  boot on such a chain.
\<close>

lemma promoted_row_rejected:
  assumes "pb_bounty_id s = []" shows "\<not> is_ok (validate_stored_event C (share_promoted_event b s))"
  using assms
  by (auto simp: validate_stored_event_def validate_bounty_ledger_event_def share_promoted_event_def str_or_empty_def event_str_def
      EVENT_KINDS_def validate_share_promoted_def nonempty_str_def is_some_and_def rbind_unit_eq_Inr is_ok_iff map_err_eq_Inr ensure_eq_Inr)

lemma rebuilt_rows:
  assumes "rebuild_bounty_ledger_rows present chain reg = Inr rows" and "b \<in> set chain" and "s \<in> set (bl_promoted_bounty_shares b)"
  shows "share_promoted_event b s \<in> set rows"
  using assms unfolding rebuild_bounty_ledger_rows_def
proof (induction chain arbitrary: rows rule: rev_induct)
  case (snoc b' chain)
  then show ?case by (auto simp: try_fold_snoc rbind_eq_Inr derive_bounty_events_def)
qed simp

lemma empty_bounty_id_stops_boot:
  assumes "dk_files d path = None" and "b \<in> set chain" and "s \<in> set (bl_promoted_bounty_shares b)" and "pb_bounty_id s = []"
  shows "\<not> is_ok (fst (heal_bounty_ledger C d (Some path) chain reg))"
proof (cases "rebuild_bounty_ledger_rows [] chain reg")
  case (Inr rows)
  have row: "share_promoted_event b s \<in> set rows" by (rule rebuilt_rows [OF Inr assms(2,3)])
  then have "\<not> is_ok (try_for_each (validate_stored_event C) rows)"
    using promoted_row_rejected [OF assms(4)] by (auto simp: is_ok_iff try_for_each_eq_Inr)
  then obtain e where "try_for_each (validate_stored_event C) rows = Inl e" by (cases "try_for_each (validate_stored_event C) rows") auto
  then show ?thesis using Inr row by (auto simp: heal_bounty_ledger_def assms(1) bounty_events_rewrite_atomic_def)
qed (simp add: heal_bounty_ledger_def assms(1))

end
