(* ===== verification/Nonce_Ledgers.thy ===== *)
theory Nonce_Ledgers
  imports Line_Files
begin

text \<open>
  nonce_ledger.rs, signed_nonce_ledger.rs and proof_dedup_ledger.rs: the three append-only ledgers that answer whether
  a session nonce, an envelope nonce or a proof was seen before. Each keeps its keys in memory and one
  JSON event per line on disk. The JSON text of an event is a parameter.
\<close>

record 'e line_codec =
  lc_to_string :: "'e \<Rightarrow> string"
  lc_from_str :: "string \<Rightarrow> string + 'e"

text \<open>\<open>serde_json\<close> writes an event as one line and reads back what it wrote.\<close>

definition line_codec_laws :: "'e line_codec \<Rightarrow> bool" where
  "line_codec_laws L \<longleftrightarrow> (\<forall>e. line_ok (lc_to_string L e) \<and> lc_from_str L (lc_to_string L e) = Ok e)"

section \<open>Session nonces\<close>

record file_nonce_ledger =
  nl_seen :: "string set"

datatype nonce_event = NonceBurn string string

definition nonce_key :: "string \<Rightarrow> string \<Rightarrow> string" where
  "nonce_key session_pk nonce = session_pk @ '':'' @ nonce"

definition nonce_contains :: "file_nonce_ledger \<Rightarrow> string \<Rightarrow> string \<Rightarrow> bool" where
  "nonce_contains ledger session_pk nonce \<longleftrightarrow> nonce_key session_pk nonce \<in> nl_seen ledger"

definition nonce_apply :: "file_nonce_ledger \<Rightarrow> nonce_event \<Rightarrow> file_nonce_ledger" where
  "nonce_apply ledger event =
     (case event of NonceBurn session_pk nonce \<Rightarrow> ledger\<lparr>nl_seen := insert (nonce_key session_pk nonce) (nl_seen ledger)\<rparr>)"

definition nonce_append :: "nonce_event line_codec \<Rightarrow> disk \<Rightarrow> string \<Rightarrow> nonce_event \<Rightarrow> (store_error + unit) \<times> disk" where
  "nonce_append L d path event =
     (case append_ndjson_line_durable d path (lc_to_string L event) of (r, d) \<Rightarrow> (map_err StoreIo r, d))"

definition append_burn ::
    "nonce_event line_codec \<Rightarrow> file_nonce_ledger \<Rightarrow> disk \<Rightarrow> string \<Rightarrow> string \<Rightarrow> string \<Rightarrow>
     (store_error + bool) \<times> file_nonce_ledger \<times> disk" where
  "append_burn L ledger d path session_pk nonce =
     (if nonce_contains ledger session_pk nonce then (Ok False, ledger, d)
      else let event = NonceBurn session_pk nonce
           in case nonce_append L d path event of
                (Inl e, d) \<Rightarrow> (Err e, ledger, d)
              | (Inr _, d) \<Rightarrow> (Ok True, nonce_apply ledger event, d))"

definition nonce_recover ::
    "nonce_event line_codec \<Rightarrow> disk \<Rightarrow> string \<Rightarrow> (store_error + file_nonce_ledger) \<times> disk" where
  "nonce_recover L d path =
     (case read_stable_prefix d path of
        (Inl e, d) \<Rightarrow> (Err (StoreIo e), d)
      | (Inr None, d) \<Rightarrow> (Ok \<lparr>nl_seen = {}\<rparr>, d)
      | (Inr (Some raw), d) \<Rightarrow>
          (try_fold (\<lambda>ledger (i, line).
             rbind (map_err (StoreJson (i + 1)) (lc_from_str L line)) (\<lambda>event. Ok (nonce_apply ledger event)))
             \<lparr>nl_seen = {}\<rparr> (enumerate 0 (stored_lines raw)), d))"

section \<open>Envelope nonces\<close>

record file_signed_nonce_ledger =
  sn_seen :: "string set"

datatype signed_nonce_event = SignedBurn string string

definition signed_nonce_key :: "string \<Rightarrow> string \<Rightarrow> string" where
  "signed_nonce_key signer_pk nonce = signer_pk @ '':'' @ nonce"

definition signed_nonce_contains :: "file_signed_nonce_ledger \<Rightarrow> string \<Rightarrow> string \<Rightarrow> bool" where
  "signed_nonce_contains ledger signer_pk nonce \<longleftrightarrow> signed_nonce_key signer_pk nonce \<in> sn_seen ledger"

definition signed_nonce_apply :: "file_signed_nonce_ledger \<Rightarrow> signed_nonce_event \<Rightarrow> file_signed_nonce_ledger" where
  "signed_nonce_apply ledger event =
     (case event of SignedBurn signer_pk nonce \<Rightarrow>
        ledger\<lparr>sn_seen := insert (signed_nonce_key signer_pk nonce) (sn_seen ledger)\<rparr>)"

definition signed_nonce_append ::
    "signed_nonce_event line_codec \<Rightarrow> disk \<Rightarrow> string \<Rightarrow> signed_nonce_event \<Rightarrow> (store_error + unit) \<times> disk" where
  "signed_nonce_append L d path event =
     (case append_ndjson_line_durable d path (lc_to_string L event) of (r, d) \<Rightarrow> (map_err StoreIo r, d))"

definition signed_append_burn ::
    "signed_nonce_event line_codec \<Rightarrow> file_signed_nonce_ledger \<Rightarrow> disk \<Rightarrow> string \<Rightarrow> string \<Rightarrow> string \<Rightarrow>
     (store_error + bool) \<times> file_signed_nonce_ledger \<times> disk" where
  "signed_append_burn L ledger d path signer_pk nonce =
     (if signed_nonce_contains ledger signer_pk nonce then (Ok False, ledger, d)
      else let event = SignedBurn signer_pk nonce
           in case signed_nonce_append L d path event of
                (Inl e, d) \<Rightarrow> (Err e, ledger, d)
              | (Inr _, d) \<Rightarrow> (Ok True, signed_nonce_apply ledger event, d))"

definition signed_nonce_recover ::
    "signed_nonce_event line_codec \<Rightarrow> disk \<Rightarrow> string \<Rightarrow> (store_error + file_signed_nonce_ledger) \<times> disk" where
  "signed_nonce_recover L d path =
     (case read_stable_prefix d path of
        (Inl e, d) \<Rightarrow> (Err (StoreIo e), d)
      | (Inr None, d) \<Rightarrow> (Ok \<lparr>sn_seen = {}\<rparr>, d)
      | (Inr (Some raw), d) \<Rightarrow>
          (try_fold (\<lambda>ledger (i, line).
             rbind (map_err (StoreJson (i + 1)) (lc_from_str L line)) (\<lambda>event. Ok (signed_nonce_apply ledger event)))
             \<lparr>sn_seen = {}\<rparr> (enumerate 0 (stored_lines raw)), d))"

section \<open>Credited proofs\<close>

record file_proof_dedup_ledger =
  pd_seen :: "string set"

datatype proof_dedup_event = ProofCredit string

definition dedup_contains :: "file_proof_dedup_ledger \<Rightarrow> string \<Rightarrow> bool" where
  "dedup_contains ledger canon_hash \<longleftrightarrow> canon_hash \<in> pd_seen ledger"

definition dedup_apply :: "file_proof_dedup_ledger \<Rightarrow> proof_dedup_event \<Rightarrow> file_proof_dedup_ledger" where
  "dedup_apply ledger event = (case event of ProofCredit canon_hash \<Rightarrow> ledger\<lparr>pd_seen := insert canon_hash (pd_seen ledger)\<rparr>)"

definition dedup_append ::
    "proof_dedup_event line_codec \<Rightarrow> disk \<Rightarrow> string \<Rightarrow> proof_dedup_event \<Rightarrow> (store_error + unit) \<times> disk" where
  "dedup_append L d path event =
     (case append_ndjson_line_durable d path (lc_to_string L event) of (r, d) \<Rightarrow> (map_err StoreIo r, d))"

definition append_credit ::
    "proof_dedup_event line_codec \<Rightarrow> file_proof_dedup_ledger \<Rightarrow> disk \<Rightarrow> string \<Rightarrow> string \<Rightarrow>
     (store_error + bool) \<times> file_proof_dedup_ledger \<times> disk" where
  "append_credit L ledger d path canon_hash =
     (if dedup_contains ledger canon_hash then (Ok False, ledger, d)
      else let event = ProofCredit canon_hash
           in case dedup_append L d path event of
                (Inl e, d) \<Rightarrow> (Err e, ledger, d)
              | (Inr _, d) \<Rightarrow> (Ok True, dedup_apply ledger event, d))"

definition dedup_recover ::
    "proof_dedup_event line_codec \<Rightarrow> disk \<Rightarrow> string \<Rightarrow> (store_error + file_proof_dedup_ledger) \<times> disk" where
  "dedup_recover L d path =
     (case read_stable_prefix d path of
        (Inl e, d) \<Rightarrow> (Err (StoreIo e), d)
      | (Inr None, d) \<Rightarrow> (Ok \<lparr>pd_seen = {}\<rparr>, d)
      | (Inr (Some raw), d) \<Rightarrow>
          (try_fold (\<lambda>ledger (i, line).
             rbind (map_err (StoreJson (i + 1)) (lc_from_str L line)) (\<lambda>event. Ok (dedup_apply ledger event)))
             \<lparr>pd_seen = {}\<rparr> (enumerate 0 (stored_lines raw)), d))"

text \<open>The loop of \<open>rebuild_from_credits\<close>: a hash is written the first time it is seen.\<close>

fun rebuild_lines :: "proof_dedup_event line_codec \<Rightarrow> string set \<Rightarrow> string list \<Rightarrow> string list \<Rightarrow> string set \<times> string list" where
  "rebuild_lines L seen lines [] = (seen, lines)"
| "rebuild_lines L seen lines (canon_hash # canon_hashes) =
     (if canon_hash \<in> seen then rebuild_lines L seen lines canon_hashes
      else rebuild_lines L (insert canon_hash seen) (lines @ [lc_to_string L (ProofCredit canon_hash)]) canon_hashes)"

definition rebuild_from_credits ::
    "proof_dedup_event line_codec \<Rightarrow> disk \<Rightarrow> string \<Rightarrow> string list \<Rightarrow> (store_error + file_proof_dedup_ledger) \<times> disk" where
  "rebuild_from_credits L d path canon_hashes =
     (let (seen, lines) = rebuild_lines L {} [] canon_hashes
      in case write_ndjson_lines_atomic d path lines of
           (Inl e, d) \<Rightarrow> (Err (StoreIo e), d)
         | (Inr _, d) \<Rightarrow> (Ok \<lparr>pd_seen = seen\<rparr>, d))"

section \<open>A ledger in use\<close>

text \<open>
  A gate that accepts an event when the ledger burns it, over any sequence of requests and restarts. Every request
  carries the outcomes of its disk calls; a crash is a torn or refused call followed by a restart, which lifts the
  fences of the process and recovers the ledger from its file. Without a recovered ledger nothing is accepted.
\<close>

datatype 'e gate_op = GateBurn "io_outcome list" 'e | GateRestart "io_outcome list"

record ('l, 'e) gate =
  gt_disk :: disk
  gt_ledger :: "'l option"
  gt_presented :: "'e list"
  gt_accepted :: "'e list"

definition gate_step ::
    "(disk \<Rightarrow> string \<Rightarrow> (store_error + 'l) \<times> disk) \<Rightarrow> ('l \<Rightarrow> disk \<Rightarrow> string \<Rightarrow> 'e \<Rightarrow> (store_error + bool) \<times> 'l \<times> disk) \<Rightarrow>
     string \<Rightarrow> ('l, 'e) gate \<Rightarrow> 'e gate_op \<Rightarrow> ('l, 'e) gate" where
  "gate_step recover burn path g op =
     (case op of
        GateBurn os e \<Rightarrow>
          (case gt_ledger g of
             None \<Rightarrow> g\<lparr>gt_presented := gt_presented g @ [e]\<rparr>
           | Some l \<Rightarrow>
               (case burn l ((gt_disk g)\<lparr>dk_outcomes := os\<rparr>) path e of
                  (r, l, d) \<Rightarrow> \<lparr>gt_disk = d, gt_ledger = Some l, gt_presented = gt_presented g @ [e],
                     gt_accepted = gt_accepted g @ (if r = Inr True then [e] else [])\<rparr>))
      | GateRestart os \<Rightarrow>
          (case recover ((gt_disk g)\<lparr>dk_fenced := {}, dk_outcomes := os\<rparr>) path of
             (r, d) \<Rightarrow> g\<lparr>gt_disk := d, gt_ledger := result_ok r\<rparr>))"

definition gate_start :: "disk \<Rightarrow> ('l, 'e) gate" where
  "gate_start d = \<lparr>gt_disk = d, gt_ledger = None, gt_presented = [], gt_accepted = []\<rparr>"

text \<open>
  The file holds every accepted key and only keys that were presented, no key was accepted twice, and so does a ledger
  in use. A torn line at the end of the file is fenced while the process lives.
\<close>

definition gate_inv :: "'e line_codec \<Rightarrow> ('l \<Rightarrow> string set) \<Rightarrow> ('e \<Rightarrow> string) \<Rightarrow> string \<Rightarrow> ('l, 'e) gate \<Rightarrow> bool" where
  "gate_inv L seen key path g \<longleftrightarrow> line_codec_laws L \<and> distinct (map key (gt_accepted g)) \<and>
     (\<exists>evs torn. holds_lines (gt_disk g) path (map (lc_to_string L) evs) torn \<and> 
        key ` set (gt_accepted g) \<subseteq> key ` set evs \<and> key ` set evs \<subseteq> key ` set (gt_presented g) \<and>
        (\<forall>l. gt_ledger g = Some l \<longrightarrow>
           key ` set (gt_accepted g) \<subseteq> seen l \<and> seen l \<subseteq> key ` set (gt_presented g) \<and> (torn \<noteq> [] \<longrightarrow> path \<in> dk_fenced (gt_disk g))))"

text \<open>What the gate needs of a ledger: how recovery reads its file, and when and what an event appends to it.\<close>

locale line_ledger =
  fixes L :: "'e line_codec" and seen :: "'l \<Rightarrow> string set" and key :: "'e \<Rightarrow> string" and start :: 'l
    and enter :: "'l \<Rightarrow> 'e \<Rightarrow> 'l" and recover :: "disk \<Rightarrow> string \<Rightarrow> (store_error + 'l) \<times> disk"
    and burn :: "'l \<Rightarrow> disk \<Rightarrow> string \<Rightarrow> 'e \<Rightarrow> (store_error + bool) \<times> 'l \<times> disk"
  assumes seen_start: "seen start = {}"
    and seen_enter: "seen (enter l e) = insert (key e) (seen l)"
    and recover_reads: "recover d path =
      (case read_stable_prefix d path of
         (Inl x, d) \<Rightarrow> (Inl (StoreIo x), d)
       | (Inr None, d) \<Rightarrow> (Inr start, d)
       | (Inr (Some raw), d) \<Rightarrow>
           (try_fold (\<lambda>l (i, line). rbind (map_err (StoreJson (i + 1)) (lc_from_str L line)) (\<lambda>e. Ok (enter l e)))
              start (enumerate 0 (stored_lines raw)), d))"
    and burn_seen: "key e \<in> seen l \<Longrightarrow> burn l d path e = (Inr False, l, d)"
    and burn_new: "key e \<notin> seen l \<Longrightarrow> burn l d path e =
      (case append_ndjson_line_durable d path (lc_to_string L e) of
         (Inl x, d) \<Rightarrow> (Inl (StoreIo x), l, d)
       | (Inr _, d) \<Rightarrow> (Inr True, enter l e, d))"
begin

lemma read_events:
  assumes "line_codec_laws L"
  shows "\<exists>l'. try_fold (\<lambda>l (i, line). rbind (map_err (StoreJson (i + 1)) (lc_from_str L line)) (\<lambda>e. Ok (enter l e)))
      l (enumerate k (map (lc_to_string L) evs)) = Inr l' \<and> seen l' = seen l \<union> key ` set evs"
proof (induction evs arbitrary: l k)
  case (Cons e evs)
  have "lc_from_str L (lc_to_string L e) = Ok e" using assms by (simp add: line_codec_laws_def)
  then show ?case using Cons.IH [of "enter l e" "Suc k"] by (simp add: seen_enter)
qed simp

lemma recovered:
  assumes L: "line_codec_laws L" and held: "holds_lines d path (map (lc_to_string L) evs) torn" and run: "recover d path = (r, d')"
  shows "(\<exists>l. r = Inr l \<and> seen l = key ` set evs \<and> holds_lines d' path (map (lc_to_string L) evs) []) \<or>
      (\<exists>x torn'. r = Inl x \<and> holds_lines d' path (map (lc_to_string L) evs) torn')"
    and "working d \<Longrightarrow> is_ok r \<and> working d'"
proof -
  have lines: "\<forall>l \<in> set (map (lc_to_string L) evs). line_ok l" using L by (simp add: line_codec_laws_def)
  obtain q where q: "read_stable_prefix d path = (q, d')" using run by (auto simp: recover_reads split: prod.split_asm sum.split_asm option.split_asm)
  note read = read_lines [OF held q]
  obtain l where l: "try_fold (\<lambda>l (i, line). rbind (map_err (StoreJson (i + 1)) (lc_from_str L line)) (\<lambda>e. Ok (enter l e)))
      start (enumerate 0 (map (lc_to_string L) evs)) = Inr l" "seen l = key ` set evs"
    using read_events [OF L, of start 0 evs] by (auto simp: seen_start)
  have r: "q = Inr (Some (ndjson (map (lc_to_string L) evs))) \<Longrightarrow> r = Inr l" "q = Inr None \<Longrightarrow> r = Inr start" "q = Inl x \<Longrightarrow> r = Inl (StoreIo x)" for x
    using run q l(1) by (simp_all add: recover_reads stored_lines_ndjson [OF lines])
  show "(\<exists>l. r = Inr l \<and> seen l = key ` set evs \<and> holds_lines d' path (map (lc_to_string L) evs) []) \<or>
      (\<exists>x torn'. r = Inl x \<and> holds_lines d' path (map (lc_to_string L) evs) torn')"
    using read(1) r l(2) seen_start by fastforce
  show "is_ok r \<and> working d'" if "working d" using read that r by (auto simp: is_ok_iff)
qed

lemma burned:
  assumes L: "line_codec_laws L" and held: "holds_lines d path (map (lc_to_string L) evs) torn"
    and fence: "torn \<noteq> [] \<longrightarrow> path \<in> dk_fenced d" and run: "burn l d path e = (r, l', d')"
  shows "(r = Inr False \<and> key e \<in> seen l \<and> l' = l \<and> d' = d) \<or>
    (r = Inr True \<and> key e \<notin> seen l \<and> seen l' = insert (key e) (seen l) \<and> holds_lines d' path (map (lc_to_string L) (evs @ [e])) []) \<or>
    (\<exists>x evs' torn'. r = Inl x \<and> l' = l \<and> evs' \<in> {evs, evs @ [e]} \<and> holds_lines d' path (map (lc_to_string L) evs') torn' \<and>
       (torn' \<noteq> [] \<longrightarrow> path \<in> dk_fenced d'))"
proof (cases "key e \<in> seen l")
  case True
  with run show ?thesis by (simp add: burn_seen)
next
  case False
  obtain q where q: "append_ndjson_line_durable d path (lc_to_string L e) = (q, d')"
    and res: "(r, l') = (case q of Inl x \<Rightarrow> (Inl (StoreIo x), l) | Inr _ \<Rightarrow> (Inr True, enter l e))"
    using run by (auto simp: burn_new [OF False] split: prod.split_asm sum.split_asm)
  have "line_ok (lc_to_string L e)" using L by (simp add: line_codec_laws_def)
  from append_records [OF held fence this q] show ?thesis
  proof (elim disjE exE conjE)
    assume "q = Inr ()" "holds_lines d' path (map (lc_to_string L) (evs @ [e])) []"
    with res False show ?thesis by (simp add: seen_enter)
  next
    fix x evs' torn'
    assume q': "q = Inl x" "evs' \<in> {evs, evs @ [e]}" "holds_lines d' path (map (lc_to_string L) evs') torn'"
      "torn' \<noteq> [] \<longrightarrow> path \<in> dk_fenced d'"
    with res show ?thesis by (intro disjI2 exI [of _ "StoreIo x"] exI [of _ evs'] exI [of _ torn']) simp
  qed
qed

lemma gate_burn:
  assumes inv: "gate_inv L seen key path g"
  shows "gate_inv L seen key path (gate_step recover burn path g (GateBurn os e))"
proof (cases "gt_ledger g")
  case None
  from inv obtain evs torn where "holds_lines (gt_disk g) path (map (lc_to_string L) evs) torn"
    "key ` set (gt_accepted g) \<subseteq> key ` set evs" "key ` set evs \<subseteq> key ` set (gt_presented g)" by (auto simp: gate_inv_def)
  then show ?thesis using None inv unfolding gate_inv_def
    by (intro conjI exI [of _ evs] exI [of _ torn]) (auto simp: gate_step_def)
next
  case (Some l)
  with inv obtain evs torn where L: "line_codec_laws L" and d: "distinct (map key (gt_accepted g))"
    and held: "holds_lines ((gt_disk g)\<lparr>dk_outcomes := os\<rparr>) path (map (lc_to_string L) evs) torn"
    and acc: "key ` set (gt_accepted g) \<subseteq> key ` set evs" "key ` set evs \<subseteq> key ` set (gt_presented g)"
      "key ` set (gt_accepted g) \<subseteq> seen l" "seen l \<subseteq> key ` set (gt_presented g)"
    and fence: "torn \<noteq> [] \<longrightarrow> path \<in> dk_fenced ((gt_disk g)\<lparr>dk_outcomes := os\<rparr>)" by (auto simp: gate_inv_def)
  obtain r l' d' where run: "burn l ((gt_disk g)\<lparr>dk_outcomes := os\<rparr>) path e = (r, l', d')" by (rule prod_cases3)
  have g': "gate_step recover burn path g (GateBurn os e) =
      \<lparr>gt_disk = d', gt_ledger = Some l', gt_presented = gt_presented g @ [e],
        gt_accepted = gt_accepted g @ (if r = Inr True then [e] else [])\<rparr>"
    using Some run by (simp add: gate_step_def)
  from burned [OF L held fence run] show ?thesis
  proof (elim disjE exE conjE)
    assume "r = Inr True" "key e \<notin> seen l" "seen l' = insert (key e) (seen l)"
      "holds_lines d' path (map (lc_to_string L) (evs @ [e])) []"
    with L d acc show ?thesis unfolding g' gate_inv_def by (intro conjI exI [of _ "evs @ [e]"] exI [of _ "[]"]) auto
  next
    assume "r = Inr False" "l' = l" "d' = (gt_disk g)\<lparr>dk_outcomes := os\<rparr>"
    with L d acc held fence show ?thesis unfolding g' gate_inv_def by (intro conjI exI [of _ evs] exI [of _ torn]) auto
  next
    fix x evs' torn'
    assume e: "r = Inl x" "l' = l" "evs' \<in> {evs, evs @ [e]}" "holds_lines d' path (map (lc_to_string L) evs') torn'"
      "torn' \<noteq> [] \<longrightarrow> path \<in> dk_fenced d'"
    have sub: "set evs \<subseteq> set evs'" "set evs' \<subseteq> set evs \<union> {e}" using e(3) by auto
    have "key ` set (gt_accepted g) \<subseteq> key ` set evs'" by (rule subset_trans [OF acc(1) image_mono [OF sub(1)]])
    moreover have "key ` set evs' \<subseteq> key ` set (gt_presented g @ [e])"
      using image_mono [OF sub(2), of key] acc(2) by (simp add: image_Un) (meson insert_mono subset_trans)
    moreover have "seen l \<subseteq> key ` set (gt_presented g @ [e])" using acc(4) by auto
    ultimately show ?thesis unfolding g' gate_inv_def
      using e(1,2,4,5) L d acc(3) by (intro conjI exI [of _ evs'] exI [of _ torn']) simp_all
  qed
qed

lemma gate_restart:
  assumes inv: "gate_inv L seen key path g"
  shows "gate_inv L seen key path (gate_step recover burn path g (GateRestart os))"
    and "os = [] \<Longrightarrow> \<exists>l. gt_ledger (gate_step recover burn path g (GateRestart os)) = Some l \<and>
      working (gt_disk (gate_step recover burn path g (GateRestart os)))"
proof -
  let ?d = "(gt_disk g)\<lparr>dk_fenced := {}, dk_outcomes := os\<rparr>"
  from inv obtain evs torn where L: "line_codec_laws L" and d: "distinct (map key (gt_accepted g))"
    and held: "holds_lines ?d path (map (lc_to_string L) evs) torn"
    and acc: "key ` set (gt_accepted g) \<subseteq> key ` set evs" "key ` set evs \<subseteq> key ` set (gt_presented g)"
    by (auto simp: gate_inv_def)
  obtain r d' where run: "recover ?d path = (r, d')" by (cases "recover ?d path")
  have g': "gate_step recover burn path g (GateRestart os) = g\<lparr>gt_disk := d', gt_ledger := result_ok r\<rparr>"
    using run by (simp add: gate_step_def)
  from recovered(1) [OF L held run] show "gate_inv L seen key path (gate_step recover burn path g (GateRestart os))"
  proof (elim disjE exE conjE)
    fix l assume "r = Inr l" "seen l = key ` set evs" "holds_lines d' path (map (lc_to_string L) evs) []"
    with L d acc show ?thesis unfolding g' gate_inv_def by (intro conjI exI [of _ evs] exI [of _ "[]"]) (simp_all add: result_ok_def)
  next
    fix x torn' assume "r = Inl x" "holds_lines d' path (map (lc_to_string L) evs) torn'"
    with L d acc show ?thesis unfolding g' gate_inv_def by (intro conjI exI [of _ evs] exI [of _ torn']) (simp_all add: result_ok_def)
  qed
  show "\<exists>l. gt_ledger (gate_step recover burn path g (GateRestart os)) = Some l \<and>
      working (gt_disk (gate_step recover burn path g (GateRestart os)))" if "os = []"
    using recovered(2) [OF L held run] that unfolding g' by (auto simp: working_def is_ok_iff result_ok_def)
qed

end

sublocale line_ledger \<subseteq> gate: total_system "gate_step recover burn path" "gate_inv L seen key path" for path
proof
  fix g op assume "gate_inv L seen key path g"
  then show "gate_inv L seen key path (gate_step recover burn path g op)"
    by (cases op) (simp_all add: gate_burn gate_restart(1))
qed

context line_ledger
begin

text \<open>
  Whatever happened, no key was accepted twice, and after a restart on a working disk every accepted event is refused
  and every event with a new key is accepted.
\<close>

lemma accepted_once:
  assumes L: "line_codec_laws L" and "dk_files d path = None" and g: "g = foldl (gate_step recover burn path) (gate_start d) ops"
    and g': "g' = gate_step recover burn path g (GateRestart [])"
  shows "distinct (map key (gt_accepted g))"
    and "\<exists>l. gt_ledger g' = Some l \<and> (\<forall>e \<in> set (gt_accepted g). \<forall>d. burn l d path e = (Inr False, l, d)) \<and>
      (\<forall>e. key e \<notin> key ` set (gt_presented g) \<longrightarrow> fst (burn l (gt_disk g') path e) = Inr True)"
proof -
  have "gate_inv L seen key path (gate_start d)"
    using assms(1,2) by (auto simp: gate_inv_def gate_start_def holds_lines_def file_bytes_def intro!: exI [of _ "[]"])
  then have inv: "gate_inv L seen key path g" unfolding g by (rule gate.foldl_inv)
  then show "distinct (map key (gt_accepted g))" by (simp add: gate_inv_def)
  obtain l where l: "gt_ledger g' = Some l" "working (gt_disk g')" using gate_restart(2) [OF inv] g' by blast
  have "gt_accepted g' = gt_accepted g" "gt_presented g' = gt_presented g" by (simp_all add: g' gate_step_def split: prod.split)
  with gate_restart(1) [OF inv, of "[]", folded g'] l(1)
  have seen: "key ` set (gt_accepted g) \<subseteq> seen l" "seen l \<subseteq> key ` set (gt_presented g)" by (auto simp: gate_inv_def)
  have "fst (burn l (gt_disk g') path e) = Inr True" if "key e \<notin> key ` set (gt_presented g)" for e
  proof -
    have "key e \<notin> seen l" using that seen(2) by blast
    then show ?thesis using working_calls(3) [OF l(2), of path "lc_to_string L e"] by (auto simp: burn_new split: prod.split sum.split)
  qed
  moreover have "burn l d path e = (Inr False, l, d)" if "e \<in> set (gt_accepted g)" for e d using that seen(1) burn_seen by blast
  ultimately show "\<exists>l. gt_ledger g' = Some l \<and> (\<forall>e \<in> set (gt_accepted g). \<forall>d. burn l d path e = (Inr False, l, d)) \<and>
      (\<forall>e. key e \<notin> key ` set (gt_presented g) \<longrightarrow> fst (burn l (gt_disk g') path e) = Inr True)"
    using l(1) by blast
qed

end

section \<open>The three ledgers\<close>

definition burn_key :: "nonce_event \<Rightarrow> string" where
  "burn_key event = (case event of NonceBurn session_pk nonce \<Rightarrow> nonce_key session_pk nonce)"

definition burn_nonce ::
    "nonce_event line_codec \<Rightarrow> file_nonce_ledger \<Rightarrow> disk \<Rightarrow> string \<Rightarrow> nonce_event \<Rightarrow> (store_error + bool) \<times> file_nonce_ledger \<times> disk" where
  "burn_nonce L ledger d path event = (case event of NonceBurn session_pk nonce \<Rightarrow> append_burn L ledger d path session_pk nonce)"

definition signed_burn_key :: "signed_nonce_event \<Rightarrow> string" where
  "signed_burn_key event = (case event of SignedBurn signer_pk nonce \<Rightarrow> signed_nonce_key signer_pk nonce)"

definition burn_signed_nonce ::
    "signed_nonce_event line_codec \<Rightarrow> file_signed_nonce_ledger \<Rightarrow> disk \<Rightarrow> string \<Rightarrow> signed_nonce_event \<Rightarrow>
     (store_error + bool) \<times> file_signed_nonce_ledger \<times> disk" where
  "burn_signed_nonce L ledger d path event =
     (case event of SignedBurn signer_pk nonce \<Rightarrow> signed_append_burn L ledger d path signer_pk nonce)"

definition credit_key :: "proof_dedup_event \<Rightarrow> string" where
  "credit_key event = (case event of ProofCredit canon_hash \<Rightarrow> canon_hash)"

definition credit_proof ::
    "proof_dedup_event line_codec \<Rightarrow> file_proof_dedup_ledger \<Rightarrow> disk \<Rightarrow> string \<Rightarrow> proof_dedup_event \<Rightarrow>
     (store_error + bool) \<times> file_proof_dedup_ledger \<times> disk" where
  "credit_proof L ledger d path event = (case event of ProofCredit canon_hash \<Rightarrow> append_credit L ledger d path canon_hash)"

lemmas nonce_ledger_defs = burn_key_def burn_nonce_def append_burn_def nonce_contains_def nonce_append_def nonce_apply_def nonce_recover_def
lemmas signed_ledger_defs = signed_burn_key_def burn_signed_nonce_def signed_append_burn_def signed_nonce_contains_def
  signed_nonce_append_def signed_nonce_apply_def signed_nonce_recover_def
lemmas dedup_ledger_defs = credit_key_def credit_proof_def append_credit_def dedup_contains_def dedup_append_def dedup_apply_def dedup_recover_def
lemmas ledger_splits = nonce_event.splits signed_nonce_event.splits proof_dedup_event.splits prod.split sum.split

interpretation nonces: line_ledger L nl_seen burn_key "\<lparr>nl_seen = {}\<rparr>" nonce_apply "nonce_recover L" "burn_nonce L" for L
  by unfold_locales (auto simp: nonce_ledger_defs split: ledger_splits)

interpretation signed_nonces: line_ledger L sn_seen signed_burn_key "\<lparr>sn_seen = {}\<rparr>" signed_nonce_apply "signed_nonce_recover L"
  "burn_signed_nonce L" for L
  by unfold_locales (auto simp: signed_ledger_defs split: ledger_splits)

interpretation proofs: line_ledger L pd_seen credit_key "\<lparr>pd_seen = {}\<rparr>" dedup_apply "dedup_recover L" "credit_proof L" for L
  by unfold_locales (auto simp: dedup_ledger_defs split: ledger_splits)

text \<open>A rebuilt mirror knows exactly the credited proofs, and so does the mirror recovered from its file.\<close>

lemma rebuild_lines_seen: "fst (rebuild_lines L seen lines hs) = seen \<union> set hs"
  by (induction L seen lines hs rule: rebuild_lines.induct) auto

lemma rebuild_lines_written:
  "\<exists>new. snd (rebuild_lines L seen lines hs) = lines @ map (lc_to_string L) (map ProofCredit new) \<and> distinct new \<and>
     set new = set hs - seen"
proof (induction L seen lines hs rule: rebuild_lines.induct)
  case (2 L seen lines h hs)
  show ?case
  proof (cases "h \<in> seen")
    case True
    with 2(1) [OF True] show ?thesis by auto
  next
    case False
    with 2(2) [OF False] obtain new where "snd (rebuild_lines L (insert h seen) (lines @ [lc_to_string L (ProofCredit h)]) hs) =
        (lines @ [lc_to_string L (ProofCredit h)]) @ map (lc_to_string L) (map ProofCredit new)" "distinct new" "set new = set hs - insert h seen"
      by blast
    with False show ?thesis by (intro exI [of _ "h # new"]) auto
  qed
qed simp

lemma rebuilt_ledger_exact:
  assumes L: "line_codec_laws L" and run: "rebuild_from_credits L d path hs = (Inr l, d')" and "working d'"
  shows "pd_seen l = set hs" and "\<exists>l'. fst (dedup_recover L d' path) = Inr l' \<and> pd_seen l' = set hs"
proof -
  obtain new where new: "snd (rebuild_lines L {} [] hs) = map (lc_to_string L) (map ProofCredit new)" "set new = set hs"
    using rebuild_lines_written [of L "{}" "[]" hs] by auto
  show "pd_seen l = set hs" using run rebuild_lines_seen [of L "{}" "[]" hs]
    by (auto simp: rebuild_from_credits_def split: prod.split_asm sum.split_asm)
  have w: "write_ndjson_lines_atomic d path (map (lc_to_string L) (map ProofCredit new)) = (Inr (), d')"
    using run new(1) by (auto simp: rebuild_from_credits_def split: prod.split_asm sum.split_asm)
  then have "file_bytes d' path = ndjson (map (lc_to_string L) (map ProofCredit new))"
    by (auto simp: write_ndjson_lines_atomic_def write_file_atomic_def put_file_def file_bytes_def Let_def
        split: prod.split_asm sum.split_asm io_outcome.split_asm)
  then have "holds_lines d' path (map (lc_to_string L) (map ProofCredit new)) []"
    using L by (simp add: holds_lines_def line_codec_laws_def)
  moreover obtain r d2 where "dedup_recover L d' path = (r, d2)" by fastforce
  ultimately show "\<exists>l'. fst (dedup_recover L d' path) = Inr l' \<and> pd_seen l' = set hs"
    using proofs.recovered [OF L, of d' path "map ProofCredit new"] \<open>working d'\<close> new(2)
    by (fastforce simp: is_ok_iff credit_key_def image_image)
qed

end
