(* ===== verification/Nonce_Theorems.thy ===== *)
theory Nonce_Theorems
  imports Nonce_Ledgers Reference_Codec
begin

text \<open>
  Replay protection of signed requests: across any requests, failed or torn writes and restarts, a nonce is accepted at
  most once.
\<close>

text \<open>The key of a pair determines it when the public key has no colon, as a hex key has none.\<close>

lemma nonce_key_inject:
  assumes "CHR '':'' \<notin> set pk" and "CHR '':'' \<notin> set pk'"
  shows "nonce_key pk nonce = nonce_key pk' nonce' \<longleftrightarrow> pk = pk' \<and> nonce = nonce'"
proof
  assume "nonce_key pk nonce = nonce_key pk' nonce'"
  then have eq: "pk @ CHR '':'' # nonce = pk' @ CHR '':'' # nonce'" by (simp add: nonce_key_def)
  then have "takeWhile (\<lambda>c. c \<noteq> CHR '':'') (pk @ CHR '':'' # nonce) = takeWhile (\<lambda>c. c \<noteq> CHR '':'') (pk' @ CHR '':'' # nonce')" by simp
  with assms have "pk = pk'" by (subst (asm) (1 2) takeWhile_append2) auto
  with eq show "pk = pk' \<and> nonce = nonce'" by simp
qed simp

text \<open>Two events with the same text on the wire are the same: a codec for the examples.\<close>

definition enc_burn :: "nonce_event \<Rightarrow> string" where
  "enc_burn e = enc_pair enc_string enc_string (case e of NonceBurn pk nonce \<Rightarrow> (pk, nonce))"

definition ref_nonce_codec :: "nonce_event line_codec" where
  "ref_nonce_codec = \<lparr>lc_to_string = enc_burn, lc_from_str = read_back enc_burn\<rparr>"

lemma ref_nonce_codec_laws: "line_codec_laws ref_nonce_codec"
proof -
  have "prefix_code enc_burn"
    unfolding enc_burn_def by (rule prefix_code_comp) (intro prefix_codes, auto intro!: injI split: nonce_event.split_asm)
  then show ?thesis by (simp add: line_codec_laws_def ref_nonce_codec_def prefix_code_line prefix_code_read)
qed

definition ex_gate_ops :: "nonce_event gate_op list" where
  "ex_gate_ops = [GateRestart [], GateBurn [] (NonceBurn ''aa'' ''7''), GateBurn [IoTorn 3] (NonceBurn ''aa'' ''8'')]"

definition ex_empty_disk :: disk where
  "ex_empty_disk = \<lparr>dk_files = (\<lambda>_. None), dk_fenced = {}, dk_outcomes = []\<rparr>"

definition ex_gate :: "(file_nonce_ledger, nonce_event) gate" where
  "ex_gate = foldl (gate_step (nonce_recover ref_nonce_codec) (burn_nonce ref_nonce_codec) ''nonces'') (gate_start ex_empty_disk) ex_gate_ops"

lemma ex_gate_accepted: "gt_accepted ex_gate = [NonceBurn ''aa'' ''7'']" and ex_gate_presented: "gt_presented ex_gate = [NonceBurn ''aa'' ''7'', NonceBurn ''aa'' ''8'']"
  by (simp_all add: ex_gate_def ex_gate_ops_def gate_start_def gate_step_def ex_empty_disk_def nonce_recover_def read_stable_prefix_def result_ok_def
      burn_nonce_def append_burn_def nonce_contains_def nonce_append_def append_ndjson_line_durable_def append_ndjson_line_with_handle_def
      check_append_fence_def append_ndjson_transaction_def next_outcome_def put_file_def fence_failed_append_def nonce_apply_def nonce_key_def Let_def)

text \<open>C9. Session nonces are accepted at most once. Take a nonce ledger with no file and any history of submissions and
  restarts, in which every disk call may succeed, fail, or tear its write. No key was accepted twice; and
  after a restart on a working disk the ledger recovers, refuses every nonce it ever accepted, and
  accepts every nonce that was never presented.\<close>

theorem session_nonce_accepted_once:
  assumes "line_codec_laws L" and "dk_files d path = None"
    and "g = foldl (gate_step (nonce_recover L) (burn_nonce L) path) (gate_start d) ops"
    and "g' = gate_step (nonce_recover L) (burn_nonce L) path g (GateRestart [])"
  shows "distinct (map burn_key (gt_accepted g)) \<and>
    (\<exists>l. gt_ledger g' = Some l \<and>
       (\<forall>pk nonce d. NonceBurn pk nonce \<in> set (gt_accepted g) \<longrightarrow> append_burn L l d path pk nonce = (Ok False, l, d)) \<and>
       (\<forall>pk nonce. nonce_key pk nonce \<notin> burn_key ` set (gt_presented g) \<longrightarrow>
          fst (append_burn L l (gt_disk g') path pk nonce) = Ok True))"
proof -
  note once = nonces.accepted_once [OF assms]
  from once(2) obtain l where l: "gt_ledger g' = Some l" "\<forall>e \<in> set (gt_accepted g). \<forall>d. burn_nonce L l d path e = (Inr False, l, d)"
    "\<forall>e. burn_key e \<notin> burn_key ` set (gt_presented g) \<longrightarrow> fst (burn_nonce L l (gt_disk g') path e) = Inr True" by blast
  have "append_burn L l d path pk nonce = burn_nonce L l d path (NonceBurn pk nonce)" "burn_key (NonceBurn pk nonce) = nonce_key pk nonce"
    for d pk nonce by (simp_all add: burn_nonce_def burn_key_def)
  with once(1) l show ?thesis by metis
qed

theorem session_nonce_accepted_once_witness:
  "\<exists>l. gt_ledger (gate_step (nonce_recover ref_nonce_codec) (burn_nonce ref_nonce_codec) ''nonces'' ex_gate (GateRestart [])) = Some l \<and>
     append_burn ref_nonce_codec l ex_empty_disk ''nonces'' ''aa'' ''7'' = (Ok False, l, ex_empty_disk) \<and>
     fst (append_burn ref_nonce_codec l
       (gt_disk (gate_step (nonce_recover ref_nonce_codec) (burn_nonce ref_nonce_codec) ''nonces'' ex_gate (GateRestart []))) ''nonces'' ''aa'' ''9'') = Ok True"
proof -
  have "nonce_key ''aa'' ''9'' \<notin> burn_key ` set (gt_presented ex_gate)" by (simp add: ex_gate_presented burn_key_def nonce_key_def)
  moreover have "dk_files ex_empty_disk ''nonces'' = None" by (simp add: ex_empty_disk_def)
  ultimately show ?thesis
    using session_nonce_accepted_once [OF ref_nonce_codec_laws _ ex_gate_def refl] ex_gate_accepted by fastforce
qed

text \<open>The ledger of envelope nonces keeps the same promise.\<close>

lemma signed_nonce_once:
  assumes "line_codec_laws L" and "dk_files d path = None"
    and "g = foldl (gate_step (signed_nonce_recover L) (burn_signed_nonce L) path) (gate_start d) ops"
  shows "distinct (map signed_burn_key (gt_accepted g))"
  using signed_nonces.accepted_once(1) [OF assms refl] .

end
