(* ===== verification/Signing.thy ===== *)
theory Signing
  imports Signed_Envelope
begin

text \<open>
  The signing half of signed_envelope.rs. A dalek \<open>SigningKey\<close> is its 32-byte seed; deriving the public key and
  signing are parameters.
\<close>

record dalek_signer =
  ed_verifying_key :: "u8 list \<Rightarrow> u8 list"
  ed_sign :: "u8 list \<Rightarrow> u8 list \<Rightarrow> u8 list"

text \<open>Keys have 32 bytes, signatures 64, a derived key is a valid point, and it verifies what its seed signed.\<close>

definition signer_laws :: "ext \<Rightarrow> dalek_signer \<Rightarrow> bool" where
  "signer_laws E S \<longleftrightarrow>
     (\<forall>seed digest. length seed = 32 \<and> length digest = 32 \<longrightarrow>
        length (ed_verifying_key S seed) = 32 \<and> length (ed_sign S seed digest) = 64 \<and>
        ext_ed25519_point_ok E (ed_verifying_key S seed) \<and>
        ext_ed25519_verify E (ed_verifying_key S seed) digest (ed_sign S seed digest) \<and>
        ext_ed25519_verify_strict E (ed_verifying_key S seed) digest (ed_sign S seed digest))"

record signing_key_v2 =
  sk_inner :: "u8 list"

text \<open>\<open>OsRng\<close> supplies the seed.\<close>

definition from_random :: "u8 list \<Rightarrow> envelope_error + signing_key_v2" where
  "from_random os_rng = Ok \<lparr>sk_inner = os_rng\<rparr>"

definition from_dev_id :: "ext \<Rightarrow> string \<Rightarrow> signing_key_v2" where
  "from_dev_id E dev_id = \<lparr>sk_inner = ext_blake3 E (as_bytes ''boole-keys-dev::'' @ as_bytes dev_id)\<rparr>"

definition from_seed_hex :: "ext \<Rightarrow> string \<Rightarrow> envelope_error + signing_key_v2" where
  "from_seed_hex E seed_hex = rbind (decode_hex32 E seed_hex ''sk'') (\<lambda>bytes. Ok \<lparr>sk_inner = bytes\<rparr>)"

definition key_pk_hex :: "ext \<Rightarrow> dalek_signer \<Rightarrow> signing_key_v2 \<Rightarrow> string" where
  "key_pk_hex E S key = ext_hex_encode E (ed_verifying_key S (sk_inner key))"

definition sk_seed_hex :: "ext \<Rightarrow> signing_key_v2 \<Rightarrow> string" where
  "sk_seed_hex E key = ext_hex_encode E (sk_inner key)"

definition sign_for_network ::
    "ext \<Rightarrow> dalek_signer \<Rightarrow> signing_key_v2 \<Rightarrow> json \<Rightarrow> string option \<Rightarrow> envelope_error + signed_envelope" where
  "sign_for_network E S key payload network_id =
     (let digest = digest_for E payload network_id;
          signature = ed_sign S (sk_inner key) digest
      in Ok \<lparr>se_schema = SIGNED_ENVELOPE_SCHEMA, se_payload = payload, se_pk = key_pk_hex E S key,
            se_signature = ext_hex_encode E signature, se_network_id = network_id\<rparr>)"

definition sign_legacy :: "ext \<Rightarrow> dalek_signer \<Rightarrow> signing_key_v2 \<Rightarrow> json \<Rightarrow> envelope_error + signed_envelope" where
  "sign_legacy E S key payload = sign_for_network E S key payload None"

section \<open>Round trips\<close>

lemma length_encoded: "hex_laws E \<Longrightarrow> length (ext_hex_encode E bs) = 2 * length bs"
  unfolding hex_laws_def by blast

lemma decode_hex32_encode: "hex_laws E \<Longrightarrow> length bs = 32 \<Longrightarrow> decode_hex32 E (ext_hex_encode E bs) field = Inr bs"
  using hex32_from_to [of E bs] by (simp add: decode_hex32_def hex32_to_hex_def length_encoded)

lemma decode_hex64_encode: "hex_laws E \<Longrightarrow> length bs = 64 \<Longrightarrow> decode_hex64 E (ext_hex_encode E bs) field = Inr bs"
  by (simp add: decode_hex64_def hex64_from_encode length_encoded)

text \<open>A key written as its seed is the key read back.\<close>

lemma seed_hex_roundtrip:
  assumes "hex_laws E" and "length (sk_inner key) = 32" shows "from_seed_hex E (sk_seed_hex E key) = Inr key"
  using assms by (simp add: from_seed_hex_def sk_seed_hex_def decode_hex32_encode)

text \<open>Keys from every source have 32 bytes.\<close>

lemma key_lengths:
  "digest32 E \<Longrightarrow> length (sk_inner (from_dev_id E dev_id)) = 32"
  "hex_laws E \<Longrightarrow> from_seed_hex E s = Inr key \<Longrightarrow> length (sk_inner key) = 32"
  by (auto simp: digest32_def from_dev_id_def from_seed_hex_def decode_hex32_def result_simps hex32_from_hex_length split: if_split_asm)

text \<open>
  An envelope signed for a network verifies, leniently and strictly, on that network; under another network it verifies
  exactly when the signature fits the other digest.
\<close>

lemma signed_envelope_verifies:
  assumes "hex_laws E" and "digest32 E" and "signer_laws E S" and "length (sk_inner key) = 32"
    and "sign_for_network E S key payload network_id = Inr e"
  shows "envelope_verify E e = Inr True" and "verify_strict E e = Inr True"
    and "envelope_verify E (e\<lparr>se_network_id := other\<rparr>) =
      Inr (ext_ed25519_verify E (ed_verifying_key S (sk_inner key)) (digest_for E payload other)
        (ed_sign S (sk_inner key) (digest_for E payload network_id)))"
proof -
  have "length (digest_for E payload network_id) = 32"
    using assms(2) by (simp add: digest32_def digest_for_def sha256_canonical_def split: option.split)
  then have laws: "length (ed_verifying_key S (sk_inner key)) = 32" "length (ed_sign S (sk_inner key) (digest_for E payload network_id)) = 64"
    "ext_ed25519_point_ok E (ed_verifying_key S (sk_inner key))"
    "ext_ed25519_verify E (ed_verifying_key S (sk_inner key)) (digest_for E payload network_id) (ed_sign S (sk_inner key) (digest_for E payload network_id))"
    "ext_ed25519_verify_strict E (ed_verifying_key S (sk_inner key)) (digest_for E payload network_id) (ed_sign S (sk_inner key) (digest_for E payload network_id))"
    using assms(3,4) unfolding signer_laws_def by blast+
  have "e = \<lparr>se_schema = SIGNED_ENVELOPE_SCHEMA, se_payload = payload, se_pk = key_pk_hex E S key,
      se_signature = ext_hex_encode E (ed_sign S (sk_inner key) (digest_for E payload network_id)), se_network_id = network_id\<rparr>"
    using assms(5) by (simp add: sign_for_network_def Let_def)
  with laws assms(1) show "envelope_verify E e = Inr True" "verify_strict E e = Inr True"
    "envelope_verify E (e\<lparr>se_network_id := other\<rparr>) =
      Inr (ext_ed25519_verify E (ed_verifying_key S (sk_inner key)) (digest_for E payload other)
        (ed_sign S (sk_inner key) (digest_for E payload network_id)))"
    by (simp_all add: envelope_verify_def verify_signature_with_network_def verify_strict_def key_pk_hex_def
        decode_hex32_encode decode_hex64_encode)
qed

text \<open>An instance for the examples.\<close>

definition ref_signer :: dalek_signer where
  "ref_signer = \<lparr>ed_verifying_key = (\<lambda>seed. seed), ed_sign = (\<lambda>seed digest. seed @ digest)\<rparr>"

lemma ref_signer_laws: "signer_laws ref_ext ref_signer"
  by (simp add: signer_laws_def ref_signer_def ref_ext_def)

end
