(* ===== verification/Spec2Isabelle.thy ===== *)
theory Spec2Isabelle
  imports Ledger_Theorems Share_Pool_Theorems Rate_Limiter_Theorems Validator_Theorems
    Difficulty_Theorems Native_Chain_Theorems Fork_Choice Family_Manifest
    Selection_Theorems Node_Theorems Nonce_Theorems Signing
begin

text \<open>
  A verification library for Boole: the consensus core (src/crates/boole-core) and the stateful runtime of
  the node with its durable files (src/crates/boole-node).

  \<^bold>\<open>The program.\<close> A miner turns a proof into a canonical package and submits it as a share. The node checks
  the package's bytes, its ticket, seed and proof of work, charges a rate limiter and keeps the share in a pool
  (admission). From the pool it selects the best fresh shares, names a proposer and assembles a block
  (production); it re-plays its own block before it writes it to the block file, derives the rewards into a
  second file, and takes over blocks and heavier chains from peers (ingestion, reorganisation). Every balance
  is a function of the block file: replay recomputes it, and boot repairs the reward file from it. Bounty
  families, declared by signed manifests, add promoted shares to blocks. A second, independent chain carries
  the native coin: a ledger with transfers, halving emission and locked rewards, under blocks with proof of work.

  \<^bold>\<open>Conventions.\<close> A Rust struct is a record, an enum a datatype, a function or method a HOL function of
  the same name. Fixed-width integers are words (\<open>u8\<close>, \<open>u32\<close>, \<open>u64\<close>, \<open>u128\<close> of Prelude); \<open>usize\<close> and
  \<open>BigUint\<close> are natural numbers; \<open>i64\<close> is an integer, with the overflow written out where the code
  can reach it. Checked, saturating and wrapping operations are functions of their own. A string or a byte
  vector is a list; a \<open>BTreeMap\<close> or \<open>HashMap\<close> is a list in key order (Ordered_Map). A \<open>Result\<close> is a sum with
  the error on the left, \<open>?\<close> is \<open>rbind\<close>, and a panic is an error value. Methods with \<open>&mut self\<close> return the new
  state. The clock is an argument.

  \<^bold>\<open>Parameters.\<close> Third-party code enters through two records, and nothing about it is defined here. The
  record \<open>ext\<close> (External) holds BLAKE3, SHA-256, Ed25519, the hex codec, decimal and JSON formatting and
  big-integer conversion; its laws are digests of 32 bytes (\<open>digest32\<close>), decoding after encoding
  (\<open>hex_laws\<close>, \<open>hex_value_laws\<close>, \<open>biguint_laws\<close>) and decimal text (\<open>fmt_laws\<close>). The record \<open>store_codec\<close>
  (Stores) holds the JSON text of the stored records; its laws are that a record written is the record read
  and that its text is one line. No law speaks about collisions. \<open>ref_ext\<close> and \<open>ref_codec\<close>
  (Reference_Codec) are concrete instances on which the witnesses are evaluated. The signing side
  of Ed25519 is the record \<open>dalek_signer\<close> (Signing) with \<open>signer_laws\<close>; the JSON text of a ledger event is a
  \<open>line_codec\<close> (Nonce_Ledgers) with \<open>line_codec_laws\<close>. Each has an instance.

  \<^bold>\<open>Theories and sources.\<close>
  \<^item> Prelude, Ordered_Map, External: results, integers, folds that may fail, maps, and the parameters.
    The locales \<open>fallible_system\<close> and \<open>total_system\<close> state once what invariants of state
    machines give on every run; \<open>ordered_map\<close> states the laws of maps.
  \<^item> Native_Ledger (native_ledger.rs); Ledger_Invariant, Ledger_Audit, Ledger_Undo, Ledger_Behaviour,
    Ledger_Examples and Ledger_Theorems prove its properties.
  \<^item> Hashing (hash.rs), Signed_Envelope (canonical_json.rs, signed_envelope.rs), Config (config.rs), Genesis
    (genesis.rs, rules.rs).
    Signing holds the signing half of signed_envelope.rs.
  \<^item> Share_Pool (share_pool.rs) and Rate_Limiter (rate_limiter.rs), each with its theorems.
  \<^item> Validator (validator.rs); Validator_Grammar and Validator_Package give the grammar as trees with their
    encoding, Validator_Theorems the entry points against it.
  \<^item> Block (block.rs), Difficulty (difficulty.rs), Fork_Choice (fork_choice.rs, accounting.rs).
  \<^item> Native_Chain (native_network.rs, native_chain.rs); Native_Chain_Invariant, Native_Chain_Mining,
    Native_Chain_Targets and Native_Chain_Theorems.
  \<^item> Family_Manifest (family_manifest.rs, family_manifest_registry.rs), Bounty_Promotion (bounty_side_pool.rs,
    bounty_promotion.rs) with Bounty_Theorems, Bounty_Ledger (bounty_ledger.rs).
  \<^item> Share_Authorization (share_authorization.rs), Block_Builder (block_builder.rs) with Block_Builder_Theorems and
    Selection_Theorems, Replay_Evidence (replay_evidence.rs), Replay (replay.rs) with Replay_Accounting,
    Replay_Rules and Replay_Theorems.
  \<^item> Admission (admission_types.rs, submission_pow.rs, admission.rs).
  \<^item> Durability (durability.rs), Line_Files (what its operations do to a file of complete lines), Stores (block_store.rs, reward_store.rs, bounty_event_store.rs) and Runtime
    (runtime.rs): boot, replay under the boot contract, ingestion, reorganisation, production, commit, tickets,
    admission, quarantine and semantic reservations.
  \<^item> Nonce_Ledgers (nonce_ledger.rs, signed_nonce_ledger.rs, proof_dedup_ledger.rs) with Nonce_Theorems: the locale
    \<open>line_ledger\<close> states what a ledger file promises and is interpreted on all three.
  \<^item> Production, Production_Examples and Production_Theorems follow a share from admission to the replay of the
    block that carries it. Recovery, Node and Node_Theorems treat the node as a machine whose steps are
    requests, crashes and restarts.

  \<^bold>\<open>What is shown.\<close>
  \<^item> Native ledger: every ledger reached by accepted blocks passes the node's audit, audit is exactly the
    invariant, undo is an exact inverse, no transfer applies twice, issuance follows the schedule up to the cap,
    rewards stay locked, no panic occurs, and transfers accepted one by one form a block.
  \<^item> Native chain: reachable chains are linked and carry their work; a fork is the replay of a prefix; mining
    finds the first winning nonce and the mined template is accepted; ranking is a strict order that extension
    increases; targets move by at most a factor of four.
  \<^item> Validator: it accepts exactly the encodings of the grammar, and the limits cut exactly where they say.
  \<^item> Pool and limiter: their caps, bounds and quotas in every reachable state.
  \<^item> Difficulty and fork choice: bounded retargeting, the exact timestamp rule, the heaviest head whatever the order.
  \<^item> Manifests and bounties: parsing is stable under reserialization, the registry root is order independent, and
    settlement pays capped rewards that promotion always meets.
  \<^item> Selection and replay: what is selected and that the order of arrival is immaterial; balances are exact sums,
    each proof is credited once, prefixes of accepted chains are accepted.
  \<^item> The node: a produced block always replays; a reorganisation is adopted only for a better chain; whatever
    writes fail or tear, a restart on a working disk recovers a replayable chain with its balances, and a node that was
    healthy recovers exactly what it had.
  \<^item> Replay protection: a nonce is accepted at most once across failures and restarts; a key's seed reads back,
    and what a key signs verifies.
  Two lemmas record behaviour that a reader of the code would not expect: \<open>decl_limit_truncated\<close>
  (Validator_Theorems) and \<open>empty_bounty_id_stops_boot\<close> (Node_Theorems).

  \<^bold>\<open>Bounds.\<close> No definition uses fuel. The validator's recursion carries the code's own depth counter, which
  stops at 4096; mining recurses over the interval of nonces it is given; the remaining loops are structural on lists. The
  disk carries the list of outcomes of the calls to come (done, refused, undone, or torn after any number of
  bytes), of any length; once it is empty every call succeeds. Histories of nodes, pools, limiters and ledgers are
  lists of any length.

  \<^bold>\<open>Not modelled.\<close>
  \<^item> Of durability.rs the versioned variants, directory creation and symbolic-link checks, which concern the
    directory tree of the operating system.
  \<^item> The services around the modelled state: the HTTP node (local_node.rs, native_node.rs and their helpers), the
    peer-to-peer threads and transport, the command line, the miner, the MCP servers and the wallet agent. They are
    sockets, threads, request parsing and calls of the operations that are modelled.
  \<^item> External verifiers and their supervision (lean runner, gate supervisor, native shadow crates, EVM adapter):
    processes, cgroups and files. The runtime receives their verdict as an argument.
  \<^item> Records for clients and operators (sessions, receipts, telemetry, release and update contracts, key vault)
    and the remaining auxiliary stores: no consensus decision reads them.
  \<^item> The useful-work protocol, the bounty catalog and the rollup devnet crates: separate systems that share no state with the
    modelled node.
\<close>

end
